theory Spec2Isabelle
  imports Complex_Main "HOL-Library.Char_ord" "HOL-Library.List_Lexorder"
begin

section \<open>Common conventions\<close>

text \<open>
  Discord identifiers (guild, user, channel, message ids) are non-negative Python
  integers and are modelled as \<open>nat\<close>. Python strings are modelled as \<open>string\<close>, one
  \<open>char\<close> per code point, so the model covers text whose code points are below 256.
  User-visible messages, whose wording contains Thai text and emoji, are modelled as
  constructors of a reply datatype carrying the values interpolated into the message.
  A Python \<open>set\<close> is modelled as a duplicate-free list; its iteration order is
  unspecified in Python, so properties are stated on \<open>set\<close> and \<open>length\<close> only.
\<close>

type_synonym guild_id = nat
type_synonym user_id = nat

definition set_add :: "'a \<Rightarrow> 'a list \<Rightarrow> 'a list" where
  "set_add x s = (if x \<in> set s then s else s @ [x])"

section \<open>cogs/prefix.py: DynamicPrefix\<close>

text \<open>
  The table \<open>guild_prefixes\<close> (primary key \<open>(guild_id, prefix)\<close>) is the list of its rows;
  \<open>prefix_cache\<close> is the dictionary from guild id to the set of cached prefixes.
\<close>

record prefix_state =
  db_prefixes :: "(guild_id \<times> string) list"
  prefix_cache :: "guild_id \<rightharpoonup> string list"

definition default_prefix :: string where
  "default_prefix = ''i.''"

text \<open>The cached set of a guild, empty when the guild has no entry in the dictionary.\<close>

definition cache_get :: "(guild_id \<rightharpoonup> string list) \<Rightarrow> guild_id \<Rightarrow> string list" where
  "cache_get cache g = (case cache g of None \<Rightarrow> [] | Some s \<Rightarrow> s)"

definition cache_of :: "prefix_state \<Rightarrow> guild_id \<Rightarrow> string list" where
  "cache_of st g = cache_get (prefix_cache st) g"

text \<open>\<open>load_prefixes\<close>: the loop over all rows of the table, filling the cache.\<close>

fun load_prefixes ::
  "(guild_id \<times> string) list \<Rightarrow> (guild_id \<rightharpoonup> string list) \<Rightarrow> (guild_id \<rightharpoonup> string list)" where
  "load_prefixes [] cache = cache"
| "load_prefixes ((g, p) # rows) cache =
     load_prefixes rows
       (cache(g \<mapsto> set_add p (cache_get cache g)))"

text \<open>\<open>__init__\<close>: an empty cache, then \<open>load_prefixes\<close> over the database file as found.\<close>

definition DynamicPrefix_init :: "(guild_id \<times> string) list \<Rightarrow> prefix_state" where
  "DynamicPrefix_init rows =
     \<lparr>db_prefixes = rows, prefix_cache = load_prefixes rows Map.empty\<rparr>"

text \<open>
  \<open>add_prefix_to_db\<close>. The flag \<open>db_error\<close> is the \<open>except sqlite3.Error\<close> branch: the
  statement or the commit raised, the connection rolled back, and \<open>False\<close> is returned.
\<close>

definition add_prefix_to_db ::
  "bool \<Rightarrow> prefix_state \<Rightarrow> guild_id \<Rightarrow> string \<Rightarrow> bool \<times> prefix_state" where
  "add_prefix_to_db db_error st g p =
     (if db_error then (False, st)
      else if (g, p) \<in> set (db_prefixes st) then (False, st)
      else (True,
            st\<lparr>db_prefixes := db_prefixes st @ [(g, p)],
               prefix_cache := (prefix_cache st)(g \<mapsto> set_add p (cache_of st g))\<rparr>))"

text \<open>
  \<open>remove_prefix_from_db\<close>: the \<open>DELETE\<close>, and when \<open>rowcount > 0\<close> the removal from the
  cached set if the guild and the prefix are cached.
\<close>

definition remove_prefix_from_db ::
  "bool \<Rightarrow> prefix_state \<Rightarrow> guild_id \<Rightarrow> string \<Rightarrow> bool \<times> prefix_state" where
  "remove_prefix_from_db db_error st g p =
     (if db_error then (False, st)
      else if (g, p) \<in> set (db_prefixes st) then
        (True,
         st\<lparr>db_prefixes := filter (\<lambda>r. r \<noteq> (g, p)) (db_prefixes st),
            prefix_cache :=
              (case prefix_cache st g of
                 None \<Rightarrow> prefix_cache st
               | Some s \<Rightarrow> if p \<in> set s then (prefix_cache st)(g \<mapsto> removeAll p s)
                           else prefix_cache st)\<rparr>)
      else (False, st))"

definition get_all_prefixes :: "prefix_state \<Rightarrow> guild_id \<Rightarrow> string list" where
  "get_all_prefixes st g =
     (case prefix_cache st g of
        Some s \<Rightarrow> [default_prefix] @ s
      | None \<Rightarrow> [default_prefix])"

datatype prefix_reply =
    PrefixEmpty
  | PrefixTooLong
  | MaxPrefixesReached
  | IsDefaultPrefix string
  | PrefixAdded string
  | PrefixAlreadyExists string
  | CannotRemoveDefault
  | PrefixRemoved string
  | PrefixNotFound string
  | AllPrefixesRemoved
  | ErrorClearingPrefixes

text \<open>The command \<open>prefix add\<close>.\<close>

definition add_new_prefix ::
  "bool \<Rightarrow> prefix_state \<Rightarrow> guild_id \<Rightarrow> string \<Rightarrow> prefix_reply \<times> prefix_state" where
  "add_new_prefix db_error st g new_prefix =
     (if new_prefix = [] then (PrefixEmpty, st)
      else if length new_prefix > 10 then (PrefixTooLong, st)
      else
        let prefixes = get_all_prefixes st g in
        if length prefixes \<ge> 10 then (MaxPrefixesReached, st)
        else if new_prefix = default_prefix \<and> default_prefix \<in> set prefixes
          then (IsDefaultPrefix new_prefix, st)
        else
          let (success, st') = add_prefix_to_db db_error st g new_prefix in
          if success then (PrefixAdded new_prefix, st')
          else (PrefixAlreadyExists new_prefix, st'))"

text \<open>The command \<open>prefix remove\<close>.\<close>

definition remove_existing_prefix ::
  "bool \<Rightarrow> prefix_state \<Rightarrow> guild_id \<Rightarrow> string \<Rightarrow> prefix_reply \<times> prefix_state" where
  "remove_existing_prefix db_error st g prefix_to_remove =
     (if prefix_to_remove = default_prefix then (CannotRemoveDefault, st)
      else
        let (success, st') = remove_prefix_from_db db_error st g prefix_to_remove in
        if success then (PrefixRemoved prefix_to_remove, st')
        else (PrefixNotFound prefix_to_remove, st'))"

text \<open>The command \<open>prefix clear\<close>.\<close>

definition clear_all_prefixes ::
  "bool \<Rightarrow> prefix_state \<Rightarrow> guild_id \<Rightarrow> prefix_reply \<times> prefix_state" where
  "clear_all_prefixes db_error st g =
     (if db_error then (ErrorClearingPrefixes, st)
      else
        (AllPrefixesRemoved,
         st\<lparr>db_prefixes := filter (\<lambda>r. fst r \<noteq> g) (db_prefixes st),
            prefix_cache :=
              (if g \<in> dom (prefix_cache st) then (prefix_cache st)(g \<mapsto> [])
               else prefix_cache st)\<rparr>))"

text \<open>
  A sequence of prefix operations, each with the guild it is invoked in and the
  outcome of its database access.
\<close>

datatype prefix_op =
    OpAdd guild_id string bool
  | OpRemove guild_id string bool
  | OpClear guild_id bool

fun prefix_step :: "prefix_state \<Rightarrow> prefix_op \<Rightarrow> prefix_state" where
  "prefix_step st (OpAdd g p e) = snd (add_new_prefix e st g p)"
| "prefix_step st (OpRemove g p e) = snd (remove_existing_prefix e st g p)"
| "prefix_step st (OpClear g e) = snd (clear_all_prefixes e st g)"

definition run_prefix_ops :: "prefix_op list \<Rightarrow> prefix_state \<Rightarrow> prefix_state" where
  "run_prefix_ops ops st = foldl prefix_step st ops"

definition stored_prefixes :: "prefix_state \<Rightarrow> guild_id \<Rightarrow> string set" where
  "stored_prefixes st g = {p. (g, p) \<in> set (db_prefixes st)}"

definition prefix_inv :: "prefix_state \<Rightarrow> bool" where
  "prefix_inv st \<longleftrightarrow>
     (\<forall>g. set (cache_of st g) = stored_prefixes st g \<and> distinct (cache_of st g))"

text \<open>The bound of the command: at most nine cached custom prefixes per guild.\<close>

definition within_limit :: "prefix_state \<Rightarrow> bool" where
  "within_limit st \<longleftrightarrow> (\<forall>g. length (cache_of st g) \<le> 9)"


section \<open>cogs/eng.py: the personal vocabulary\<close>

text \<open>
  Python's \<open>str.lower\<close> and \<open>str.strip\<close> on code points below 256. The code points with
  a different lowercase form are \<open>A\<close> to \<open>Z\<close> and the Latin-1 capitals \<open>0xC0\<close> to \<open>0xDE\<close>
  without the multiplication sign \<open>0xD7\<close>; the lowercase form is 32 above. The
  whitespace code points are \<open>0x09\<close> to \<open>0x0D\<close>, \<open>0x1C\<close> to \<open>0x20\<close>, \<open>0x85\<close> and \<open>0xA0\<close>.
\<close>

definition is_upper :: "char \<Rightarrow> bool" where
  "is_upper c =
     (let n = (of_char c :: nat)
      in (65 \<le> n \<and> n \<le> 90) \<or> (192 \<le> n \<and> n \<le> 222 \<and> n \<noteq> 215))"

definition lower_char :: "char \<Rightarrow> char" where
  "lower_char c = (if is_upper c then char_of ((of_char c :: nat) + 32) else c)"

definition str_lower :: "string \<Rightarrow> string" where
  "str_lower s = map lower_char s"

definition is_space :: "char \<Rightarrow> bool" where
  "is_space c =
     (let n = (of_char c :: nat)
      in (9 \<le> n \<and> n \<le> 13) \<or> (28 \<le> n \<and> n \<le> 32) \<or> n = 133 \<or> n = 160)"

definition str_strip :: "string \<Rightarrow> string" where
  "str_strip s = rev (dropWhile is_space (rev (dropWhile is_space s)))"

text \<open>
  The table \<open>vocabulary\<close> with its constraint \<open>UNIQUE(user_id, word)\<close>, as the list of its
  rows in insertion order. The autoincremented \<open>id\<close> column is never read by the cog and
  is left out.
\<close>

type_synonym vocab_db = "(user_id \<times> string) list"

datatype vocab_reply =
    AskForWord
  | WordSaved string
  | AlreadySaved string
  | VocabDbError
  | NoWordsYet
  | WordList "string list"

text \<open>
  The command \<open>eng vocab save\<close>. \<open>db_error\<close> is the \<open>except sqlite3.Error\<close> branch; the
  violated uniqueness constraint is the \<open>except sqlite3.IntegrityError\<close> branch.
\<close>

definition save_word ::
  "bool \<Rightarrow> vocab_db \<Rightarrow> user_id \<Rightarrow> string \<Rightarrow> vocab_reply \<times> vocab_db" where
  "save_word db_error db uid word =
     (let clean_word = str_strip (str_lower word) in
      if clean_word = [] then (AskForWord, db)
      else if db_error then (VocabDbError, db)
      else if (uid, clean_word) \<in> set db then (AlreadySaved clean_word, db)
      else (WordSaved clean_word, db @ [(uid, clean_word)]))"

text \<open>
  \<open>SELECT word FROM vocabulary WHERE user_id = ? ORDER BY word\<close>: SQLite orders text by
  the bytes of its UTF-8 encoding, which is the lexicographic order of the code points.
\<close>

definition select_words :: "vocab_db \<Rightarrow> user_id \<Rightarrow> string list" where
  "select_words db uid = sort (map snd (filter (\<lambda>r. fst r = uid) db))"

text \<open>The command \<open>eng vocab list\<close>.\<close>

definition list_vocab :: "vocab_db \<Rightarrow> user_id \<Rightarrow> vocab_reply" where
  "list_vocab db uid =
     (let words = select_words db uid in
      if words = [] then NoWordsYet else WordList words)"

text \<open>A history of save commands from the empty table: (database error, user, word).\<close>

fun run_saves :: "(bool \<times> user_id \<times> string) list \<Rightarrow> vocab_db \<Rightarrow> vocab_db" where
  "run_saves [] db = db"
| "run_saves ((e, uid, word) # cmds) db = run_saves cmds (snd (save_word e db uid word))"

text \<open>Every stored word is in normal form: lowercase, stripped and not empty.\<close>

definition clean_rows :: "vocab_db \<Rightarrow> bool" where
  "clean_rows db \<longleftrightarrow>
     (\<forall>r \<in> set db. str_lower (snd r) = snd r \<and> str_strip (snd r) = snd r \<and> snd r \<noteq> [])"

section \<open>cogs/error\_handler.py: ErrorHandler\<close>

text \<open>
  What the handler reads of the invocation context. \<open>has_on_error\<close> is
  \<open>hasattr(ctx.command, "on_error")\<close>; \<open>overrides_cog_command_error\<close> is
  \<open>cog._get_overridden_method(cog.cog_command_error) is not None\<close>. The framework
  gives \<open>ctx.cog\<close> as the cog of \<open>ctx.command\<close>, and \<open>None\<close> when there is no command.
\<close>

record cog_info =
  cog_name :: string
  overrides_cog_command_error :: bool

record command_info =
  qualified_name :: string
  signature :: string
  has_on_error :: bool
  command_cog :: "cog_info option"

record invocation =
  ctx_command :: "command_info option"
  invoked_with :: string
  clean_prefix :: string

definition ctx_cog :: "invocation \<Rightarrow> cog_info option" where
  "ctx_cog ctx = (case ctx_command ctx of None \<Rightarrow> None | Some c \<Rightarrow> command_cog c)"

text \<open>
  The error classes the handler tells apart, each constructor the most specific class of
  the error. The handler tests a class before its superclasses (\<open>NotOwner\<close> before
  \<open>CheckFailure\<close>, \<open>MissingRequiredArgument\<close> before \<open>UserInputError\<close>), so matching on
  the constructor in the order of the source is its \<open>isinstance\<close> chain.
\<close>

datatype command_error =
    CommandNotFound
  | NotOwner
  | DisabledCommand
  | CommandOnCooldown
  | MaxConcurrencyReached
  | MissingRequiredArgument string
  | MemberNotFound string
  | UserNotFound string
  | ChannelNotFound string
  | RoleNotFound string
  | EmojiNotFound string
  | MessageNotFound string
  | BadUnionArgument string
  | BadArgument
  | UserInputError
  | NoPrivateMessage
  | MissingPermissions "string list"
  | BotMissingPermissions "string list"
  | MissingRole
  | MissingAnyRole
  | BotMissingRole
  | BotMissingAnyRole
  | NSFWChannelRequired
  | CheckFailure
  | UnclassifiedError

text \<open>
  The embeds the handler sends, one constructor per embed title, carrying the values the
  embed shows. \<open>MissingArgumentReply p u\<close> is the embed titled "Missing Argument" whose
  description names the parameter \<open>p\<close> and whose field "Correct Usage" shows \<open>u\<close>.
\<close>

datatype handler_reply =
    CommandDisabledReply string
  | CooldownReply
  | MaxConcurrencyReply string
  | MissingArgumentReply string "string option"
  | ConversionErrorReply string string
  | BadUnionReply string "string option"
  | InvalidArgumentReply "string option"
  | ServerOnlyReply string
  | MissingPermissionsReply "string list"
  | BotMissingPermissionsReply "string list" string
  | MissingRoleReply
  | BotMissingRoleReply string
  | NsfwRequiredReply string
  | CheckFailedReply
  | UnexpectedErrorReply

datatype log_level = LogInfo | LogWarning | LogError

text \<open>\<open>command_name\<close> and the usage line built where \<open>ctx.command\<close> is set.\<close>

definition command_name_of :: "invocation \<Rightarrow> string" where
  "command_name_of ctx =
     (case ctx_command ctx of Some c \<Rightarrow> qualified_name c | None \<Rightarrow> invoked_with ctx)"

definition usage_of :: "invocation \<Rightarrow> string option" where
  "usage_of ctx =
     (case ctx_command ctx of
        None \<Rightarrow> None
      | Some c \<Rightarrow> Some (str_strip (clean_prefix ctx @ qualified_name c @ '' '' @ signature c)))"

text \<open>The branches of \<open>on_command_error\<close> after its two early returns.\<close>

fun handle_error :: "invocation \<Rightarrow> command_error \<Rightarrow> handler_reply list \<times> log_level list" where
  "handle_error ctx CommandNotFound = ([], [LogInfo])"
| "handle_error ctx NotOwner = ([], [LogWarning])"
| "handle_error ctx DisabledCommand = ([CommandDisabledReply (command_name_of ctx)], [LogWarning])"
| "handle_error ctx CommandOnCooldown = ([CooldownReply], [LogInfo])"
| "handle_error ctx MaxConcurrencyReached =
     ([MaxConcurrencyReply (command_name_of ctx)], [LogWarning])"
| "handle_error ctx (MissingRequiredArgument param_name) =
     ([MissingArgumentReply param_name (usage_of ctx)], [LogWarning])"
| "handle_error ctx (MemberNotFound a) = ([ConversionErrorReply ''member'' a], [LogWarning])"
| "handle_error ctx (UserNotFound a) = ([ConversionErrorReply ''user'' a], [LogWarning])"
| "handle_error ctx (ChannelNotFound a) = ([ConversionErrorReply ''channel'' a], [LogWarning])"
| "handle_error ctx (RoleNotFound a) = ([ConversionErrorReply ''role'' a], [LogWarning])"
| "handle_error ctx (EmojiNotFound a) = ([ConversionErrorReply ''emoji'' a], [LogWarning])"
| "handle_error ctx (MessageNotFound a) = ([ConversionErrorReply ''message'' a], [LogWarning])"
| "handle_error ctx (BadUnionArgument param_name) =
     ([BadUnionReply param_name (usage_of ctx)], [LogWarning])"
| "handle_error ctx BadArgument = ([InvalidArgumentReply (usage_of ctx)], [LogWarning])"
| "handle_error ctx UserInputError = ([InvalidArgumentReply (usage_of ctx)], [LogWarning])"
| "handle_error ctx NoPrivateMessage = ([ServerOnlyReply (command_name_of ctx)], [LogWarning])"
| "handle_error ctx (MissingPermissions ps) = ([MissingPermissionsReply ps], [LogWarning])"
| "handle_error ctx (BotMissingPermissions ps) =
     ([BotMissingPermissionsReply ps (command_name_of ctx)], [LogError])"
| "handle_error ctx MissingRole = ([MissingRoleReply], [LogWarning])"
| "handle_error ctx MissingAnyRole = ([MissingRoleReply], [LogWarning])"
| "handle_error ctx BotMissingRole = ([BotMissingRoleReply (command_name_of ctx)], [LogError])"
| "handle_error ctx BotMissingAnyRole = ([BotMissingRoleReply (command_name_of ctx)], [LogError])"
| "handle_error ctx NSFWChannelRequired = ([NsfwRequiredReply (command_name_of ctx)], [LogWarning])"
| "handle_error ctx CheckFailure = ([CheckFailedReply], [LogWarning])"
| "handle_error ctx UnclassifiedError = ([UnexpectedErrorReply], [LogError])"

text \<open>
  \<open>on_command_error\<close>: nothing is done for a command with a local \<open>on_error\<close> handler or
  of a cog that overrides \<open>cog_command_error\<close>; otherwise the branch of the error class.
\<close>

definition on_command_error ::
  "invocation \<Rightarrow> command_error \<Rightarrow> handler_reply list \<times> log_level list" where
  "on_command_error ctx err =
     (if (case ctx_command ctx of None \<Rightarrow> False | Some c \<Rightarrow> has_on_error c) then ([], [])
      else if (case ctx_cog ctx of None \<Rightarrow> False | Some cog \<Rightarrow> overrides_cog_command_error cog)
        then ([], [])
      else handle_error ctx err)"

text \<open>
  The commands \<open>play\<close> of the Music cog (cogs/music.py, which defines
  \<open>cog_command_error\<close>) and \<open>warn\<close> of the Moderation cog (which does not), as the
  handler sees them when the required argument is missing.
\<close>

definition music_cog :: cog_info where
  "music_cog = \<lparr>cog_name = ''Music'', overrides_cog_command_error = True\<rparr>"

definition moderation_cog :: cog_info where
  "moderation_cog = \<lparr>cog_name = ''Moderation'', overrides_cog_command_error = False\<rparr>"

definition play_command :: command_info where
  "play_command = \<lparr>qualified_name = ''play'', signature = ''<query>'',
     has_on_error = False, command_cog = Some music_cog\<rparr>"

definition warn_command :: command_info where
  "warn_command = \<lparr>qualified_name = ''warn'', signature = ''<member> <reason>'',
     has_on_error = False, command_cog = Some moderation_cog\<rparr>"

section \<open>cogs/eng.py: the AI-backed commands\<close>

text \<open>
  \<open>GEMINI_API_KEY\<close> comes from utils/config.py, which is not among the sources: it is a
  parameter here, \<open>None\<close> or a string. \<open>key_missing\<close> is Python's \<open>not GEMINI_API_KEY\<close>.
\<close>

definition key_missing :: "string option \<Rightarrow> bool" where
  "key_missing k = (k = None \<or> k = Some [])"

datatype ai_model = Gemini_1_5_flash

text \<open>
  \<open>_initialize_model\<close>: \<open>load_fails\<close> is the \<open>except Exception\<close> branch around the
  constructor of the model.
\<close>

definition initialize_model :: "string option \<Rightarrow> bool \<Rightarrow> ai_model option" where
  "initialize_model key load_fails =
     (if key_missing key then None
      else if load_fails then None
      else Some Gemini_1_5_flash)"

record english_cog =
  cog_model :: "ai_model option"
  cog_db :: vocab_db

definition EnglishLearning_init :: "string option \<Rightarrow> bool \<Rightarrow> vocab_db \<Rightarrow> english_cog" where
  "EnglishLearning_init key load_fails db =
     \<lparr>cog_model = initialize_model key load_fails, cog_db = db\<rparr>"

text \<open>
  The prompt templates of utils/prompts.py are not among the sources; a prompt is the
  template together with the text formatted into it.
\<close>

datatype prompt =
    CheckGrammarPrompt string
  | DailyWordExamplePrompt string
  | TranslatePrompt string

text \<open>
  \<open>_call_ai\<close>: the answer of the endpoint is the parameter \<open>response\<close>, \<open>None\<close> when the
  request raised. The result is the stripped text, together with the requests made.
\<close>

definition call_ai ::
  "english_cog \<Rightarrow> prompt \<Rightarrow> string option \<Rightarrow> string option \<times> prompt list" where
  "call_ai cog p response =
     (if cog_model cog = None then (None, [])
      else (case response of
              None \<Rightarrow> (None, [p])
            | Some txt \<Rightarrow> (Some (str_strip txt), [p])))"

datatype eng_reply =
    AiUnavailable
  | AiCommunicationError
  | GrammarResult string string
  | DailyWord string "string option"
  | TranslationError
  | TranslationResult string string

text \<open>
  The decorator \<open>ai_command_check\<close>: without a model the wrapped command is not run and
  the unavailable message is sent.
\<close>

definition ai_command_check ::
  "(english_cog \<Rightarrow> 'a \<Rightarrow> string option \<Rightarrow> eng_reply list \<times> prompt list) \<Rightarrow>
   english_cog \<Rightarrow> 'a \<Rightarrow> string option \<Rightarrow> eng_reply list \<times> prompt list" where
  "ai_command_check func cog arg response =
     (if cog_model cog = None then ([AiUnavailable], [])
      else func cog arg response)"

text \<open>
  The bodies of \<open>eng check\<close>, \<open>eng word\<close> and \<open>eng translate\<close>. The result embeds are
  summarised by the texts they show; the word of \<open>eng word\<close> is the one \<open>random.choice\<close>
  picked; an empty or missing answer is Python's falsy \<open>ai_text\<close>.
\<close>

definition check_grammar ::
  "english_cog \<Rightarrow> string \<Rightarrow> string option \<Rightarrow> eng_reply list \<times> prompt list" where
  "check_grammar cog sentence response =
     (let (ai_text, calls) = call_ai cog (CheckGrammarPrompt sentence) response in
      case ai_text of
        None \<Rightarrow> ([AiCommunicationError], calls)
      | Some t \<Rightarrow> if t = [] then ([AiCommunicationError], calls)
                  else ([GrammarResult sentence t], calls))"

definition daily_word ::
  "english_cog \<Rightarrow> string \<Rightarrow> string option \<Rightarrow> eng_reply list \<times> prompt list" where
  "daily_word cog eng_word response =
     (let (example, calls) = call_ai cog (DailyWordExamplePrompt eng_word) response in
      case example of
        None \<Rightarrow> ([DailyWord eng_word None], calls)
      | Some t \<Rightarrow> if t = [] then ([DailyWord eng_word None], calls)
                  else ([DailyWord eng_word (Some (filter (\<lambda>c. c \<noteq> CHR ''*'') t))], calls))"

definition translate ::
  "english_cog \<Rightarrow> string \<Rightarrow> string option \<Rightarrow> eng_reply list \<times> prompt list" where
  "translate cog text_to_translate response =
     (let (translated, calls) = call_ai cog (TranslatePrompt text_to_translate) response in
      case translated of
        None \<Rightarrow> ([TranslationError], calls)
      | Some t \<Rightarrow> if t = [] then ([TranslationError], calls)
                  else ([TranslationResult text_to_translate t], calls))"

text \<open>
  \<open>setup\<close> of cogs/eng.py: without a key the cog is not added to the bot. The bot is
  represented by the English cog it has loaded, if any.
\<close>

record bot =
  english_learning :: "english_cog option"

definition eng_setup :: "string option \<Rightarrow> bool \<Rightarrow> vocab_db \<Rightarrow> bot \<Rightarrow> bot" where
  "eng_setup key load_fails db b =
     (if key_missing key then b
      else b\<lparr>english_learning := Some (EnglishLearning_init key load_fails db)\<rparr>)"

datatype eng_invocation =
    InvokeCheck string
  | InvokeWord string
  | InvokeTranslate string

text \<open>
  The dispatch of a message \<open>eng check ...\<close>, \<open>eng word\<close> or \<open>eng translate ...\<close>. The
  dispatch itself is the framework's (nextcord), not code of this repository: a command
  name that no loaded cog registers raises \<open>CommandNotFound\<close>, which is passed to
  \<open>on_command_error\<close> with \<open>ctx.command = None\<close>; a registered command is run through its
  decorator. The result: the replies of the command, the replies of the error handler,
  and the requests made to the AI endpoint.
\<close>

definition dispatch_eng ::
  "bot \<Rightarrow> string \<Rightarrow> eng_invocation \<Rightarrow> string option \<Rightarrow>
   eng_reply list \<times> handler_reply list \<times> prompt list" where
  "dispatch_eng b pfx cmd response =
     (case english_learning b of
        None \<Rightarrow>
          ([],
           fst (on_command_error
                  \<lparr>ctx_command = None, invoked_with = ''eng'', clean_prefix = pfx\<rparr>
                  CommandNotFound),
           [])
      | Some cog \<Rightarrow>
          (let (replies, calls) =
             (case cmd of
                InvokeCheck s \<Rightarrow> ai_command_check check_grammar cog s response
              | InvokeWord w \<Rightarrow> ai_command_check daily_word cog w response
              | InvokeTranslate s \<Rightarrow> ai_command_check translate cog s response)
           in (replies, [], calls)))"

definition no_cogs :: bot where
  "no_cogs = \<lparr>english_learning = None\<rparr>"

section \<open>Decimal strings\<close>

text \<open>Python's \<open>str\<close> of a non-negative integer, used by f-strings and \<open>str(...)\<close>.\<close>

definition digit_char :: "nat \<Rightarrow> char" where
  "digit_char d = ''0123456789'' ! d"

function str_nat :: "nat \<Rightarrow> string" where
  "str_nat n = (if n < 10 then [digit_char n] else str_nat (n div 10) @ [digit_char (n mod 10)])"
  by pat_completeness auto
termination
  by (relation "measure id") auto

declare str_nat.simps [simp del]

section \<open>cogs/moderation.py: the case log\<close>

text \<open>
  A row of a guild's table \<open>cases_N\<close>. The column \<open>timestamp\<close>, filled by
  the database clock, is left out. A table is its rows in insertion order together with
  the counter SQLite keeps for an \<open>AUTOINCREMENT\<close> key (the largest id ever given out);
  the cog never deletes a row and never inserts an explicit id.
\<close>

record case_row =
  case_id :: nat
  case_user :: user_id
  case_moderator :: user_id
  case_action :: string
  case_reason :: "string option"
  case_duration :: "string option"

record cases_table =
  table_rows :: "case_row list"
  table_seq :: nat

text \<open>
  The database file: per guild the cases table and the one-row table of the mod-log
  channel, each absent until created.
\<close>

record mod_db =
  cases_tables :: "guild_id \<rightharpoonup> cases_table"
  modlog_tables :: "guild_id \<rightharpoonup> nat option"

text \<open>
  The exceptions that leave a function of the cog. The logger of the repository,
  \<open>LazyLogger\<close> of \<open>utils/katlog.py\<close>, declares \<open>error(self, message)\<close>; the handlers of
  the cog that call \<open>logger.error(..., exc_info=True)\<close> therefore raise \<open>TypeError\<close>
  themselves, and that exception leaves the handler and the function. \<open>PlatformError\<close>
  is an exception of a platform call that no handler catches.
\<close>

datatype mod_exception = LoggerTypeError | PlatformError

text \<open>
  \<open>db_down\<close> stands for the database being unavailable while a command runs: every access
  raises and takes the \<open>except\<close> branch of the function that makes it. The two
  \<open>CREATE TABLE IF NOT EXISTS\<close> statements are \<open>create_tables\<close>; in
  \<open>_ensure_guild_tables_exist\<close> the handler logs with \<open>exc_info=True\<close>.
\<close>

definition create_tables :: "guild_id \<Rightarrow> mod_db \<Rightarrow> mod_db" where
  "create_tables gid d =
     d\<lparr>cases_tables :=
         (case cases_tables d gid of
            None \<Rightarrow> (cases_tables d)(gid \<mapsto> \<lparr>table_rows = [], table_seq = 0\<rparr>)
          | Some t \<Rightarrow> cases_tables d),
       modlog_tables :=
         (case modlog_tables d gid of
            None \<Rightarrow> (modlog_tables d)(gid \<mapsto> None)
          | Some m \<Rightarrow> modlog_tables d)\<rparr>"

definition ensure_guild_tables_exist ::
  "bool \<Rightarrow> guild_id \<Rightarrow> mod_db \<Rightarrow> mod_exception option \<times> mod_db" where
  "ensure_guild_tables_exist db_down gid d =
     (if db_down then (Some LoggerTypeError, d) else (None, create_tables gid d))"

text \<open>
  \<open>create_case\<close> and \<open>get_case\<close> ensure the tables first, outside their own \<open>try\<close>. Their
  own handlers log with \<open>exc_info=True\<close> as well, so that the \<open>return None\<close> after the
  logging is never reached: a failing access raises.
\<close>

definition create_case ::
  "bool \<Rightarrow> guild_id \<Rightarrow> user_id \<Rightarrow> user_id \<Rightarrow> string \<Rightarrow> string option \<Rightarrow> string option \<Rightarrow>
   mod_db \<Rightarrow> (mod_exception + nat option) \<times> mod_db" where
  "create_case db_down gid uid moderator act reason duration d =
     (case ensure_guild_tables_exist db_down gid d of
        (Some exn, d1) \<Rightarrow> (Inl exn, d1)
      | (None, d1) \<Rightarrow>
          (case cases_tables d1 gid of
             None \<Rightarrow> (Inl LoggerTypeError, d1)
           | Some t \<Rightarrow>
               (let new_id = Suc (table_seq t);
                    row = \<lparr>case_id = new_id, case_user = uid, case_moderator = moderator,
                           case_action = act, case_reason = reason, case_duration = duration\<rparr>
                in (Inr (Some new_id),
                    d1\<lparr>cases_tables :=
                         (cases_tables d1)(gid \<mapsto>
                            \<lparr>table_rows = table_rows t @ [row], table_seq = new_id\<rparr>)\<rparr>))))"

definition get_case ::
  "bool \<Rightarrow> guild_id \<Rightarrow> nat \<Rightarrow> mod_db \<Rightarrow> (mod_exception + case_row option) \<times> mod_db" where
  "get_case db_down gid cid d =
     (case ensure_guild_tables_exist db_down gid d of
        (Some exn, d1) \<Rightarrow> (Inl exn, d1)
      | (None, d1) \<Rightarrow>
          (case cases_tables d1 gid of
             None \<Rightarrow> (Inl LoggerTypeError, d1)
           | Some t \<Rightarrow> (Inr (find (\<lambda>r. case_id r = cid) (table_rows t)), d1)))"

text \<open>The rows stored for a guild; none while its table does not exist.\<close>

definition stored_cases :: "mod_db \<Rightarrow> guild_id \<Rightarrow> case_row list" where
  "stored_cases d gid = (case cases_tables d gid of None \<Rightarrow> [] | Some t \<Rightarrow> table_rows t)"

text \<open>
  A table as the cog builds it from its creation: the ids are 1, 2, ... in insertion
  order and the counter is the number of rows.
\<close>

definition table_ok :: "cases_table \<Rightarrow> bool" where
  "table_ok t \<longleftrightarrow>
     map case_id (table_rows t) = [1 ..< Suc (length (table_rows t))]
     \<and> table_seq t = length (table_rows t)"

definition db_ok :: "mod_db \<Rightarrow> bool" where
  "db_ok d \<longleftrightarrow> (\<forall>gid t. cases_tables d gid = Some t \<longrightarrow> table_ok t)"

section \<open>cogs/moderation.py: the commands\<close>

text \<open>
  What a command reads of a member or user: the id, whether the object is a guild
  \<open>Member\<close>, the position of \<open>top_role\<close> (none when there is no role object), and
  \<open>timed_out_until\<close> as a timestamp.
\<close>

record person =
  p_id :: user_id
  p_is_member :: bool
  p_top_role :: "nat option"
  p_timed_out_until :: "rat option"

record mod_ctx =
  c_guild :: guild_id
  c_author :: person
  c_me :: person
  c_owner_id :: user_id
  c_bot_id :: user_id

text \<open>The state of the platform and of the database that the commands change.\<close>

record world =
  w_db :: mod_db
  w_members :: "(guild_id \<times> user_id) set"
  w_bans :: "(guild_id \<times> user_id) set"
  w_timeouts :: "guild_id \<times> user_id \<rightharpoonup> rat"

datatype emoji = CheckMark | CrossMark | OtherEmoji string

record reaction_event =
  r_user :: user_id
  r_message :: nat
  r_emoji :: emoji

datatype api_result = ApiOk | ApiForbidden | ApiHTTPException | ApiOtherError

text \<open>
  Sending the confirmation prompt: sent with both reactions added (the message id), sent
  but adding a reaction raised \<open>HTTPException\<close>, or not sent.
\<close>

datatype prompt_outcome = PromptSent nat | PromptReactFailed nat | PromptSendFailed

text \<open>
  The direct message to the target: sent, refused with \<open>Forbidden\<close>, or failed with
  another exception. The mod-log channel: written, not usable (not found, no text
  channel, or permissions missing), or \<open>channel.send\<close> raised.
\<close>

datatype dm_result = DmSent | DmForbidden | DmOtherError

datatype modlog_result = ModlogSent | ModlogNotUsable | ModlogSendRaises

text \<open>
  What the environment does while one command runs: the database, the prompt, the
  \<open>reaction_add\<close> events that arrive within the timeout window (in order of arrival),
  whether waiting raised another exception, whether \<open>Message.edit\<close> of the prompt
  raises, the direct message, the result of the moderation call and of \<open>fetch_ban\<close>,
  the mod-log channel, and the clock.
\<close>

record mod_env =
  e_db_down :: bool
  e_prompt :: prompt_outcome
  e_reactions :: "reaction_event list"
  e_wait_raises :: bool
  e_edit_raises :: bool
  e_dm :: dm_result
  e_api :: api_result
  e_fetch :: api_result
  e_modlog :: modlog_result
  e_now :: rat

datatype feedback =
    CannotTargetSelf
  | CannotTargetBot
  | NoMemberData
  | CannotVerifyRoles
  | NoRoleHierarchy
  | RoleTooHighForAuthor
  | RoleTooHighForBot
  | PromptNotSent
  | ActionCancelled
  | CaseNotCreated
  | MissingPermission
  | ApiError
  | InternalError
  | ActionSuccessful
  | NotBanned
  | CannotCheckBans
  | NotTimedOut
  | InvalidDurationFormat
  | InvalidDuration
  | DurationOverflow
  | ReasonRequired
  | CannotVerifyModerator

text \<open>
  What a command does towards the platform, in order. Each item but the last kind is a
  call the command makes: \<open>ctx.send\<close> of a feedback embed, the confirmation prompt, an
  edit of the prompt (to "confirmed, processing" or to "cancelled"), its deletion, the
  direct message to the target, the entry in the mod-log channel. \<open>Raised\<close> is always the
  last item: an exception left the command there, after the call before it if that
  call is what raised. The sends of feedback embeds and the deletion of the prompt are
  taken to return; nothing but further such calls follows them in any command.
\<close>

datatype mod_output =
    Feedback feedback
  | PromptShown nat
  | PromptProcessing nat
  | PromptCancelled nat
  | PromptDeleted nat
  | DirectMessage user_id string
  | ModLogEntry nat
  | Raised mod_exception

definition raised :: "mod_output list \<Rightarrow> bool" where
  "raised out = (case rev out of Raised exn # earlier \<Rightarrow> True | _ \<Rightarrow> False)"

text \<open>
  \<open>_prompt_confirmation\<close>. \<open>bot.wait_for\<close> returns the first event that satisfies \<open>check\<close>,
  and raises \<open>TimeoutError\<close> when none arrives in the window. The handler of any other
  exception of the wait logs with \<open>exc_info=True\<close>; the handler of the prompt that could
  not be sent logs the message only.
\<close>

definition reaction_check :: "mod_ctx \<Rightarrow> nat \<Rightarrow> reaction_event \<Rightarrow> bool" where
  "reaction_check ctx mid r \<longleftrightarrow>
     r_user r = p_id (c_author ctx) \<and> r_message r = mid
     \<and> (r_emoji r = CheckMark \<or> r_emoji r = CrossMark)"

definition prompt_confirmation ::
  "mod_ctx \<Rightarrow> mod_env \<Rightarrow> (mod_exception + bool \<times> nat option) \<times> mod_output list" where
  "prompt_confirmation ctx env =
     (case e_prompt env of
        PromptSendFailed \<Rightarrow> (Inr (False, None), [Feedback PromptNotSent])
      | PromptReactFailed mid \<Rightarrow>
          (Inr (False, Some mid), [PromptShown mid, Feedback PromptNotSent])
      | PromptSent mid \<Rightarrow>
          if e_wait_raises env then (Inl LoggerTypeError, [PromptShown mid])
          else
            (case find (reaction_check ctx mid) (e_reactions env) of
               None \<Rightarrow> (Inr (False, Some mid), [PromptShown mid])
             | Some r \<Rightarrow> (Inr (r_emoji r = CheckMark, Some mid), [PromptShown mid])))"

text \<open>
  \<open>send_mod_log\<close>: the tables are ensured inside a \<open>try\<close> whose handler logs the message
  only and returns; then the embed goes to the stored channel, inside a \<open>try\<close> whose
  handler logs with \<open>exc_info=True\<close>.
\<close>

definition send_mod_log :: "mod_env \<Rightarrow> guild_id \<Rightarrow> nat \<Rightarrow> mod_db \<Rightarrow> mod_output list \<times> mod_db" where
  "send_mod_log env gid cid d =
     (case ensure_guild_tables_exist (e_db_down env) gid d of
        (Some exn, d1) \<Rightarrow> ([], d1)
      | (None, d1) \<Rightarrow>
          (case modlog_tables d1 gid of
             Some (Some ch) \<Rightarrow>
               (case e_modlog env of
                  ModlogSent \<Rightarrow> ([ModLogEntry cid], d1)
                | ModlogNotUsable \<Rightarrow> ([], d1)
                | ModlogSendRaises \<Rightarrow> ([ModLogEntry cid, Raised LoggerTypeError], d1))
           | Some None \<Rightarrow> ([], d1)
           | None \<Rightarrow> ([], d1)))"

text \<open>
  The tail that the six commands share once their checks have passed (the source writes
  it out in each command): create the case; give up when that returns nothing; notify
  the target, where the handler of an exception other than \<open>Forbidden\<close> logs with
  \<open>exc_info=True\<close>; make the platform call, if the command has one; write the mod log;
  report success. Of the three handlers of the platform call, the one of \<open>Forbidden\<close>
  sends feedback; the one of \<open>HTTPException\<close> sends feedback in \<open>kick\<close>, \<open>ban\<close> and
  \<open>timeout\<close> and logs with \<open>exc_info=True\<close> first in \<open>unban\<close> and \<open>untimeout\<close>
  (\<open>http_logged\<close>); the one of any other exception logs with \<open>exc_info=True\<close> first in
  every command. \<open>cleanup\<close> is the deletion of the confirmation prompt in \<open>kick\<close> and
  \<open>ban\<close>, and empty elsewhere. \<open>effect\<close> is what the platform call does to the platform's
  state, \<open>None\<close> for \<open>warn\<close>, which makes no call.
\<close>

definition record_and_apply ::
  "mod_env \<Rightarrow> guild_id \<Rightarrow> user_id \<Rightarrow> user_id \<Rightarrow> string \<Rightarrow> string option \<Rightarrow> string option \<Rightarrow>
   string \<Rightarrow> (world \<Rightarrow> world) option \<Rightarrow> bool \<Rightarrow> mod_output list \<Rightarrow> world \<Rightarrow>
   mod_output list \<times> world" where
  "record_and_apply env gid target moderator act reason duration dm_title effect http_logged
     cleanup w =
     (let (cid, d1) = create_case (e_db_down env) gid target moderator act reason duration (w_db w);
          w1 = w\<lparr>w_db := d1\<rparr>
      in case cid of
           Inl exn \<Rightarrow> ([Raised exn], w1)
         | Inr None \<Rightarrow> ([Feedback CaseNotCreated] @ cleanup, w1)
         | Inr (Some i) \<Rightarrow>
             if e_dm env = DmOtherError
               then ([DirectMessage target dm_title, Raised LoggerTypeError], w1)
             else
               (case (if effect = None then ApiOk else e_api env) of
                  ApiForbidden \<Rightarrow>
                    ([DirectMessage target dm_title, Feedback MissingPermission] @ cleanup, w1)
                | ApiHTTPException \<Rightarrow>
                    if http_logged
                      then ([DirectMessage target dm_title, Raised LoggerTypeError], w1)
                    else ([DirectMessage target dm_title, Feedback ApiError] @ cleanup, w1)
                | ApiOtherError \<Rightarrow>
                    ([DirectMessage target dm_title, Raised LoggerTypeError], w1)
                | ApiOk \<Rightarrow>
                    (let w2 = (case effect of None \<Rightarrow> w1 | Some f \<Rightarrow> f w1);
                         (logged, d2) = send_mod_log env gid i (w_db w2)
                     in ([DirectMessage target dm_title] @ logged
                           @ (if raised logged then [] else [Feedback ActionSuccessful]),
                         w2\<lparr>w_db := d2\<rparr>))))"

text \<open>The role hierarchy test of \<open>kick\<close>, \<open>ban\<close> and \<open>timeout\<close>.\<close>

definition hierarchy_check :: "mod_ctx \<Rightarrow> person \<Rightarrow> feedback option" where
  "hierarchy_check ctx member =
     (case (p_top_role member, p_top_role (c_author ctx), p_top_role (c_me ctx)) of
        (Some member_pos, Some author_pos, Some me_pos) \<Rightarrow>
          if member_pos \<ge> author_pos \<and> p_id (c_author ctx) \<noteq> c_owner_id ctx
            then Some RoleTooHighForAuthor
          else if member_pos \<ge> me_pos then Some RoleTooHighForBot
          else None
      | _ \<Rightarrow> Some NoRoleHierarchy)"

text \<open>The checks of \<open>kick\<close> before the confirmation prompt, in the order of the source.\<close>

definition kick_checks :: "mod_ctx \<Rightarrow> person \<Rightarrow> feedback option" where
  "kick_checks ctx member =
     (if p_id member = p_id (c_author ctx) then Some CannotTargetSelf
      else if p_id member = c_bot_id ctx then Some CannotTargetBot
      else if \<not> p_is_member member then Some NoMemberData
      else if \<not> p_is_member (c_author ctx) \<or> \<not> p_is_member (c_me ctx)
        then Some CannotVerifyRoles
      else hierarchy_check ctx member)"

definition remove_member :: "guild_id \<Rightarrow> user_id \<Rightarrow> world \<Rightarrow> world" where
  "remove_member gid uid w = w\<lparr>w_members := w_members w - {(gid, uid)}\<rparr>"

definition ban_user :: "guild_id \<Rightarrow> user_id \<Rightarrow> world \<Rightarrow> world" where
  "ban_user gid uid w =
     w\<lparr>w_members := w_members w - {(gid, uid)}, w_bans := insert (gid, uid) (w_bans w)\<rparr>"

definition unban_user :: "guild_id \<Rightarrow> user_id \<Rightarrow> world \<Rightarrow> world" where
  "unban_user gid uid w = w\<lparr>w_bans := w_bans w - {(gid, uid)}\<rparr>"

definition set_timeout :: "guild_id \<Rightarrow> user_id \<Rightarrow> rat option \<Rightarrow> world \<Rightarrow> world" where
  "set_timeout gid uid until w = w\<lparr>w_timeouts := (w_timeouts w)((gid, uid) := until)\<rparr>"

text \<open>
  The part of \<open>kick\<close> and \<open>ban\<close> between the checks and the shared tail: the prompt, the
  clearing of its reactions (its platform exceptions are caught and ignored), the
  cancellation when the prompt was not confirmed, and the edit of the prompt to
  "confirmed, processing". Both edits of the prompt are outside any \<open>try\<close>: when
  \<open>Message.edit\<close> raises, the exception leaves the command, in the confirmed case before
  \<open>create_case\<close> is called.
\<close>

definition edit_prompt :: "mod_env \<Rightarrow> mod_output \<Rightarrow> mod_output list" where
  "edit_prompt env edit = (if e_edit_raises env then [edit, Raised PlatformError] else [edit])"

definition confirmed_then ::
  "mod_ctx \<Rightarrow> mod_env \<Rightarrow> (mod_output list \<Rightarrow> world \<Rightarrow> mod_output list \<times> world) \<Rightarrow>
   world \<Rightarrow> mod_output list \<times> world" where
  "confirmed_then ctx env continue w =
     (case prompt_confirmation ctx env of
        (Inl exn, shown) \<Rightarrow> (shown @ [Raised exn], w)
      | (Inr (confirmed, confirm_msg), shown) \<Rightarrow>
          if \<not> confirmed then
            (shown @ (case confirm_msg of
                        Some mid \<Rightarrow> edit_prompt env (PromptCancelled mid)
                      | None \<Rightarrow> [Feedback ActionCancelled]), w)
          else
            (case confirm_msg of
               Some mid \<Rightarrow>
                 if e_edit_raises env
                   then (shown @ edit_prompt env (PromptProcessing mid), w)
                 else
                   (let (out, w') = continue [PromptDeleted mid] w
                    in (shown @ edit_prompt env (PromptProcessing mid) @ out, w'))
             | None \<Rightarrow>
                 (let (out, w') = continue [] w in (shown @ out, w'))))"

definition kick ::
  "mod_ctx \<Rightarrow> person \<Rightarrow> string option \<Rightarrow> mod_env \<Rightarrow> world \<Rightarrow> mod_output list \<times> world" where
  "kick ctx member reason env w =
     (case ensure_guild_tables_exist (e_db_down env) (c_guild ctx) (w_db w) of
        (Some exn, d1) \<Rightarrow> ([Raised exn], w\<lparr>w_db := d1\<rparr>)
      | (None, d1) \<Rightarrow>
          (case kick_checks ctx member of
             Some fb \<Rightarrow> ([Feedback fb], w\<lparr>w_db := d1\<rparr>)
           | None \<Rightarrow>
               confirmed_then ctx env
                 (\<lambda>cleanup. record_and_apply env (c_guild ctx) (p_id member)
                    (p_id (c_author ctx)) ''kick'' reason None ''kicked''
                    (Some (remove_member (c_guild ctx) (p_id member))) False cleanup)
                 (w\<lparr>w_db := d1\<rparr>)))"

text \<open>
  \<open>ban\<close>: the target is a user; \<open>guild_member\<close> is \<open>ctx.guild.get_member(user.id)\<close>, and the
  hierarchy is tested only when it is a member.
\<close>

definition ban_checks :: "mod_ctx \<Rightarrow> person \<Rightarrow> person option \<Rightarrow> feedback option" where
  "ban_checks ctx user guild_member =
     (if p_id user = p_id (c_author ctx) then Some CannotTargetSelf
      else if p_id user = c_bot_id ctx then Some CannotTargetBot
      else if \<not> p_is_member (c_author ctx) \<or> \<not> p_is_member (c_me ctx)
        then Some CannotVerifyRoles
      else
        (case guild_member of
           None \<Rightarrow> None
         | Some m \<Rightarrow> if p_is_member m then hierarchy_check ctx m else None))"

definition ban ::
  "mod_ctx \<Rightarrow> person \<Rightarrow> person option \<Rightarrow> string option \<Rightarrow> mod_env \<Rightarrow> world \<Rightarrow>
   mod_output list \<times> world" where
  "ban ctx user guild_member reason env w =
     (case ensure_guild_tables_exist (e_db_down env) (c_guild ctx) (w_db w) of
        (Some exn, d1) \<Rightarrow> ([Raised exn], w\<lparr>w_db := d1\<rparr>)
      | (None, d1) \<Rightarrow>
          (case ban_checks ctx user guild_member of
             Some fb \<Rightarrow> ([Feedback fb], w\<lparr>w_db := d1\<rparr>)
           | None \<Rightarrow>
               confirmed_then ctx env
                 (\<lambda>cleanup. record_and_apply env (c_guild ctx) (p_id user)
                    (p_id (c_author ctx)) ''ban'' reason None ''banned''
                    (Some (ban_user (c_guild ctx) (p_id user))) False cleanup)
                 (w\<lparr>w_db := d1\<rparr>)))"

text \<open>\<open>if not reason: reason = "No reason provided."\<close> of \<open>unban\<close> and \<open>untimeout\<close>.\<close>

definition reason_or_default :: "string option \<Rightarrow> string option" where
  "reason_or_default reason =
     (case reason of
        None \<Rightarrow> Some ''No reason provided.''
      | Some r \<Rightarrow> if r = [] then Some ''No reason provided.'' else Some r)"

text \<open>
  \<open>unban\<close>: \<open>fetch_ban\<close> raises \<open>NotFound\<close> when the user is not banned, or fails with one
  of the other exception classes; the handlers of \<open>HTTPException\<close> and of any other
  exception log with \<open>exc_info=True\<close> before they would send feedback.
\<close>

definition unban_checks ::
  "mod_ctx \<Rightarrow> person \<Rightarrow> mod_env \<Rightarrow> world \<Rightarrow> mod_exception + feedback option" where
  "unban_checks ctx user env w =
     (case e_fetch env of
        ApiForbidden \<Rightarrow> Inr (Some CannotCheckBans)
      | ApiHTTPException \<Rightarrow> Inl LoggerTypeError
      | ApiOtherError \<Rightarrow> Inl LoggerTypeError
      | ApiOk \<Rightarrow>
          if (c_guild ctx, p_id user) \<in> w_bans w then Inr None else Inr (Some NotBanned))"

definition unban ::
  "mod_ctx \<Rightarrow> person \<Rightarrow> string option \<Rightarrow> mod_env \<Rightarrow> world \<Rightarrow> mod_output list \<times> world" where
  "unban ctx user reason env w =
     (case ensure_guild_tables_exist (e_db_down env) (c_guild ctx) (w_db w) of
        (Some exn, d1) \<Rightarrow> ([Raised exn], w\<lparr>w_db := d1\<rparr>)
      | (None, d1) \<Rightarrow>
          (case unban_checks ctx user env (w\<lparr>w_db := d1\<rparr>) of
             Inl exn \<Rightarrow> ([Raised exn], w\<lparr>w_db := d1\<rparr>)
           | Inr (Some fb) \<Rightarrow> ([Feedback fb], w\<lparr>w_db := d1\<rparr>)
           | Inr None \<Rightarrow>
               record_and_apply env (c_guild ctx) (p_id user) (p_id (c_author ctx))
                 ''unban'' (reason_or_default reason) None ''unbanned''
                 (Some (unban_user (c_guild ctx) (p_id user))) True [] (w\<lparr>w_db := d1\<rparr>)))"

text \<open>\<open>untimeout\<close>: the hierarchy test is skipped when the author or the bot is no member.\<close>

definition untimeout_checks :: "mod_ctx \<Rightarrow> person \<Rightarrow> mod_env \<Rightarrow> feedback option" where
  "untimeout_checks ctx member env =
     (if (case p_timed_out_until member of None \<Rightarrow> True | Some t \<Rightarrow> t < e_now env)
        then Some NotTimedOut
      else if p_is_member (c_author ctx) \<and> p_is_member (c_me ctx)
              \<and> (case (p_top_role member, p_top_role (c_author ctx)) of
                    (Some member_pos, Some author_pos) \<Rightarrow>
                       member_pos \<ge> author_pos \<and> p_id (c_author ctx) \<noteq> c_owner_id ctx
                  | _ \<Rightarrow> False)
        then Some RoleTooHighForAuthor
      else None)"

definition untimeout ::
  "mod_ctx \<Rightarrow> person \<Rightarrow> string option \<Rightarrow> mod_env \<Rightarrow> world \<Rightarrow> mod_output list \<times> world" where
  "untimeout ctx member reason env w =
     (case ensure_guild_tables_exist (e_db_down env) (c_guild ctx) (w_db w) of
        (Some exn, d1) \<Rightarrow> ([Raised exn], w\<lparr>w_db := d1\<rparr>)
      | (None, d1) \<Rightarrow>
          (case untimeout_checks ctx member env of
             Some fb \<Rightarrow> ([Feedback fb], w\<lparr>w_db := d1\<rparr>)
           | None \<Rightarrow>
               record_and_apply env (c_guild ctx) (p_id member) (p_id (c_author ctx))
                 ''untimeout'' (reason_or_default reason) None ''timeout removed''
                 (Some (set_timeout (c_guild ctx) (p_id member) None)) True []
                 (w\<lparr>w_db := d1\<rparr>)))"

text \<open>\<open>format_duration\<close> of the cog: days, hours, minutes and seconds of a duration.\<close>

definition format_duration :: "rat \<Rightarrow> string" where
  "format_duration total_seconds =
     (if total_seconds \<le> 0 then ''0s''
      else
        (let secs = nat \<lfloor>total_seconds\<rfloor>;
             days = secs div 86400; rem1 = secs mod 86400;
             hours = rem1 div 3600; rem2 = rem1 mod 3600;
             mins = rem2 div 60; secs_final = rem2 mod 60;
             parts = (if days \<noteq> 0 then [str_nat days @ ''d''] else [])
                   @ (if hours \<noteq> 0 then [str_nat hours @ ''h''] else [])
                   @ (if mins \<noteq> 0 then [str_nat mins @ ''m''] else []);
             parts' = (if secs_final \<noteq> 0 \<or> parts = []
                       then parts @ [str_nat secs_final @ ''s''] else parts)
         in if parts' = [] then ''0s''
            else foldl (\<lambda>acc x. acc @ '' '' @ x) (hd parts') (tl parts')))"

text \<open>
  \<open>timeout\<close>. The parser of durations (the library \<open>pytimeparse\<close>) is the parameter
  \<open>parse\<close>, giving the seconds or nothing. The largest duration is 28 days. Adding the
  duration to the clock raises \<open>OverflowError\<close> past the last representable instant (the
  end of the year 9999).
\<close>

definition max_timeout_seconds :: rat where
  "max_timeout_seconds = 28 * 24 * 60 * 60"

definition datetime_end :: rat where
  "datetime_end = 253402300800"

definition timeout_checks :: "mod_ctx \<Rightarrow> person \<Rightarrow> feedback option" where
  "timeout_checks ctx member =
     (if p_id member = p_id (c_author ctx) then Some CannotTargetSelf
      else if p_id member = c_bot_id ctx then Some CannotTargetBot
      else if \<not> p_is_member member then Some NoMemberData
      else if p_is_member (c_author ctx) \<and> p_is_member (c_me ctx)
        then hierarchy_check ctx member
      else Some CannotVerifyRoles)"

definition timeout ::
  "(string \<Rightarrow> rat option) \<Rightarrow> mod_ctx \<Rightarrow> person \<Rightarrow> string \<Rightarrow> string option \<Rightarrow> mod_env \<Rightarrow> world \<Rightarrow>
   mod_output list \<times> world" where
  "timeout parse ctx member duration reason env w =
     (case ensure_guild_tables_exist (e_db_down env) (c_guild ctx) (w_db w) of
        (Some exn, d1) \<Rightarrow> ([Raised exn], w\<lparr>w_db := d1\<rparr>)
      | (None, d1) \<Rightarrow>
          (case timeout_checks ctx member of
             Some fb \<Rightarrow> ([Feedback fb], w\<lparr>w_db := d1\<rparr>)
           | None \<Rightarrow>
               (case parse duration of
                  None \<Rightarrow> ([Feedback InvalidDurationFormat], w\<lparr>w_db := d1\<rparr>)
                | Some seconds \<Rightarrow>
                    if \<not> (0 < seconds \<and> seconds \<le> max_timeout_seconds)
                      then ([Feedback InvalidDuration], w\<lparr>w_db := d1\<rparr>)
                    else if e_now env + seconds \<ge> datetime_end
                      then ([Feedback DurationOverflow], w\<lparr>w_db := d1\<rparr>)
                    else
                      record_and_apply env (c_guild ctx) (p_id member) (p_id (c_author ctx))
                        ''timeout'' reason (Some (format_duration seconds)) ''timed out''
                        (Some (set_timeout (c_guild ctx) (p_id member)
                                 (Some (e_now env + seconds))))
                        False [] (w\<lparr>w_db := d1\<rparr>))))"

text \<open>\<open>warn\<close>: the reason is mandatory, and no platform call is made.\<close>

definition warn_checks :: "mod_ctx \<Rightarrow> person \<Rightarrow> string \<Rightarrow> feedback option" where
  "warn_checks ctx member reason =
     (if reason = [] then Some ReasonRequired
      else if p_id member = p_id (c_author ctx) then Some CannotTargetSelf
      else if p_id member = c_bot_id ctx then Some CannotTargetBot
      else if \<not> p_is_member (c_author ctx) then Some CannotVerifyModerator
      else None)"

definition warn ::
  "mod_ctx \<Rightarrow> person \<Rightarrow> string \<Rightarrow> mod_env \<Rightarrow> world \<Rightarrow> mod_output list \<times> world" where
  "warn ctx member reason env w =
     (case ensure_guild_tables_exist (e_db_down env) (c_guild ctx) (w_db w) of
        (Some exn, d1) \<Rightarrow> ([Raised exn], w\<lparr>w_db := d1\<rparr>)
      | (None, d1) \<Rightarrow>
          (case warn_checks ctx member reason of
             Some fb \<Rightarrow> ([Feedback fb], w\<lparr>w_db := d1\<rparr>)
           | None \<Rightarrow>
               record_and_apply env (c_guild ctx) (p_id member) (p_id (c_author ctx))
                 ''warn'' (Some reason) None ''warned'' None False [] (w\<lparr>w_db := d1\<rparr>)))"

text \<open>
  The confirmation that \<open>kick\<close> and \<open>ban\<close> wait for: the prompt was sent, and the first
  reaction within the window that the invoking user puts on the prompt, of the two
  offered, is the check mark.
\<close>

definition reaction_confirmed :: "mod_ctx \<Rightarrow> mod_env \<Rightarrow> bool" where
  "reaction_confirmed ctx env =
     (case e_prompt env of
        PromptSent mid \<Rightarrow>
          \<not> e_wait_raises env
          \<and> (case find (reaction_check ctx mid) (e_reactions env) of
                Some r \<Rightarrow> r_emoji r = CheckMark
              | None \<Rightarrow> False)
      | PromptReactFailed mid \<Rightarrow> False
      | PromptSendFailed \<Rightarrow> False)"

text \<open>
  One case was recorded between two states of the database: the guild's rows are the old
  rows and one new row, whose id is one more than the number of old rows (and than the
  id of the last old row), which holds the given action, reason and duration, and which
  \<open>get_case\<close> returns for its id.
\<close>

definition case_recorded ::
  "mod_db \<Rightarrow> mod_db \<Rightarrow> guild_id \<Rightarrow> string \<Rightarrow> string option \<Rightarrow> string option \<Rightarrow> bool" where
  "case_recorded d d' gid act reason duration =
     (let old = stored_cases d gid; new = stored_cases d' gid in
      length new = Suc (length old) \<and> take (length old) new = old
      \<and> case_id (last new) = Suc (length old)
      \<and> (old = [] \<or> case_id (last new) = Suc (case_id (last old)))
      \<and> case_action (last new) = act
      \<and> case_reason (last new) = reason
      \<and> case_duration (last new) = duration
      \<and> fst (get_case False gid (case_id (last new)) d') = Inr (Some (last new)))"

text \<open>Effects of the platform calls leave the database alone.\<close>

definition keeps_db :: "(world \<Rightarrow> world) option \<Rightarrow> bool" where
  "keeps_db effect \<longleftrightarrow> (\<forall>f x. effect = Some f \<longrightarrow> w_db (f x) = w_db x)"

text \<open>
  The six moderation actions as invocations, what running one does, whether it passes
  the checks its command makes before the case is created (for \<open>kick\<close> and \<open>ban\<close> the
  confirmation is one of them, for \<open>timeout\<close> the parsed duration), and the action,
  reason and duration its command passes to \<open>create_case\<close>.
\<close>

datatype mod_command =
    Kick person "string option"
  | Ban person "person option" "string option"
  | Unban person "string option"
  | Untimeout person "string option"
  | Timeout person string "string option"
  | Warn person string

fun run_mod_command ::
  "(string \<Rightarrow> rat option) \<Rightarrow> mod_ctx \<Rightarrow> mod_command \<Rightarrow> mod_env \<Rightarrow> world \<Rightarrow>
   mod_output list \<times> world" where
  "run_mod_command parse ctx (Kick member reason) env w = kick ctx member reason env w"
| "run_mod_command parse ctx (Ban user guild_member reason) env w =
     ban ctx user guild_member reason env w"
| "run_mod_command parse ctx (Unban user reason) env w = unban ctx user reason env w"
| "run_mod_command parse ctx (Untimeout member reason) env w = untimeout ctx member reason env w"
| "run_mod_command parse ctx (Timeout member duration reason) env w =
     timeout parse ctx member duration reason env w"
| "run_mod_command parse ctx (Warn member reason) env w = warn ctx member reason env w"

definition valid_duration :: "(string \<Rightarrow> rat option) \<Rightarrow> string \<Rightarrow> bool" where
  "valid_duration parse duration =
     (case parse duration of
        None \<Rightarrow> False
      | Some seconds \<Rightarrow> 0 < seconds \<and> seconds \<le> 2419200)"

fun passes_checks ::
  "(string \<Rightarrow> rat option) \<Rightarrow> mod_ctx \<Rightarrow> mod_command \<Rightarrow> mod_env \<Rightarrow> world \<Rightarrow> bool" where
  "passes_checks parse ctx (Kick member reason) env w =
     (kick_checks ctx member = None \<and> reaction_confirmed ctx env)"
| "passes_checks parse ctx (Ban user guild_member reason) env w =
     (ban_checks ctx user guild_member = None \<and> reaction_confirmed ctx env)"
| "passes_checks parse ctx (Unban user reason) env w = (unban_checks ctx user env w = Inr None)"
| "passes_checks parse ctx (Untimeout member reason) env w =
     (untimeout_checks ctx member env = None)"
| "passes_checks parse ctx (Timeout member duration reason) env w =
     (timeout_checks ctx member = None \<and> valid_duration parse duration
      \<and> e_now env + the (parse duration) < datetime_end)"
| "passes_checks parse ctx (Warn member reason) env w = (warn_checks ctx member reason = None)"

text \<open>
  Between the confirmation and \<open>create_case\<close>, \<open>kick\<close> and \<open>ban\<close> edit the prompt; the other
  commands call the platform only after the case was created (\<open>unban\<close> calls \<open>fetch_ban\<close>
  before, as one of its checks).
\<close>

fun prompt_edited :: "mod_command \<Rightarrow> mod_env \<Rightarrow> bool" where
  "prompt_edited (Kick member reason) env = (\<not> e_edit_raises env)"
| "prompt_edited (Ban user guild_member reason) env = (\<not> e_edit_raises env)"
| "prompt_edited cmd env = True"

fun passed_action :: "mod_command \<Rightarrow> string" where
  "passed_action (Kick member reason) = ''kick''"
| "passed_action (Ban user guild_member reason) = ''ban''"
| "passed_action (Unban user reason) = ''unban''"
| "passed_action (Untimeout member reason) = ''untimeout''"
| "passed_action (Timeout member duration reason) = ''timeout''"
| "passed_action (Warn member reason) = ''warn''"

fun passed_reason :: "mod_command \<Rightarrow> string option" where
  "passed_reason (Kick member reason) = reason"
| "passed_reason (Ban user guild_member reason) = reason"
| "passed_reason (Unban user reason) = reason_or_default reason"
| "passed_reason (Untimeout member reason) = reason_or_default reason"
| "passed_reason (Timeout member duration reason) = reason"
| "passed_reason (Warn member reason) = Some reason"

fun passed_duration :: "(string \<Rightarrow> rat option) \<Rightarrow> mod_command \<Rightarrow> string option" where
  "passed_duration parse (Timeout member duration reason) =
     Some (format_duration (the (parse duration)))"
| "passed_duration parse cmd = None"

text \<open>
  A small scenario for exercising the commands: guild 1 with a fresh database, the
  moderator 10 (role position 5), the member 20 (position 1) and the bot 99 (position 8);
  the prompt is message 500, and the environment is given by the reactions that arrive.
\<close>

definition ex_world :: world where
  "ex_world =
     \<lparr>w_db = \<lparr>cases_tables = Map.empty, modlog_tables = Map.empty\<rparr>,
      w_members = {(1, 10), (1, 20), (1, 99)}, w_bans = {}, w_timeouts = Map.empty\<rparr>"

definition ex_moderator :: person where
  "ex_moderator =
     \<lparr>p_id = 10, p_is_member = True, p_top_role = Some 5, p_timed_out_until = None\<rparr>"

definition ex_member :: person where
  "ex_member =
     \<lparr>p_id = 20, p_is_member = True, p_top_role = Some 1, p_timed_out_until = None\<rparr>"

definition ex_bot :: person where
  "ex_bot = \<lparr>p_id = 99, p_is_member = True, p_top_role = Some 8, p_timed_out_until = None\<rparr>"

definition ex_ctx :: mod_ctx where
  "ex_ctx =
     \<lparr>c_guild = 1, c_author = ex_moderator, c_me = ex_bot, c_owner_id = 11, c_bot_id = 99\<rparr>"

definition ex_env :: "reaction_event list \<Rightarrow> mod_env" where
  "ex_env rs =
     \<lparr>e_db_down = False, e_prompt = PromptSent 500, e_reactions = rs, e_wait_raises = False,
      e_edit_raises = False, e_dm = DmSent, e_api = ApiOk, e_fetch = ApiOk,
      e_modlog = ModlogSent, e_now = 1000\<rparr>"

definition ex_parse :: "string \<Rightarrow> rat option" where
  "ex_parse s = (if s = ''10m'' then Some 600 else if s = ''30d'' then Some 2592000 else None)"

section \<open>cogs/power.py: PowerCog\<close>

text \<open>
  The process of the bot: running, replaced by a new process (\<open>os.execv\<close>), or closed
  (\<open>bot.close()\<close>).
\<close>

datatype process_state = Running | Replaced | Closed

record message_event =
  m_author :: user_id
  m_channel :: nat
  m_content :: string

record power_ctx =
  pc_author :: user_id
  pc_channel :: nat
  pc_owner :: user_id

datatype power_output =
    RestartPrompt string
  | ShutdownPrompt string
  | Restarting
  | ShuttingDown
  | IncorrectCode
  | TimedOut

text \<open>
  \<open>check\<close> of both commands, and \<open>bot.wait_for("message", timeout=15.0, check=check)\<close>:
  the first message of the window that satisfies it, or \<open>TimeoutError\<close>.
\<close>

definition message_check :: "power_ctx \<Rightarrow> message_event \<Rightarrow> bool" where
  "message_check ctx m \<longleftrightarrow> m_author m = pc_author ctx \<and> m_channel m = pc_channel ctx"

text \<open>
  \<open>restart_command\<close>. The decorator \<open>is_owner\<close> raises \<open>NotOwner\<close> for anyone else; \<open>rnd\<close>
  is the number \<open>random.randint(100000, 999999)\<close> returned; \<open>msgs\<close> are the messages that
  arrive within the 15 seconds, in order. The outputs are the \<open>ctx.send\<close> calls of the
  command, which are taken to return: the process is replaced or closed only after
  the send of the acceptance has returned, and stays as it was when a send raises.
\<close>

definition restart_command ::
  "power_ctx \<Rightarrow> nat \<Rightarrow> message_event list \<Rightarrow> process_state \<Rightarrow>
   command_error + power_output list \<times> process_state" where
  "restart_command ctx rnd msgs proc =
     (if pc_author ctx \<noteq> pc_owner ctx then Inl NotOwner
      else
        (let confirmation_code = str_nat rnd in
         case find (message_check ctx) msgs of
           None \<Rightarrow> Inr ([RestartPrompt confirmation_code, TimedOut], proc)
         | Some response_message \<Rightarrow>
             if m_content response_message = confirmation_code
               then Inr ([RestartPrompt confirmation_code, Restarting], Replaced)
             else Inr ([RestartPrompt confirmation_code, IncorrectCode], proc)))"

definition shutdown_command ::
  "power_ctx \<Rightarrow> nat \<Rightarrow> message_event list \<Rightarrow> process_state \<Rightarrow>
   command_error + power_output list \<times> process_state" where
  "shutdown_command ctx rnd msgs proc =
     (if pc_author ctx \<noteq> pc_owner ctx then Inl NotOwner
      else
        (let confirmation_code = str_nat rnd in
         case find (message_check ctx) msgs of
           None \<Rightarrow> Inr ([ShutdownPrompt confirmation_code, TimedOut], proc)
         | Some response_message \<Rightarrow>
             if m_content response_message = confirmation_code
               then Inr ([ShutdownPrompt confirmation_code, ShuttingDown], Closed)
             else Inr ([ShutdownPrompt confirmation_code, IncorrectCode], proc)))"

text \<open>
  The confirmation both commands wait for: the first message of the invoking user in the
  channel of the command, within the window, is exactly the code.
\<close>

definition code_confirmed :: "power_ctx \<Rightarrow> nat \<Rightarrow> message_event list \<Rightarrow> bool" where
  "code_confirmed ctx rnd msgs =
     (case find (message_check ctx) msgs of
        Some m \<Rightarrow> m_content m = str_nat rnd
      | None \<Rightarrow> False)"

text \<open>The process state a command leaves; the state it found when \<open>NotOwner\<close> is raised.\<close>

definition process_after ::
  "command_error + power_output list \<times> process_state \<Rightarrow> process_state \<Rightarrow> process_state" where
  "process_after res proc = (case res of Inl err \<Rightarrow> proc | Inr (out, proc') \<Rightarrow> proc')"

text \<open>The owner 11 invoking a command in channel 7.\<close>

definition ex_power_ctx :: power_ctx where
  "ex_power_ctx = \<lparr>pc_author = 11, pc_channel = 7, pc_owner = 11\<rparr>"


section \<open>Music queue (cogs/music.py)\<close>

text \<open>
  The music cog keeps one \<open>GuildMusicState\<close> per guild in a \<open>defaultdict\<close>: reading
  \<open>guild_states[guild_id]\<close> inserts a fresh state when the guild has none, while \<open>get\<close>
  and \<open>in\<close> do not. \<open>bot.get_guild\<close> and \<open>guild.voice_client\<close> are one map: \<open>None\<close> is a
  guild the bot does not know, \<open>Some None\<close> a guild without voice client, and
  \<open>Some (Some p)\<close> a guild with the connected player \<open>p\<close>. A player records the track
  it was last told to play. The event loop is the list of the tasks created so far; a
  task handle is the position of the task in that list. A coroutine that sleeps and
  then works is a pair of the seconds it sleeps and the function it applies to the
  state when it wakes up. The answers of the Lavalink node to \<open>fetch_tracks\<close>, the
  draw of \<open>random.choice\<close>, and whether \<open>player.play\<close>, \<open>voice_client.disconnect\<close> and
  \<open>bound_channel.send\<close> raise are parameters.
\<close>

type_synonym channel_id = nat

record track =
  tr_identifier :: string
  tr_title :: string

record guild_music_state =
  ms_queue :: "track list"
  ms_volume :: int
  ms_autoplay :: bool
  ms_disconnect_task :: "nat option"
  ms_bound_channel :: "channel_id option"
  ms_current_track :: "track option"

definition GuildMusicState_init :: guild_music_state where
  "GuildMusicState_init =
     \<lparr>ms_queue = [], ms_volume = 50, ms_autoplay = False, ms_disconnect_task = None,
      ms_bound_channel = None, ms_current_track = None\<rparr>"

record player =
  pl_track :: "track option"

record sleeping_task =
  task_guild :: guild_id
  task_sleep :: nat
  task_cancelled :: bool

datatype music_message = DisconnectedInactivity

record music_bot =
  mb_guild_states :: "guild_id \<rightharpoonup> guild_music_state"
  mb_voice_clients :: "guild_id \<rightharpoonup> player option"
  mb_tasks :: "sleeping_task list"
  mb_sent :: "(channel_id \<times> music_message) list"

datatype search_type = YOUTUBE_MUSIC | YOUTUBE

datatype fetch_result =
    FetchRaises
  | FetchNothing
  | FetchList "track list"
  | FetchPlaylist "track list"

record music_env =
  me_fetch_tracks :: "string \<Rightarrow> search_type \<Rightarrow> fetch_result"
  me_random :: nat
  me_play_raises :: bool
  me_disconnect_raises :: bool
  me_send_raises :: bool

datatype music_error =
    AttributeError
  | FetchTracksError
  | TypeError
  | PlayError
  | DisconnectError
  | SendError

text \<open>\<open>self.guild_states[guild_id]\<close>: the state of the guild, created when missing.\<close>

definition state_of :: "guild_id \<Rightarrow> music_bot \<Rightarrow> guild_music_state \<times> music_bot" where
  "state_of gid b =
     (case mb_guild_states b gid of
        Some s \<Rightarrow> (s, b)
      | None \<Rightarrow> (GuildMusicState_init,
                 b\<lparr>mb_guild_states := (mb_guild_states b)(gid \<mapsto> GuildMusicState_init)\<rparr>))"

text \<open>Assignments to the attributes of the state object of a guild.\<close>

definition set_state :: "guild_id \<Rightarrow> guild_music_state \<Rightarrow> music_bot \<Rightarrow> music_bot" where
  "set_state gid s b = b\<lparr>mb_guild_states := (mb_guild_states b)(gid \<mapsto> s)\<rparr>"

text \<open>\<open>player.play(track)\<close> and \<open>voice_client.disconnect()\<close>, when they return.\<close>

definition player_play :: "guild_id \<Rightarrow> track \<Rightarrow> music_bot \<Rightarrow> music_bot" where
  "player_play gid t b =
     b\<lparr>mb_voice_clients := (mb_voice_clients b)(gid \<mapsto> Some \<lparr>pl_track = Some t\<rparr>)\<rparr>"

definition voice_disconnect :: "guild_id \<Rightarrow> music_bot \<Rightarrow> music_bot" where
  "voice_disconnect gid b = b\<lparr>mb_voice_clients := (mb_voice_clients b)(gid \<mapsto> None)\<rparr>"

text \<open>
  \<open>disconnect_after_timeout\<close>: sleeps 30 seconds; then, if the guild is known and has a
  voice client, disconnects it and tells the bound channel, if there is one; at the end
  the state of the guild is deleted. There is no \<open>try\<close>: when the disconnection or the
  message raises, the exception ends the task and the state is not deleted.
\<close>

definition delete_state :: "guild_id \<Rightarrow> music_bot \<Rightarrow> music_bot" where
  "delete_state gid b = b\<lparr>mb_guild_states := (mb_guild_states b)(gid := None)\<rparr>"

definition disconnect_after_timeout ::
  "guild_id \<Rightarrow> nat \<times> (music_env \<Rightarrow> music_bot \<Rightarrow> music_error option \<times> music_bot)" where
  "disconnect_after_timeout gid =
     (30, \<lambda>env b.
        case mb_voice_clients b gid of
          Some (Some voice_client) \<Rightarrow>
            (let state = mb_guild_states b gid in
             if me_disconnect_raises env then (Some DisconnectError, b)
             else
               (let b' = voice_disconnect gid b
                in case state of
                     Some s \<Rightarrow>
                       (case ms_bound_channel s of
                          Some ch \<Rightarrow>
                            if me_send_raises env then (Some SendError, b')
                            else (None,
                                  delete_state gid
                                    (b'\<lparr>mb_sent := mb_sent b' @ [(ch, DisconnectedInactivity)]\<rparr>))
                        | None \<Rightarrow> (None, delete_state gid b'))
                   | None \<Rightarrow> (None, delete_state gid b')))
        | _ \<Rightarrow> (None, delete_state gid b))"

text \<open>
  \<open>asyncio.create_task(self.disconnect_after_timeout(guild_id))\<close>: the new task sleeps;
  the handle is returned.
\<close>

definition create_task :: "guild_id \<Rightarrow> music_bot \<Rightarrow> nat \<times> music_bot" where
  "create_task gid b =
     (length (mb_tasks b),
      b\<lparr>mb_tasks := mb_tasks b @
           [\<lparr>task_guild = gid, task_sleep = fst (disconnect_after_timeout gid),
             task_cancelled = False\<rparr>]\<rparr>)"

text \<open>\<open>task.cancel()\<close>, and what the event loop does when the sleep of a task is over.\<close>

definition task_cancel :: "nat \<Rightarrow> music_bot \<Rightarrow> music_bot" where
  "task_cancel h b =
     (if h < length (mb_tasks b)
      then b\<lparr>mb_tasks := (mb_tasks b)[h := (mb_tasks b ! h)\<lparr>task_cancelled := True\<rparr>]\<rparr>
      else b)"

definition wake_task ::
  "sleeping_task \<Rightarrow> music_env \<Rightarrow> music_bot \<Rightarrow> music_error option \<times> music_bot" where
  "wake_task k env b =
     (if task_cancelled k then (None, b)
      else snd (disconnect_after_timeout (task_guild k)) env b)"

text \<open>
  The two searches of autoplay. The first one, and the \<open>player.play\<close> that follows it,
  are inside a \<open>try\<close> whose handler passes on to the second search.
\<close>

definition related_query :: "string \<Rightarrow> string" where
  "related_query ident =
     ''https://music.youtube.com/watch?v='' @ ident @ ''&list=RDAMVM'' @ ident"

definition autoplay_related :: "music_env \<Rightarrow> track option \<Rightarrow> track option" where
  "autoplay_related env last_track =
     (case last_track of
        None \<Rightarrow> None
      | Some lt \<Rightarrow>
          if tr_identifier lt = [] then None
          else (case me_fetch_tracks env (related_query (tr_identifier lt)) YOUTUBE_MUSIC of
                  FetchPlaylist ts \<Rightarrow> if length ts > 1 then Some (ts ! 1) else None
                | _ \<Rightarrow> None))"

definition autoplay_fallback :: "music_env \<Rightarrow> music_error + track option" where
  "autoplay_fallback env =
     (case me_fetch_tracks env ''lofi hip hop radio'' YOUTUBE of
        FetchRaises \<Rightarrow> Inl FetchTracksError
      | FetchNothing \<Rightarrow> Inr None
      | FetchList ts \<Rightarrow> if ts = [] then Inr None
                        else Inr (Some (ts ! (me_random env mod length ts)))
      | FetchPlaylist ts \<Rightarrow> Inl TypeError)"

text \<open>The last statement of \<open>play_next\<close>: the disconnection is scheduled.\<close>

definition schedule_disconnect ::
  "guild_id \<Rightarrow> guild_music_state \<Rightarrow> music_bot \<Rightarrow> music_bot" where
  "schedule_disconnect gid state b =
     (let (h, b') = create_task gid b
      in set_state gid (state\<lparr>ms_disconnect_task := Some h\<rparr>) b')"

text \<open>
  \<open>play_next\<close>. The result is the exception that leaves the coroutine, if any, and the
  state. \<open>state.current_track\<close> is assigned, and the queue popped, before \<open>player.play\<close>
  is awaited, so that they stay changed when \<open>player.play\<close> raises.
\<close>

definition play_track ::
  "music_env \<Rightarrow> guild_id \<Rightarrow> track \<Rightarrow> music_bot \<Rightarrow> music_error option \<times> music_bot" where
  "play_track env gid t b =
     (if me_play_raises env then (Some PlayError, b) else (None, player_play gid t b))"

definition play_next :: "music_env \<Rightarrow> guild_id \<Rightarrow> music_bot \<Rightarrow> music_error option \<times> music_bot"
  where
  "play_next env gid b =
     (let (state, b1) = state_of gid b
      in case mb_voice_clients b1 gid of
           None \<Rightarrow> (Some AttributeError, b1)
         | Some None \<Rightarrow> (None, b1)
         | Some (Some player) \<Rightarrow>
             (let last_track = ms_current_track state
              in case ms_queue state of
                   next_track # rest \<Rightarrow>
                     play_track env gid next_track
                       (set_state gid
                          (state\<lparr>ms_queue := rest, ms_current_track := Some next_track\<rparr>) b1)
                 | [] \<Rightarrow>
                     (let state1 = state\<lparr>ms_current_track := None\<rparr>;
                          b2 = set_state gid state1 b1
                      in if ms_autoplay state1
                         then
                           (let related = autoplay_related env last_track;
                                state2 = (case related of
                                            Some next_track \<Rightarrow>
                                              state1\<lparr>ms_current_track := Some next_track\<rparr>
                                          | None \<Rightarrow> state1);
                                b3 = set_state gid state2 b2
                            in if related \<noteq> None \<and> \<not> me_play_raises env
                               then (None, player_play gid (the related) b3)
                               else
                                 (case autoplay_fallback env of
                                    Inl err \<Rightarrow> (Some err, b3)
                                  | Inr (Some next_track) \<Rightarrow>
                                      play_track env gid next_track
                                        (set_state gid
                                           (state2\<lparr>ms_current_track := Some next_track\<rparr>) b3)
                                  | Inr None \<Rightarrow> (None, schedule_disconnect gid state2 b3)))
                         else (None, schedule_disconnect gid state1 b2))))"

text \<open>The listeners \<open>on_track_start\<close> and \<open>on_track_end\<close>.\<close>

definition on_track_start :: "guild_id \<Rightarrow> track \<Rightarrow> music_bot \<Rightarrow> music_bot" where
  "on_track_start gid t b =
     (let (state, b1) = state_of gid b
      in case ms_disconnect_task state of
           Some h \<Rightarrow>
             set_state gid (state\<lparr>ms_disconnect_task := None, ms_current_track := Some t\<rparr>)
               (task_cancel h b1)
         | None \<Rightarrow> set_state gid (state\<lparr>ms_current_track := Some t\<rparr>) b1)"

definition on_track_end ::
  "music_env \<Rightarrow> string \<Rightarrow> guild_id \<Rightarrow> music_bot \<Rightarrow> music_error option \<times> music_bot" where
  "on_track_end env reason gid b =
     (if reason = ''REPLACED'' then (None, b) else play_next env gid b)"

text \<open>\<open>play_next\<close> called \<open>n\<close> times in a row for one guild.\<close>

fun play_next_calls :: "nat \<Rightarrow> music_env \<Rightarrow> guild_id \<Rightarrow> music_bot \<Rightarrow> music_bot" where
  "play_next_calls 0 env gid b = b"
| "play_next_calls (Suc n) env gid b = play_next_calls n env gid (snd (play_next env gid b))"

text \<open>The queue and the player of a guild, as the cog reads them.\<close>

definition queue_of :: "guild_id \<Rightarrow> music_bot \<Rightarrow> track list" where
  "queue_of gid b = ms_queue (fst (state_of gid b))"

definition connected :: "guild_id \<Rightarrow> music_bot \<Rightarrow> bool" where
  "connected gid b = (case mb_voice_clients b gid of Some (Some p) \<Rightarrow> True | _ \<Rightarrow> False)"

definition now_playing :: "guild_id \<Rightarrow> music_bot \<Rightarrow> track option" where
  "now_playing gid b =
     (case mb_voice_clients b gid of Some (Some p) \<Rightarrow> pl_track p | _ \<Rightarrow> None)"

definition autoplay_of :: "guild_id \<Rightarrow> music_bot \<Rightarrow> bool" where
  "autoplay_of gid b = ms_autoplay (fst (state_of gid b))"

text \<open>A bot with one guild, two queued tracks and a connected player.\<close>

definition ex_track_a :: track where
  "ex_track_a = \<lparr>tr_identifier = ''aaa'', tr_title = ''First''\<rparr>"

definition ex_track_b :: track where
  "ex_track_b = \<lparr>tr_identifier = ''bbb'', tr_title = ''Second''\<rparr>"

definition ex_music_bot :: music_bot where
  "ex_music_bot =
     \<lparr>mb_guild_states = [1 \<mapsto> GuildMusicState_init\<lparr>ms_queue := [ex_track_a, ex_track_b],
                                                    ms_bound_channel := Some 7\<rparr>],
      mb_voice_clients = [1 \<mapsto> Some \<lparr>pl_track = None\<rparr>],
      mb_tasks = [],
      mb_sent = []\<rparr>"

definition ex_music_env :: music_env where
  "ex_music_env =
     \<lparr>me_fetch_tracks = (\<lambda>q st. FetchNothing), me_random = 0, me_play_raises = False,
      me_disconnect_raises = False, me_send_raises = False\<rparr>"


text \<open>The same bot after it lost its voice client, the queue still holding both tracks.\<close>

definition ex_idle_bot :: music_bot where
  "ex_idle_bot = ex_music_bot\<lparr>mb_voice_clients := [1 \<mapsto> None]\<rparr>"


section \<open>Properties of the prefix commands\<close>

lemma set_set_add: "set (set_add x s) = insert x (set s)"
  by (auto simp: set_add_def)

lemma distinct_set_add: "distinct s \<Longrightarrow> distinct (set_add x s)"
  by (auto simp: set_add_def)

lemma cache_get_upd: "cache_get (c(g \<mapsto> s)) g' = (if g' = g then s else cache_get c g')"
  by (simp add: cache_get_def)

lemma cache_get_empty: "cache_get Map.empty g = []"
  by (simp add: cache_get_def)

lemma load_prefixes_set:
  "set (cache_get (load_prefixes rows c) g) = set (cache_get c g) \<union> {p. (g, p) \<in> set rows}"
proof (induction rows c rule: load_prefixes.induct)
  case (1 cache)
  show ?case by simp
next
  case (2 g' p rows cache)
  show ?case
    unfolding load_prefixes.simps "2.IH" cache_get_upd
    by (auto simp: set_set_add)
qed

lemma load_prefixes_distinct:
  "(\<And>g. distinct (cache_get c g)) \<Longrightarrow> distinct (cache_get (load_prefixes rows c) g)"
proof (induction rows c rule: load_prefixes.induct)
  case (1 cache)
  then show ?case by simp
next
  case (2 g' p rows cache)
  have "\<And>g. distinct (cache_get (cache(g' \<mapsto> set_add p (cache_get cache g'))) g)"
    using "2.prems" by (simp add: cache_get_upd distinct_set_add)
  then show ?case
    unfolding load_prefixes.simps by (rule "2.IH")
qed

lemma prefix_inv_init: "prefix_inv (DynamicPrefix_init rows)"
  by (simp add: prefix_inv_def DynamicPrefix_init_def cache_of_def stored_prefixes_def
      load_prefixes_set load_prefixes_distinct cache_get_empty)

lemma prefix_inv_add: "prefix_inv st \<Longrightarrow> prefix_inv (snd (add_prefix_to_db e st g p))"
  by (auto simp: prefix_inv_def add_prefix_to_db_def cache_of_def stored_prefixes_def
      set_set_add distinct_set_add cache_get_upd)

lemma cache_get_Some: "c g = Some s \<Longrightarrow> cache_get c g = s"
  by (simp add: cache_get_def)

lemma cache_get_None: "c g = None \<Longrightarrow> cache_get c g = []"
  by (simp add: cache_get_def)

lemma prefix_inv_remove:
  assumes "prefix_inv st"
  shows "prefix_inv (snd (remove_prefix_from_db e st g p))"
proof -
  have inv: "\<And>h. set (cache_get (prefix_cache st) h) = {q. (h, q) \<in> set (db_prefixes st)}"
    "\<And>h. distinct (cache_get (prefix_cache st) h)"
    using assms by (simp_all add: prefix_inv_def cache_of_def stored_prefixes_def)
  show ?thesis
  proof (cases "\<not> e \<and> (g, p) \<in> set (db_prefixes st)")
    case False
    then show ?thesis using assms by (auto simp: remove_prefix_from_db_def)
  next
    case True
    then have "p \<in> set (cache_get (prefix_cache st) g)" using inv(1)[of g] by simp
    then obtain s where s: "prefix_cache st g = Some s" "p \<in> set s"
      by (cases "prefix_cache st g") (auto simp: cache_get_def)
    have cg: "cache_get (prefix_cache st) g = s" using s by (simp add: cache_get_def)
    show ?thesis
      using True s inv(1)[of g] inv(2)[of g] inv
      unfolding prefix_inv_def remove_prefix_from_db_def cache_of_def stored_prefixes_def
      by (auto simp: cache_get_upd cg distinct_removeAll)
  qed
qed

lemma prefix_inv_clear:
  assumes "prefix_inv st"
  shows "prefix_inv (snd (clear_all_prefixes e st g))"
proof -
  have inv: "\<And>h. set (cache_get (prefix_cache st) h) = {q. (h, q) \<in> set (db_prefixes st)}"
    "\<And>h. distinct (cache_get (prefix_cache st) h)"
    using assms by (simp_all add: prefix_inv_def cache_of_def stored_prefixes_def)
  show ?thesis
  proof (cases "prefix_cache st g")
    case None
    then have "cache_get (prefix_cache st) g = []" by (simp add: cache_get_def)
    then have "\<And>q. (g, q) \<notin> set (db_prefixes st)" using inv(1)[of g] by auto
    then show ?thesis using None inv
      unfolding prefix_inv_def clear_all_prefixes_def cache_of_def stored_prefixes_def
      by (auto simp: dom_def)
  next
    case (Some s)
    then show ?thesis using inv
      unfolding prefix_inv_def clear_all_prefixes_def cache_of_def stored_prefixes_def
      by (auto simp: dom_def cache_get_upd)
  qed
qed

lemma prefix_inv_step: "prefix_inv st \<Longrightarrow> prefix_inv (prefix_step st x)"
proof (cases x)
  case (OpAdd g p e)
  assume "prefix_inv st"
  then show ?thesis using OpAdd prefix_inv_add[of st e g p]
    by (auto simp: add_new_prefix_def Let_def split: prod.splits)
next
  case (OpRemove g p e)
  assume "prefix_inv st"
  then show ?thesis using OpRemove prefix_inv_remove[of st e g p]
    by (auto simp: remove_existing_prefix_def Let_def split: prod.splits)
next
  case (OpClear g e)
  assume "prefix_inv st"
  then show ?thesis using OpClear prefix_inv_clear[of st e g] by simp
qed

lemma prefix_inv_run: "prefix_inv st \<Longrightarrow> prefix_inv (run_prefix_ops ops st)"
  unfolding run_prefix_ops_def
  by (induction ops arbitrary: st) (auto simp: prefix_inv_step)

lemma get_all_prefixes_eq: "get_all_prefixes st g = default_prefix # cache_of st g"
  by (simp add: get_all_prefixes_def cache_of_def cache_get_def split: option.splits)

lemma stored_card: "prefix_inv st \<Longrightarrow> card (stored_prefixes st g) = length (cache_of st g)"
  by (metis prefix_inv_def distinct_card)

lemma add_stored_unchanged:
  "p \<in> stored_prefixes st g \<Longrightarrow> snd (add_new_prefix e st g p) = st"
  by (simp add: add_new_prefix_def add_prefix_to_db_def stored_prefixes_def Let_def)

lemma add_stored_reply:
  "p \<in> stored_prefixes st g \<Longrightarrow>
   fst (add_new_prefix e st g p) \<in>
     {PrefixEmpty, PrefixTooLong, MaxPrefixesReached, IsDefaultPrefix p, PrefixAlreadyExists p}"
  by (simp add: add_new_prefix_def add_prefix_to_db_def stored_prefixes_def Let_def)

lemma add_default_unchanged: "snd (add_new_prefix e st g default_prefix) = st"
  by (simp add: add_new_prefix_def get_all_prefixes_eq Let_def)

lemma add_default_reply:
  "fst (add_new_prefix e st g default_prefix) \<in>
     {MaxPrefixesReached, IsDefaultPrefix default_prefix}"
  by (simp add: add_new_prefix_def get_all_prefixes_eq Let_def default_prefix_def)

lemma remove_default: "remove_existing_prefix e st g default_prefix = (CannotRemoveDefault, st)"
  by (simp add: remove_existing_prefix_def)

lemma active_set: "prefix_inv st \<Longrightarrow>
  set (get_all_prefixes st g) = insert default_prefix (stored_prefixes st g)"
  by (simp add: get_all_prefixes_eq prefix_inv_def)

lemma active_length: "prefix_inv st \<Longrightarrow>
  length (get_all_prefixes st g) = Suc (card (stored_prefixes st g))"
  by (simp add: get_all_prefixes_eq stored_card)

lemma length_set_add: "length (set_add x s) \<le> Suc (length s)"
  by (simp add: set_add_def)

lemma cache_of_add:
  "cache_of (snd (add_prefix_to_db e st g p)) h =
     (if \<not> e \<and> (g, p) \<notin> set (db_prefixes st) \<and> h = g then set_add p (cache_of st g)
      else cache_of st h)"
  by (simp add: add_prefix_to_db_def cache_of_def cache_get_upd)

lemma cache_of_remove_len:
  "length (cache_of (snd (remove_prefix_from_db e st g p)) h) \<le> length (cache_of st h)"
  by (cases "prefix_cache st g")
     (auto simp: remove_prefix_from_db_def cache_of_def cache_get_upd cache_get_def)

lemma cache_of_clear_len:
  "length (cache_of (snd (clear_all_prefixes e st g)) h) \<le> length (cache_of st h)"
  by (auto simp: clear_all_prefixes_def cache_of_def cache_get_upd)

lemma within_limit_step:
  assumes "within_limit st"
  shows "within_limit (prefix_step st x)"
proof (cases x)
  case (OpAdd g p e)
  have "length (cache_of (snd (add_new_prefix e st g p)) h) \<le> 9" for h
  proof (cases "length (cache_of st g) < 9")
    case True
    have "length (set_add p (cache_of st g)) \<le> 9"
      using True length_set_add[of p "cache_of st g"] by linarith
    then show ?thesis
      using assms cache_of_add[of e st g p h]
      by (auto simp: add_new_prefix_def Let_def within_limit_def split: prod.splits)
  next
    case False
    then show ?thesis using assms
      by (simp add: add_new_prefix_def Let_def get_all_prefixes_eq within_limit_def)
  qed
  then show ?thesis using OpAdd by (simp add: within_limit_def)
next
  case (OpRemove g p e)
  have "length (cache_of (snd (remove_existing_prefix e st g p)) h) \<le> 9" for h
    using assms cache_of_remove_len[of e st g p h]
    by (auto simp: remove_existing_prefix_def within_limit_def Let_def split: prod.splits
        intro: order_trans)
  then show ?thesis using OpRemove by (simp add: within_limit_def)
next
  case (OpClear g e)
  have "length (cache_of (snd (clear_all_prefixes e st g)) h) \<le> 9" for h
    using assms cache_of_clear_len[of e st g h] by (auto simp: within_limit_def intro: order_trans)
  then show ?thesis using OpClear by (simp add: within_limit_def)
qed

lemma within_limit_run: "within_limit st \<Longrightarrow> within_limit (run_prefix_ops ops st)"
  unfolding run_prefix_ops_def
  by (induction ops arbitrary: st) (auto simp: within_limit_step)

lemma add_at_limit:
  "length (cache_of st g) = 9 \<Longrightarrow> p \<noteq> [] \<Longrightarrow> length p \<le> 10 \<Longrightarrow>
   add_new_prefix e st g p = (MaxPrefixesReached, st)"
  by (simp add: add_new_prefix_def get_all_prefixes_eq Let_def)

lemma add_at_limit_unchanged:
  "length (cache_of st g) = 9 \<Longrightarrow> snd (add_new_prefix e st g p) = st"
  by (simp add: add_new_prefix_def get_all_prefixes_eq Let_def)

lemma within_limit_init:
  assumes "\<forall>g. card (stored_prefixes (DynamicPrefix_init rows) g) \<le> 9"
  shows "within_limit (DynamicPrefix_init rows)"
  using assms stored_card[OF prefix_inv_init, of rows] by (simp add: within_limit_def)

text \<open>
  Claim C3. For every guild and every sequence of prefix operations (add, remove, clear)
  run from the state the cog starts in, the active prefix list of the guild consists of
  the default prefix \<open>i.\<close> and exactly the custom prefixes stored for the guild (as a set,
  and with one entry per stored prefix); adding a prefix that is stored already, or that
  is the default, leaves the state unchanged and is answered by one of the rejections;
  removing the default prefix is rejected and leaves the state unchanged.
\<close>

theorem prefix_active_list:
  "set (get_all_prefixes (run_prefix_ops ops (DynamicPrefix_init rows)) g)
     = insert default_prefix (stored_prefixes (run_prefix_ops ops (DynamicPrefix_init rows)) g)
   \<and> length (get_all_prefixes (run_prefix_ops ops (DynamicPrefix_init rows)) g)
     = Suc (card (stored_prefixes (run_prefix_ops ops (DynamicPrefix_init rows)) g))
   \<and> (\<forall>e p. p \<in> stored_prefixes (run_prefix_ops ops (DynamicPrefix_init rows)) g \<or> p = default_prefix \<longrightarrow>
         snd (add_new_prefix e (run_prefix_ops ops (DynamicPrefix_init rows)) g p)
           = run_prefix_ops ops (DynamicPrefix_init rows)
       \<and> fst (add_new_prefix e (run_prefix_ops ops (DynamicPrefix_init rows)) g p)
           \<in> {PrefixEmpty, PrefixTooLong, MaxPrefixesReached, IsDefaultPrefix p,
               PrefixAlreadyExists p})
   \<and> (\<forall>e. remove_existing_prefix e (run_prefix_ops ops (DynamicPrefix_init rows)) g default_prefix
         = (CannotRemoveDefault, run_prefix_ops ops (DynamicPrefix_init rows)))"
proof -
  define st where "st = run_prefix_ops ops (DynamicPrefix_init rows)"
  have inv: "prefix_inv st"
    unfolding st_def by (rule prefix_inv_run) (rule prefix_inv_init)
  have a: "set (get_all_prefixes st g) = insert default_prefix (stored_prefixes st g)"
    using inv by (rule active_set)
  have b: "length (get_all_prefixes st g) = Suc (card (stored_prefixes st g))"
    using inv by (rule active_length)
  have c: "snd (add_new_prefix e st g p) = st
       \<and> fst (add_new_prefix e st g p)
           \<in> {PrefixEmpty, PrefixTooLong, MaxPrefixesReached, IsDefaultPrefix p,
               PrefixAlreadyExists p}"
    if "p \<in> stored_prefixes st g \<or> p = default_prefix" for e p
  proof (cases "p = default_prefix")
    case True
    then show ?thesis
      using add_default_unchanged[of e st g] add_default_reply[of e st g] by auto
  next
    case False
    then have "p \<in> stored_prefixes st g" using that by simp
    then show ?thesis
      using add_stored_unchanged[of p st g e] add_stored_reply[of p st g e] by simp
  qed
  have d: "remove_existing_prefix e st g default_prefix = (CannotRemoveDefault, st)" for e
    by (rule remove_default)
  show ?thesis
    unfolding st_def[symmetric] using a b c d by blast
qed

theorem prefix_active_list_witness:
  "set (get_all_prefixes
         (run_prefix_ops [OpAdd 7 ''!'' False, OpAdd 7 ''!'' False, OpAdd 7 ''i.'' False,
                          OpAdd 7 ''?'' False, OpRemove 7 ''i.'' False, OpRemove 7 ''!'' False]
            (DynamicPrefix_init [(7, ''$''), (8, ''%'')])) 7)
     = {''i.'', ''$'', ''?''}
   \<and> length (get_all_prefixes
         (run_prefix_ops [OpAdd 7 ''!'' False, OpAdd 7 ''!'' False, OpAdd 7 ''i.'' False,
                          OpAdd 7 ''?'' False, OpRemove 7 ''i.'' False, OpRemove 7 ''!'' False]
            (DynamicPrefix_init [(7, ''$''), (8, ''%'')])) 7) = 3
   \<and> fst (add_new_prefix False
         (run_prefix_ops [OpAdd 7 ''!'' False, OpAdd 7 ''!'' False, OpAdd 7 ''i.'' False,
                          OpAdd 7 ''?'' False, OpRemove 7 ''i.'' False, OpRemove 7 ''!'' False]
            (DynamicPrefix_init [(7, ''$''), (8, ''%'')])) 7 ''?'') = PrefixAlreadyExists ''?''"
proof -
  let ?st = "run_prefix_ops [OpAdd 7 ''!'' False, OpAdd 7 ''!'' False, OpAdd 7 ''i.'' False,
                          OpAdd 7 ''?'' False, OpRemove 7 ''i.'' False, OpRemove 7 ''!'' False]
            (DynamicPrefix_init [(7, ''$''), (8, ''%'')])"
  have st: "?st = \<lparr>db_prefixes = [(7, ''$''), (8, ''%''), (7, ''?'')],
                   prefix_cache = [7 \<mapsto> [''$'', ''?''], 8 \<mapsto> [''%'']]\<rparr>"
    by (simp add: run_prefix_ops_def DynamicPrefix_init_def add_new_prefix_def
        remove_existing_prefix_def add_prefix_to_db_def remove_prefix_from_db_def
        get_all_prefixes_def default_prefix_def set_add_def cache_get_def cache_of_def
        Let_def fun_upd_twist)
  have sp: "stored_prefixes ?st 7 = {''$'', ''?''}"
    unfolding st by (auto simp: stored_prefixes_def)
  from prefix_active_list[of "[OpAdd 7 ''!'' False, OpAdd 7 ''!'' False, OpAdd 7 ''i.'' False,
                          OpAdd 7 ''?'' False, OpRemove 7 ''i.'' False, OpRemove 7 ''!'' False]"
        "[(7, ''$''), (8, ''%'')]" 7]
  have "set (get_all_prefixes ?st 7) = insert default_prefix (stored_prefixes ?st 7)"
    and "length (get_all_prefixes ?st 7) = Suc (card (stored_prefixes ?st 7))"
    and "\<forall>e p. p \<in> stored_prefixes ?st 7 \<or> p = default_prefix \<longrightarrow>
         snd (add_new_prefix e ?st 7 p) = ?st
       \<and> fst (add_new_prefix e ?st 7 p)
           \<in> {PrefixEmpty, PrefixTooLong, MaxPrefixesReached, IsDefaultPrefix p,
               PrefixAlreadyExists p}"
    by blast+
  then show ?thesis
    unfolding sp st
    by (auto simp: default_prefix_def add_new_prefix_def add_prefix_to_db_def
        get_all_prefixes_def Let_def)
qed

text \<open>
  Claim C4. Starting from a database with at most nine custom prefixes per guild, no
  sequence of prefix operations leaves a guild with more than nine; and in a guild that
  has nine, the add command stores nothing, and answers a well-formed prefix (non-empty,
  at most ten characters) with the maximum-reached message.
\<close>

theorem prefix_limit:
  assumes "\<forall>g. card (stored_prefixes (DynamicPrefix_init rows) g) \<le> 9"
  shows "card (stored_prefixes (run_prefix_ops ops (DynamicPrefix_init rows)) g) \<le> 9
   \<and> (card (stored_prefixes (run_prefix_ops ops (DynamicPrefix_init rows)) g) = 9 \<longrightarrow>
        snd (add_new_prefix e (run_prefix_ops ops (DynamicPrefix_init rows)) g p)
          = run_prefix_ops ops (DynamicPrefix_init rows)
      \<and> (p \<noteq> [] \<and> length p \<le> 10 \<longrightarrow>
           fst (add_new_prefix e (run_prefix_ops ops (DynamicPrefix_init rows)) g p)
             = MaxPrefixesReached))"
proof -
  define st where "st = run_prefix_ops ops (DynamicPrefix_init rows)"
  have inv: "prefix_inv st"
    unfolding st_def by (rule prefix_inv_run) (rule prefix_inv_init)
  have lim: "within_limit st"
    unfolding st_def by (rule within_limit_run) (rule within_limit_init[OF assms])
  have card_eq: "card (stored_prefixes st g) = length (cache_of st g)"
    using inv by (rule stored_card)
  have a: "card (stored_prefixes st g) \<le> 9"
    using lim card_eq by (simp add: within_limit_def)
  have b: "snd (add_new_prefix e st g p) = st" if "card (stored_prefixes st g) = 9"
    using that card_eq add_at_limit_unchanged[of st g e p] by simp
  have c: "fst (add_new_prefix e st g p) = MaxPrefixesReached"
    if "card (stored_prefixes st g) = 9" "p \<noteq> []" "length p \<le> 10"
    using that card_eq add_at_limit[of st g p e] by simp
  show ?thesis
    unfolding st_def[symmetric] using a b c by blast
qed

theorem prefix_limit_witness:
  "card (stored_prefixes
      (run_prefix_ops [OpAdd 3 ''>'' False, OpAdd 3 ''<'' False]
        (DynamicPrefix_init [(3, ''!''), (3, ''?''), (3, ''$''), (3, ''%''),
                             (3, ''&''), (3, ''-''), (3, ''+''), (3, ''~'')])) 3) = 9
   \<and> add_new_prefix False
      (run_prefix_ops [OpAdd 3 ''>'' False, OpAdd 3 ''<'' False]
        (DynamicPrefix_init [(3, ''!''), (3, ''?''), (3, ''$''), (3, ''%''),
                             (3, ''&''), (3, ''-''), (3, ''+''), (3, ''~'')])) 3 ''=''
     = (MaxPrefixesReached,
        run_prefix_ops [OpAdd 3 ''>'' False, OpAdd 3 ''<'' False]
        (DynamicPrefix_init [(3, ''!''), (3, ''?''), (3, ''$''), (3, ''%''),
                             (3, ''&''), (3, ''-''), (3, ''+''), (3, ''~'')]))"
proof -
  let ?rows = "[(3::nat, ''!''), (3, ''?''), (3, ''$''), (3, ''%''),
                (3, ''&''), (3, ''-''), (3, ''+''), (3, ''~'')]"
  let ?ops = "[OpAdd 3 ''>'' False, OpAdd 3 ''<'' False]"
  let ?st = "run_prefix_ops ?ops (DynamicPrefix_init ?rows)"
  have init: "DynamicPrefix_init ?rows =
      \<lparr>db_prefixes = ?rows,
       prefix_cache = [3 \<mapsto> [''!'', ''?'', ''$'', ''%'', ''&'', ''-'', ''+'', ''~'']]\<rparr>"
    by (simp add: DynamicPrefix_init_def set_add_def cache_get_def)
  have sp0: "stored_prefixes (DynamicPrefix_init ?rows) g =
      (if g = 3 then {''!'', ''?'', ''$'', ''%'', ''&'', ''-'', ''+'', ''~''} else {})" for g
    by (auto simp: stored_prefixes_def DynamicPrefix_init_def)
  have pre: "\<forall>g. card (stored_prefixes (DynamicPrefix_init ?rows) g) \<le> 9"
    unfolding sp0 by simp
  have st: "?st = \<lparr>db_prefixes = ?rows @ [(3, ''>'')],
       prefix_cache = [3 \<mapsto> [''!'', ''?'', ''$'', ''%'', ''&'', ''-'', ''+'', ''~'', ''>'']]\<rparr>"
    unfolding init
    by (simp add: run_prefix_ops_def add_new_prefix_def add_prefix_to_db_def
        get_all_prefixes_def default_prefix_def set_add_def cache_get_def cache_of_def Let_def)
  have sp: "stored_prefixes ?st 3 = {''!'', ''?'', ''$'', ''%'', ''&'', ''-'', ''+'', ''~'', ''>''}"
    unfolding st by (auto simp: stored_prefixes_def)
  have c9: "card (stored_prefixes ?st 3) = 9"
    unfolding sp by simp
  from prefix_limit[OF pre, of ?ops 3 False "''=''"] c9
  have "snd (add_new_prefix False ?st 3 ''='') = ?st"
    and "fst (add_new_prefix False ?st 3 ''='') = MaxPrefixesReached"
    by simp_all
  then have "add_new_prefix False ?st 3 ''='' = (MaxPrefixesReached, ?st)"
    by (simp add: prod_eq_iff)
  with c9 show ?thesis by simp
qed

section \<open>Properties of the vocabulary commands\<close>

lemma lower_char_idem: "lower_char (lower_char c) = lower_char c"
  by (auto simp: lower_char_def is_upper_def Let_def)

lemma str_lower_idem: "str_lower (str_lower s) = str_lower s"
  by (simp add: str_lower_def lower_char_idem)

lemma set_str_strip: "set (str_strip s) \<subseteq> set s"
proof -
  have "set (dropWhile is_space (rev (dropWhile is_space s))) \<subseteq> set (rev (dropWhile is_space s))"
    by (rule set_dropWhileD[THEN subsetI]) 
  also have "\<dots> \<subseteq> set s" using set_dropWhileD[of _ is_space s] by auto
  finally show ?thesis by (simp add: str_strip_def)
qed

lemma clean_word_lower: "str_lower (str_strip (str_lower w)) = str_strip (str_lower w)"
proof -
  have "\<forall>c \<in> set (str_strip (str_lower w)). lower_char c = c"
    using set_str_strip[of "str_lower w"] by (auto simp: str_lower_def lower_char_idem)
  then show ?thesis by (simp add: str_lower_def map_idI)
qed

lemma str_strip_idem: "str_strip (str_strip s) = str_strip s"
proof -
  define t where "t = dropWhile is_space (rev (dropWhile is_space s))"
  have t1: "t = [] \<or> \<not> is_space (hd t)" unfolding t_def by (metis hd_dropWhile)
  have "rev (dropWhile is_space s) = [] \<or> \<not> is_space (last (rev (dropWhile is_space s)))"
    by (metis hd_dropWhile last_rev rev_is_Nil_conv)
  then have t2: "t = [] \<or> \<not> is_space (last t)"
    unfolding t_def
    by (metis dropWhile_eq_Nil_conv last_in_set set_dropWhileD takeWhile_dropWhile_id append_Nil2 last_appendR dropWhile.simps(1))
  have "dropWhile is_space (rev t) = rev t"
    using t2 by (cases "rev t") (auto simp: last_rev hd_rev)
  moreover have "dropWhile is_space t = t" using t1 by (cases t) auto
  ultimately show ?thesis
    unfolding str_strip_def t_def[symmetric] by simp
qed

lemma save_word_distinct: "distinct db \<Longrightarrow> distinct (snd (save_word e db uid word))"
  by (simp add: save_word_def Let_def)

lemma set_select_words: "set (select_words db uid) = {w. (uid, w) \<in> set db}"
  by (auto simp: select_words_def image_iff)

lemma sorted_select_words: "sorted (select_words db uid)"
  by (simp add: select_words_def)

lemma distinct_select_words:
  assumes "distinct db"
  shows "distinct (select_words db uid)"
proof -
  have "inj_on snd (set (filter (\<lambda>r. fst r = uid) db))"
    by (auto simp: inj_on_def prod_eq_iff)
  then have "distinct (map snd (filter (\<lambda>r. fst r = uid) db))"
    using assms by (simp add: distinct_map)
  then show ?thesis by (simp add: select_words_def)
qed

lemma save_word_clean: "clean_rows db \<Longrightarrow> clean_rows (snd (save_word e db uid word))"
  by (auto simp: save_word_def Let_def clean_rows_def clean_word_lower str_lower_def[symmetric]
      str_strip_idem)

lemma run_saves_clean: "clean_rows db \<Longrightarrow> clean_rows (run_saves cmds db)"
  by (induction cmds db rule: run_saves.induct) (auto simp: save_word_clean)

lemma run_saves_distinct: "distinct db \<Longrightarrow> distinct (run_saves cmds db)"
  by (induction cmds db rule: run_saves.induct) (auto simp: save_word_distinct)

lemma save_word_stores: "str_strip (str_lower w) \<noteq> [] \<Longrightarrow>
   (uid, str_strip (str_lower w)) \<in> set (snd (save_word False db uid w))"
  by (simp add: save_word_def Let_def)

text \<open>
  Claim C5. For a user and a word whose normal form is not empty and not yet stored for
  the user, the save command (with a working database) inserts exactly one row and
  reports success; saving the same word again inserts nothing and replies that the word
  was saved already; the list command then returns the user's words, and the words
  selected for any user are exactly that user's stored words, each once, in ascending
  order.
\<close>

theorem vocab_save_and_list:
  assumes "distinct db"
    and "str_strip (str_lower word) \<noteq> []"
    and "(uid, str_strip (str_lower word)) \<notin> set db"
  shows "save_word False db uid word
           = (WordSaved (str_strip (str_lower word)), db @ [(uid, str_strip (str_lower word))])
       \<and> save_word False (db @ [(uid, str_strip (str_lower word))]) uid word
           = (AlreadySaved (str_strip (str_lower word)), db @ [(uid, str_strip (str_lower word))])
       \<and> list_vocab (db @ [(uid, str_strip (str_lower word))]) uid
           = WordList (select_words (db @ [(uid, str_strip (str_lower word))]) uid)
       \<and> sorted (select_words (db @ [(uid, str_strip (str_lower word))]) uid)
       \<and> distinct (select_words (db @ [(uid, str_strip (str_lower word))]) uid)
       \<and> set (select_words (db @ [(uid, str_strip (str_lower word))]) uid)
           = insert (str_strip (str_lower word)) {w. (uid, w) \<in> set db}
       \<and> sorted (select_words db v) \<and> distinct (select_words db v)
       \<and> set (select_words db v) = {w. (v, w) \<in> set db}"
proof -
  define cw where "cw = str_strip (str_lower word)"
  have d': "distinct (db @ [(uid, cw)])" using assms by (simp add: cw_def)
  have 1: "save_word False db uid word = (WordSaved cw, db @ [(uid, cw)])"
    using assms by (simp add: save_word_def cw_def Let_def)
  have 2: "save_word False (db @ [(uid, cw)]) uid word = (AlreadySaved cw, db @ [(uid, cw)])"
    using assms by (simp add: save_word_def cw_def Let_def)
  have s: "set (select_words (db @ [(uid, cw)]) uid) = insert cw {w. (uid, w) \<in> set db}"
    by (auto simp: set_select_words)
  then have "select_words (db @ [(uid, cw)]) uid \<noteq> []" by auto
  then have 3: "list_vocab (db @ [(uid, cw)]) uid = WordList (select_words (db @ [(uid, cw)]) uid)"
    by (simp add: list_vocab_def Let_def)
  show ?thesis
    unfolding cw_def[symmetric]
    using 1 2 3 s sorted_select_words distinct_select_words[OF d'] distinct_select_words[OF assms(1)]
      set_select_words by simp
qed

theorem vocab_save_and_list_witness:
  "save_word False [(5, ''cat'')] 5 '' Dog '' = (WordSaved ''dog'', [(5, ''cat''), (5, ''dog'')])
   \<and> save_word False [(5, ''cat''), (5, ''dog'')] 5 '' Dog ''
       = (AlreadySaved ''dog'', [(5, ''cat''), (5, ''dog'')])
   \<and> list_vocab [(5, ''cat''), (5, ''dog'')] 5 = WordList [''cat'', ''dog'']"
proof -
  have cw: "str_strip (str_lower '' Dog '') = ''dog''"
    by code_simp
  have sel: "select_words [(5, ''cat''), (5, ''dog'')] 5 = [''cat'', ''dog'']"
    by code_simp
  have "distinct [(5::nat, ''cat'')]" by simp
  moreover have "str_strip (str_lower '' Dog '') \<noteq> []" unfolding cw by simp
  moreover have "(5, str_strip (str_lower '' Dog '')) \<notin> set [(5::nat, ''cat'')]"
    unfolding cw by simp
  ultimately show ?thesis
    using vocab_save_and_list[of "[(5, ''cat'')]" "'' Dog ''" 5 5]
    unfolding cw by (simp add: sel)
qed

text \<open>
  Claim C9. The save command stores the word lowercased and stripped: a word that is
  empty after stripping is rejected without a write; otherwise the only row that can be
  added is the normal form of the word; a second save by the same user of a word with
  the same normal form (differing in letter case or surrounding whitespace only) is
  reported as already saved and writes nothing; and every word listed after any history
  of save commands is lowercase, stripped and non-empty.
\<close>

theorem vocab_normalisation:
  "(str_strip (str_lower w) = [] \<longrightarrow> save_word e db uid w = (AskForWord, db))
   \<and> (str_strip (str_lower w) \<noteq> [] \<longrightarrow>
        snd (save_word False db uid w) = db \<or>
        snd (save_word False db uid w) = db @ [(uid, str_strip (str_lower w))])
   \<and> (str_strip (str_lower w1) = str_strip (str_lower w2) \<and> str_strip (str_lower w1) \<noteq> [] \<longrightarrow>
        save_word False (snd (save_word False db uid w1)) uid w2
          = (AlreadySaved (str_strip (str_lower w1)), snd (save_word False db uid w1)))
   \<and> (\<forall>x \<in> set (select_words (run_saves cmds []) uid).
        str_lower x = x \<and> str_strip x = x \<and> x \<noteq> [])"
proof -
  have a: "str_strip (str_lower w) = [] \<longrightarrow> save_word e db uid w = (AskForWord, db)"
    by (simp add: save_word_def)
  have b: "str_strip (str_lower w) \<noteq> [] \<longrightarrow>
        snd (save_word False db uid w) = db \<or>
        snd (save_word False db uid w) = db @ [(uid, str_strip (str_lower w))]"
    by (simp add: save_word_def Let_def)
  have c: "save_word False (snd (save_word False db uid w1)) uid w2
          = (AlreadySaved (str_strip (str_lower w1)), snd (save_word False db uid w1))"
    if "str_strip (str_lower w1) = str_strip (str_lower w2)" "str_strip (str_lower w1) \<noteq> []"
    using that save_word_stores[of w1 uid db]
    by (simp add: save_word_def[of False "snd (save_word False db uid w1)"] Let_def)
  have "clean_rows (run_saves cmds [])"
    by (rule run_saves_clean) (simp add: clean_rows_def)
  then have d: "\<forall>x \<in> set (select_words (run_saves cmds []) uid).
        str_lower x = x \<and> str_strip x = x \<and> x \<noteq> []"
    unfolding set_select_words clean_rows_def by fastforce
  show ?thesis using a b c d by blast
qed

theorem vocab_normalisation_witness:
  "save_word False [] 2 ''  '' = (AskForWord, [])
   \<and> save_word False (snd (save_word False [] 2 ''Tree'')) 2 '' tREE ''
       = (AlreadySaved ''tree'', [(2, ''tree'')])
   \<and> select_words (run_saves [(False, 2, ''Tree''), (False, 2, '' tREE '')] []) 2 = [''tree'']"
proof -
  have c0: "str_strip (str_lower ''  '') = []"
    by code_simp
  have c1: "str_strip (str_lower ''Tree'') = ''tree''"
    by code_simp
  have c2: "str_strip (str_lower '' tREE '') = ''tree''"
    by code_simp
  have s1: "snd (save_word False [] 2 ''Tree'') = [(2, ''tree'')]"
    by (simp add: save_word_def c1 Let_def)
  have r: "run_saves [(False, 2, ''Tree''), (False, 2, '' tREE '')] [] = [(2, ''tree'')]"
    by (simp add: save_word_def c1 c2 Let_def)
  from vocab_normalisation[of "''  ''" False "[]" 2 "''Tree''" "'' tREE ''" "[]"]
  have "str_strip (str_lower ''  '') = [] \<longrightarrow> save_word False [] 2 ''  '' = (AskForWord, [])"
    and "str_strip (str_lower ''Tree'') = str_strip (str_lower '' tREE '')
          \<and> str_strip (str_lower ''Tree'') \<noteq> [] \<longrightarrow>
        save_word False (snd (save_word False [] 2 ''Tree'')) 2 '' tREE ''
          = (AlreadySaved (str_strip (str_lower ''Tree'')), snd (save_word False [] 2 ''Tree''))"
    by blast+
  then show ?thesis
    unfolding c0 c1 c2 s1 r by (simp add: select_words_def)
qed

section \<open>Properties of the error handler\<close>

lemma unknown_command_silent: "fst (on_command_error ctx CommandNotFound) = []"
  by (simp add: on_command_error_def)

text \<open>
  Claim C7, as stated, fails: the command \<open>play\<close> of the Music cog is a known command with
  the required argument \<open>query\<close>, and when the argument is missing the global handler
  sends nothing, because the Music cog overrides \<open>cog_command_error\<close>.
\<close>

theorem missing_argument_no_hint_counterexample:
  "fst (on_command_error
          \<lparr>ctx_command = Some play_command, invoked_with = ''play'', clean_prefix = ''i.''\<rparr>
          (MissingRequiredArgument ''query'')) = []"
  by (simp add: on_command_error_def ctx_cog_def play_command_def music_cog_def)

text \<open>
  Claim C7, amended. For \<open>CommandNotFound\<close> the handler sends no reply (it returns at
  once, or logs at level info and returns). For a known command that has no local
  \<open>on_error\<close> handler and whose cog does not override \<open>cog_command_error\<close>, a missing
  required argument is answered by one embed that names the missing parameter and shows
  the usage line: prefix, qualified name and signature. For a command with a local
  error handler, or of a cog overriding \<open>cog_command_error\<close>, the handler sends nothing.
\<close>

theorem error_handler_replies:
  "on_command_error ctx CommandNotFound \<in> {([], []), ([], [LogInfo])}
   \<and> (ctx_command ctx = Some c \<and> \<not> has_on_error c
        \<and> (\<forall>cog. command_cog c = Some cog \<longrightarrow> \<not> overrides_cog_command_error cog) \<longrightarrow>
        fst (on_command_error ctx (MissingRequiredArgument p))
          = [MissingArgumentReply p
               (Some (str_strip (clean_prefix ctx @ qualified_name c @ '' '' @ signature c)))])
   \<and> (ctx_command ctx = Some c
        \<and> (has_on_error c \<or> (\<exists>cog. command_cog c = Some cog \<and> overrides_cog_command_error cog)) \<longrightarrow>
        fst (on_command_error ctx (MissingRequiredArgument p)) = [])"
  by (auto simp: on_command_error_def ctx_cog_def usage_of_def split: option.splits)

theorem error_handler_replies_witness:
  "on_command_error
      \<lparr>ctx_command = None, invoked_with = ''foo'', clean_prefix = ''i.''\<rparr> CommandNotFound
     = ([], [LogInfo])
   \<and> fst (on_command_error
      \<lparr>ctx_command = Some warn_command, invoked_with = ''warn'', clean_prefix = ''i.''\<rparr>
      (MissingRequiredArgument ''member''))
     = [MissingArgumentReply ''member'' (Some ''i.warn <member> <reason>'')]"
proof -
  let ?ctx = "\<lparr>ctx_command = Some warn_command, invoked_with = ''warn'', clean_prefix = ''i.''\<rparr>"
  have s: "str_strip (''i.'' @ ''warn'' @ '' '' @ ''<member> <reason>'') = ''i.warn <member> <reason>''"
    by code_simp
  have "ctx_command ?ctx = Some warn_command \<and> \<not> has_on_error warn_command
        \<and> (\<forall>cog. command_cog warn_command = Some cog \<longrightarrow> \<not> overrides_cog_command_error cog)"
    by (simp add: warn_command_def moderation_cog_def)
  with error_handler_replies[of ?ctx warn_command "''member''"]
  have "fst (on_command_error ?ctx (MissingRequiredArgument ''member''))
          = [MissingArgumentReply ''member''
               (Some (str_strip (clean_prefix ?ctx @ qualified_name warn_command @ '' '' @ signature warn_command)))]"
    by blast
  then have b: "fst (on_command_error ?ctx (MissingRequiredArgument ''member''))
          = [MissingArgumentReply ''member'' (Some ''i.warn <member> <reason>'')]"
    using s by (simp add: warn_command_def)
  have a: "on_command_error
      \<lparr>ctx_command = None, invoked_with = ''foo'', clean_prefix = ''i.''\<rparr> CommandNotFound
     = ([], [LogInfo])"
    by (simp add: on_command_error_def ctx_cog_def)
  from a b show ?thesis by (rule conjI)
qed


section \<open>Properties of the AI-backed commands\<close>

lemma wrapper_without_model:
  "cog_model cog = None \<Longrightarrow> ai_command_check f cog a r = ([AiUnavailable], [])"
  by (simp add: ai_command_check_def)

lemma dispatch_unloaded:
  "english_learning b = None \<Longrightarrow> dispatch_eng b pfx cmd r = ([], [], [])"
  by (simp add: dispatch_eng_def on_command_error_def ctx_cog_def)

lemma dispatch_no_model:
  "english_learning b = Some cog \<Longrightarrow> cog_model cog = None \<Longrightarrow>
   dispatch_eng b pfx cmd r = ([AiUnavailable], [], [])"
  by (cases cmd) (simp_all add: dispatch_eng_def wrapper_without_model)

text \<open>
  Claim C8, as stated, fails: with no key configured \<open>setup\<close> does not load the cog, so
  \<open>eng check\<close> is an unknown command, and the user receives no message at all.
\<close>

theorem ai_unavailable_message_counterexample:
  "dispatch_eng (eng_setup None False [] no_cogs) ''i.'' (InvokeCheck ''He go home'') (Some ''ok'')
     = ([], [], [])"
  by (simp add: eng_setup_def key_missing_def no_cogs_def dispatch_unloaded)

text \<open>
  Claim C8, amended. With no key configured (none, or the empty string) the cog is not
  loaded: invoking \<open>eng check\<close>, \<open>eng word\<close> or \<open>eng translate\<close> makes no AI request and
  sends no reply. When a key is configured and loading the model fails, the cog is
  loaded without a model, and each of the three commands makes no AI request and sends
  exactly the message that the AI feature is unavailable; so does each decorated command
  of any cog without a model.
\<close>

theorem ai_disabled_without_model:
  "(key_missing key \<longrightarrow>
      dispatch_eng (eng_setup key load_fails db no_cogs) pfx cmd response = ([], [], []))
   \<and> (\<not> key_missing key \<and> load_fails \<longrightarrow>
      dispatch_eng (eng_setup key load_fails db b) pfx cmd response = ([AiUnavailable], [], []))
   \<and> (cog_model cog = None \<longrightarrow>
      ai_command_check check_grammar cog s response = ([AiUnavailable], [])
      \<and> ai_command_check daily_word cog s response = ([AiUnavailable], [])
      \<and> ai_command_check translate cog s response = ([AiUnavailable], []))"
proof -
  have a: "dispatch_eng (eng_setup key load_fails db no_cogs) pfx cmd response = ([], [], [])"
    if "key_missing key"
    using that by (simp add: eng_setup_def no_cogs_def dispatch_unloaded)
  have b: "dispatch_eng (eng_setup key load_fails db b) pfx cmd response = ([AiUnavailable], [], [])"
    if "\<not> key_missing key" "load_fails"
    using that
    by (intro dispatch_no_model[where cog = "EnglishLearning_init key load_fails db"])
       (simp_all add: eng_setup_def EnglishLearning_init_def initialize_model_def)
  have c: "ai_command_check check_grammar cog s response = ([AiUnavailable], [])
      \<and> ai_command_check daily_word cog s response = ([AiUnavailable], [])
      \<and> ai_command_check translate cog s response = ([AiUnavailable], [])"
    if "cog_model cog = None"
    using that by (simp add: wrapper_without_model)
  show ?thesis using a b c by blast
qed

theorem ai_disabled_without_model_witness:
  "dispatch_eng (eng_setup (Some []) False [] no_cogs) ''i.'' (InvokeWord ''diligent'') None
     = ([], [], [])
   \<and> dispatch_eng (eng_setup (Some ''k3y'') True [] no_cogs) ''i.'' (InvokeTranslate ''hello'')
        (Some ''sawasdee'')
     = ([AiUnavailable], [], [])"
proof -
  have "key_missing (Some [])" by (simp add: key_missing_def)
  moreover have "\<not> key_missing (Some ''k3y'') \<and> True" by (simp add: key_missing_def)
  ultimately show ?thesis
    using ai_disabled_without_model[where key = "Some []" and load_fails = False and db = "[]"
        and pfx = "''i.''" and cmd = "InvokeWord ''diligent''" and response = None]
      ai_disabled_without_model[where key = "Some ''k3y''" and load_fails = True and db = "[]"
        and b = no_cogs and pfx = "''i.''" and cmd = "InvokeTranslate ''hello''"
        and response = "Some ''sawasdee''"]
    by blast
qed


section \<open>Properties of the moderation cases\<close>

lemma stored_cases_tables [simp]:
  "stored_cases (create_tables gid d) g' = stored_cases d g'"
  by (auto simp: create_tables_def stored_cases_def split: option.splits)

lemma ensure_down [simp]: "ensure_guild_tables_exist True gid d = (Some LoggerTypeError, d)"
  by (simp add: ensure_guild_tables_exist_def)

lemma ensure_up [simp]: "ensure_guild_tables_exist False gid d = (None, create_tables gid d)"
  by (simp add: ensure_guild_tables_exist_def)

lemma stored_cases_ensure [simp]:
  "stored_cases (snd (ensure_guild_tables_exist dd gid d)) g' = stored_cases d g'"
  by (cases dd) simp_all

lemma ensure_cases_Some:
  "\<exists>t. cases_tables (create_tables gid d) gid = Some t"
  by (auto simp: create_tables_def split: option.splits)

lemma table_ok_empty: "table_ok \<lparr>table_rows = [], table_seq = 0\<rparr>"
  by (simp add: table_ok_def)

lemma db_ok_tables: "db_ok d \<Longrightarrow> db_ok (create_tables gid d)"
  by (auto simp: db_ok_def create_tables_def table_ok_empty split: option.splits if_splits)

lemma db_ok_ensure: "db_ok d \<Longrightarrow> db_ok (snd (ensure_guild_tables_exist dd gid d))"
  by (cases dd) (simp_all add: db_ok_tables)

lemma table_ok_append:
  assumes "table_ok t"
  shows "table_ok \<lparr>table_rows = table_rows t @ [r\<lparr>case_id := Suc (table_seq t)\<rparr>],
                   table_seq = Suc (table_seq t)\<rparr>"
  using assms by (simp add: table_ok_def)

lemma create_case_down: "create_case True gid u m a r du d = (Inl LoggerTypeError, d)"
  by (simp add: create_case_def)

lemma create_case_up:
  obtains t where "cases_tables (create_tables gid d) gid = Some t"
    and "create_case False gid u m a r du d =
      (Inr (Some (Suc (table_seq t))),
       (create_tables gid d)\<lparr>cases_tables :=
          (cases_tables (create_tables gid d))(gid \<mapsto>
            \<lparr>table_rows = table_rows t @
               [\<lparr>case_id = Suc (table_seq t), case_user = u, case_moderator = m,
                 case_action = a, case_reason = r, case_duration = du\<rparr>],
             table_seq = Suc (table_seq t)\<rparr>)\<rparr>)"
proof -
  obtain t where t: "cases_tables (create_tables gid d) gid = Some t"
    using ensure_cases_Some by blast
  then show ?thesis
    by (intro that[of t]) (simp_all add: create_case_def Let_def)
qed

lemma create_case_stored:
  "stored_cases (snd (create_case False gid u m a r du d)) g' =
     (if g' = gid
      then stored_cases d gid @
             [\<lparr>case_id = Suc (table_seq (the (cases_tables (create_tables gid d) gid))),
               case_user = u, case_moderator = m,
               case_action = a, case_reason = r, case_duration = du\<rparr>]
      else stored_cases d g')"
proof -
  obtain t where t: "cases_tables (create_tables gid d) gid = Some t"
    and c: "create_case False gid u m a r du d =
      (Inr (Some (Suc (table_seq t))),
       (create_tables gid d)\<lparr>cases_tables :=
          (cases_tables (create_tables gid d))(gid \<mapsto>
            \<lparr>table_rows = table_rows t @
               [\<lparr>case_id = Suc (table_seq t), case_user = u, case_moderator = m,
                 case_action = a, case_reason = r, case_duration = du\<rparr>],
             table_seq = Suc (table_seq t)\<rparr>)\<rparr>)"
    by (rule create_case_up)
  have old: "stored_cases d gid = table_rows t"
    using t stored_cases_tables[of gid d gid] by (simp add: stored_cases_def)
  have other: "g' \<noteq> gid \<Longrightarrow>
     stored_cases (snd (create_case False gid u m a r du d)) g' = stored_cases d g'"
    using stored_cases_tables[of gid d g'] unfolding c by (simp add: stored_cases_def)
  have same: "stored_cases (snd (create_case False gid u m a r du d)) gid =
      table_rows t @ [\<lparr>case_id = Suc (table_seq t), case_user = u, case_moderator = m,
                 case_action = a, case_reason = r, case_duration = du\<rparr>]"
    unfolding c by (simp add: stored_cases_def)
  show ?thesis
  proof (cases "g' = gid")
    case True
    then show ?thesis using same old t by simp
  next
    case False
    then show ?thesis using other by simp
  qed
qed

lemma create_case_fst:
  "fst (create_case False gid u m a r du d) =
     Inr (Some (Suc (table_seq (the (cases_tables (create_tables gid d) gid)))))"
proof -
  obtain t where t: "cases_tables (create_tables gid d) gid = Some t"
    and c: "create_case False gid u m a r du d =
      (Inr (Some (Suc (table_seq t))),
       (create_tables gid d)\<lparr>cases_tables :=
          (cases_tables (create_tables gid d))(gid \<mapsto>
            \<lparr>table_rows = table_rows t @
               [\<lparr>case_id = Suc (table_seq t), case_user = u, case_moderator = m,
                 case_action = a, case_reason = r, case_duration = du\<rparr>],
             table_seq = Suc (table_seq t)\<rparr>)\<rparr>)"
    by (rule create_case_up)
  show ?thesis unfolding c by (simp add: t)
qed

lemma db_ok_create: 
  assumes "db_ok d"
  shows "db_ok (snd (create_case dd gid u m a r du d))"
proof (cases dd)
  case True
  then show ?thesis using assms by (simp add: create_case_down)
next
  case False
  obtain t where t: "cases_tables (create_tables gid d) gid = Some t"
    and c: "create_case False gid u m a r du d =
      (Inr (Some (Suc (table_seq t))),
       (create_tables gid d)\<lparr>cases_tables :=
          (cases_tables (create_tables gid d))(gid \<mapsto>
            \<lparr>table_rows = table_rows t @
               [\<lparr>case_id = Suc (table_seq t), case_user = u, case_moderator = m,
                 case_action = a, case_reason = r, case_duration = du\<rparr>],
             table_seq = Suc (table_seq t)\<rparr>)\<rparr>)"
    by (rule create_case_up)
  have ok1: "db_ok (create_tables gid d)" using assms by (rule db_ok_tables)
  then have "table_ok t" using t by (simp add: db_ok_def)
  then have "table_ok \<lparr>table_rows = table_rows t @
               [\<lparr>case_id = Suc (table_seq t), case_user = u, case_moderator = m,
                 case_action = a, case_reason = r, case_duration = du\<rparr>],
             table_seq = Suc (table_seq t)\<rparr>"
    by (simp add: table_ok_def)
  then have "db_ok (snd (create_case False gid u m a r du d))"
    using ok1 unfolding c by (simp add: db_ok_def)
  then show ?thesis using False by simp
qed

lemma seq_is_length:
  assumes "db_ok d"
  shows "table_seq (the (cases_tables (create_tables gid d) gid))
           = length (stored_cases d gid)"
proof -
  obtain t where t: "cases_tables (create_tables gid d) gid = Some t"
    using ensure_cases_Some by blast
  have "table_ok t" using db_ok_tables[OF assms, of gid] t by (simp add: db_ok_def)
  moreover have "stored_cases d gid = table_rows t"
    using t stored_cases_tables[of gid d gid] by (simp add: stored_cases_def)
  ultimately show ?thesis using t by (simp add: table_ok_def)
qed

lemma ids_of_stored:
  assumes "db_ok d"
  shows "map case_id (stored_cases d gid) = [1 ..< Suc (length (stored_cases d gid))]"
proof (cases "cases_tables d gid")
  case None
  then show ?thesis by (simp add: stored_cases_def)
next
  case (Some t)
  then show ?thesis using assms by (simp add: stored_cases_def db_ok_def table_ok_def)
qed

lemma find_app:
  "find P (xs @ ys) = (case find P xs of None \<Rightarrow> find P ys | Some x \<Rightarrow> Some x)"
  by (induction xs) simp_all

lemma find_last_new:
  assumes "map case_id xs = [1 ..< Suc (length xs)]" and "case_id r = Suc (length xs)"
  shows "find (\<lambda>x. case_id x = Suc (length xs)) (xs @ [r]) = Some r"
proof -
  have "\<forall>x \<in> set xs. case_id x \<noteq> Suc (length xs)"
  proof
    fix x assume "x \<in> set xs"
    then have "case_id x \<in> set (map case_id xs)" by simp
    then have "case_id x \<in> set [1 ..< Suc (length xs)]" using assms(1) by simp
    then show "case_id x \<noteq> Suc (length xs)" by auto
  qed
  then have "find (\<lambda>x. case_id x = Suc (length xs)) xs = None"
    by (simp add: find_None_iff)
  then show ?thesis using assms(2) by (simp add: find_app)
qed

lemma get_case_stored:
  "fst (get_case False gid cid d) = Inr (find (\<lambda>r. case_id r = cid) (stored_cases d gid))"
proof -
  obtain t where t: "cases_tables (create_tables gid d) gid = Some t"
    using ensure_cases_Some by blast
  have "stored_cases d gid = table_rows t"
    using t stored_cases_tables[of gid d gid] by (simp add: stored_cases_def)
  then show ?thesis using t by (simp add: get_case_def Let_def)
qed

lemma last_ids:
  assumes "map case_id xs = [1 ..< Suc (length xs)]" "xs \<noteq> []"
  shows "case_id (last xs) = length xs"
proof -
  have "case_id (last xs) = last (map case_id xs)" using assms(2) by (simp add: last_map)
  also have "\<dots> = last [1 ..< Suc (length xs)]" using assms(1) by simp
  also have "\<dots> = length xs" using assms(2) by (cases xs) simp_all
  finally show ?thesis .
qed

lemma create_case_recorded:
  assumes "db_ok d"
  shows "case_recorded d (snd (create_case False gid u m a r du d)) gid a r du"
proof -
  let ?d' = "snd (create_case False gid u m a r du d)"
  let ?old = "stored_cases d gid"
  let ?row = "\<lparr>case_id = Suc (length ?old), case_user = u, case_moderator = m,
               case_action = a, case_reason = r, case_duration = du\<rparr>"
  have new: "stored_cases ?d' gid = ?old @ [?row]"
    using create_case_stored[of gid u m a r du d gid] seq_is_length[OF assms, of gid] by simp
  have ids: "map case_id ?old = [1 ..< Suc (length ?old)]" using assms by (rule ids_of_stored)
  have f: "find (\<lambda>x. case_id x = Suc (length ?old)) (?old @ [?row]) = Some ?row"
    using ids by (intro find_last_new) simp_all
  have g: "fst (get_case False gid (Suc (length ?old)) ?d') = Inr (Some ?row)"
    unfolding get_case_stored new using f by simp
  have l: "?old \<noteq> [] \<Longrightarrow> case_id (last ?old) = length ?old"
    using ids by (rule last_ids)
  have l': "?old = [] \<or> Suc (length ?old) = Suc (case_id (last ?old))"
    using l by (cases "?old = []") simp_all
  show ?thesis
    unfolding case_recorded_def Let_def new using g l' by simp
qed


lemma send_mod_log_db:
  "snd (send_mod_log env gid cid d) = snd (ensure_guild_tables_exist (e_db_down env) gid d)"
  by (cases "e_db_down env")
     (simp_all add: send_mod_log_def split: option.splits modlog_result.splits)

lemma send_mod_log_stored [simp]:
  "stored_cases (snd (send_mod_log env gid cid d)) g' = stored_cases d g'"
  by (simp add: send_mod_log_db)

lemma db_ok_send_mod_log: "db_ok d \<Longrightarrow> db_ok (snd (send_mod_log env gid cid d))"
  by (simp add: send_mod_log_db db_ok_ensure)

lemma case_recorded_cong:
  assumes "stored_cases d0 gid = stored_cases d gid" "stored_cases d1 gid = stored_cases d' gid"
  shows "case_recorded d0 d1 gid a r du = case_recorded d d' gid a r du"
  using assms by (simp add: case_recorded_def get_case_stored)

lemma keeps_db_simps [simp]:
  "keeps_db None"
  "keeps_db (Some (remove_member gid u))"
  "keeps_db (Some (ban_user gid u))"
  "keeps_db (Some (unban_user gid u))"
  "keeps_db (Some (set_timeout gid u t))"
  by (simp_all add: keeps_db_def remove_member_def ban_user_def unban_user_def set_timeout_def)

text \<open>The database after the shared tail is the one after \<open>create_case\<close>, up to ensured tables.\<close>

lemma raa_db:
  assumes "keeps_db effect"
  shows "w_db (snd (record_and_apply env gid t m a r du title effect hl cl w))
           = snd (create_case (e_db_down env) gid t m a r du (w_db w))
       \<or> w_db (snd (record_and_apply env gid t m a r du title effect hl cl w))
           = snd (ensure_guild_tables_exist (e_db_down env) gid
               (snd (create_case (e_db_down env) gid t m a r du (w_db w))))"
proof -
  obtain cid d1 where c: "create_case (e_db_down env) gid t m a r du (w_db w) = (cid, d1)"
    by (cases "create_case (e_db_down env) gid t m a r du (w_db w)")
  have k: "w_db (case effect of None \<Rightarrow> w\<lparr>w_db := d1\<rparr> | Some f \<Rightarrow> f (w\<lparr>w_db := d1\<rparr>)) = d1"
    using assms by (cases effect) (simp_all add: keeps_db_def)
  show ?thesis
  proof (cases cid)
    case (Inl exn)
    then show ?thesis using c by (simp add: record_and_apply_def)
  next
    case (Inr oi)
    show ?thesis
    proof (cases oi)
      case None
      then show ?thesis using c Inr by (simp add: record_and_apply_def)
    next
      case (Some i)
      show ?thesis
      proof (cases "e_dm env = DmOtherError")
        case True
        then show ?thesis using c Inr Some by (simp add: record_and_apply_def)
      next
        case False
        show ?thesis
        proof (cases "if effect = None then ApiOk else e_api env")
          case ApiOk
          then show ?thesis
            using c Inr Some False k
            by (simp add: record_and_apply_def Let_def split_beta send_mod_log_db)
        next
          case ApiForbidden
          then show ?thesis using c Inr Some False by (simp add: record_and_apply_def Let_def)
        next
          case ApiHTTPException
          then show ?thesis using c Inr Some False by (simp add: record_and_apply_def Let_def)
        next
          case ApiOtherError
          then show ?thesis using c Inr Some False by (simp add: record_and_apply_def Let_def)
        qed
      qed
    qed
  qed
qed

lemma raa_stored:
  assumes "keeps_db effect"
  shows "stored_cases (w_db (snd (record_and_apply env gid t m a r du title effect hl cl w))) g' =
         stored_cases (snd (create_case (e_db_down env) gid t m a r du (w_db w))) g'"
  using raa_db[OF assms, of env gid t m a r du title hl cl w] by auto

lemma raa_recorded:
  assumes "keeps_db effect" "db_ok (w_db w)" "\<not> e_db_down env"
  shows "case_recorded (w_db w)
           (w_db (snd (record_and_apply env gid t m a r du title effect hl cl w))) gid a r du"
proof -
  have "case_recorded (w_db w) (snd (create_case False gid t m a r du (w_db w))) gid a r du"
    using assms(2) by (rule create_case_recorded)
  moreover have "stored_cases (w_db (snd (record_and_apply env gid t m a r du title effect hl cl w))) gid
      = stored_cases (snd (create_case False gid t m a r du (w_db w))) gid"
    using raa_stored[OF assms(1), of env gid t m a r du title hl cl w gid] assms(3) by simp
  ultimately show ?thesis
    using case_recorded_cong[of "w_db w" gid "w_db w"
        "w_db (snd (record_and_apply env gid t m a r du title effect hl cl w))"
        "snd (create_case False gid t m a r du (w_db w))" a r du]
    by simp
qed

lemma raa_other_guilds:
  assumes "keeps_db effect" "g' \<noteq> gid"
  shows "stored_cases (w_db (snd (record_and_apply env gid t m a r du title effect hl cl w))) g'
           = stored_cases (w_db w) g'"
proof (cases "e_db_down env")
  case True
  then show ?thesis using raa_stored[OF assms(1), of env gid t m a r du title hl cl w g']
    by (simp add: create_case_down)
next
  case False
  then show ?thesis using raa_stored[OF assms(1), of env gid t m a r du title hl cl w g'] assms(2)
    by (simp add: create_case_stored)
qed

lemma raa_db_ok:
  assumes "keeps_db effect" "db_ok (w_db w)"
  shows "db_ok (w_db (snd (record_and_apply env gid t m a r du title effect hl cl w)))"
  using raa_db[OF assms(1), of env gid t m a r du title hl cl w]
    db_ok_create[OF assms(2), of "e_db_down env" gid t m a r du]
  by (auto simp: db_ok_ensure)

text \<open>The confirmation prompt.\<close>

lemma confirmed_iff:
  "reaction_confirmed ctx env \<longleftrightarrow>
     (\<exists>mid. fst (prompt_confirmation ctx env) = Inr (True, Some mid))"
  by (auto simp: prompt_confirmation_def reaction_confirmed_def
      split: prompt_outcome.splits option.splits)

lemma confirmed_then_not:
  "\<not> reaction_confirmed ctx env \<Longrightarrow> snd (confirmed_then ctx env k w) = w"
  using confirmed_iff[of ctx env]
  by (cases "prompt_confirmation ctx env")
     (auto simp: confirmed_then_def prompt_confirmation_def
       split: sum.splits prod.splits option.splits prompt_outcome.splits if_splits)

lemma confirmed_then_edit_raises:
  "e_edit_raises env \<Longrightarrow> snd (confirmed_then ctx env k w) = w"
  by (cases "prompt_confirmation ctx env")
     (auto simp: confirmed_then_def prompt_confirmation_def
       split: sum.splits prod.splits option.splits prompt_outcome.splits if_splits)

lemma confirmed_then_yes:
  "reaction_confirmed ctx env \<Longrightarrow> \<not> e_edit_raises env \<Longrightarrow>
   \<exists>mid. snd (confirmed_then ctx env k w) = snd (k [PromptDeleted mid] w)"
proof -
  assume c: "reaction_confirmed ctx env" and e: "\<not> e_edit_raises env"
  from c obtain mid where m: "fst (prompt_confirmation ctx env) = Inr (True, Some mid)"
    using confirmed_iff[of ctx env] by blast
  then obtain shown where p: "prompt_confirmation ctx env = (Inr (True, Some mid), shown)"
    by (cases "prompt_confirmation ctx env") simp
  have "snd (confirmed_then ctx env k w) = snd (k [PromptDeleted mid] w)"
    using p e by (simp add: confirmed_then_def split_beta)
  then show ?thesis by blast
qed

lemma case_recorded_ensure:
  "case_recorded (snd (ensure_guild_tables_exist dd g0 d)) d' gid a r du
     = case_recorded d d' gid a r du"
  by (rule case_recorded_cong) simp_all


text \<open>The state in which every command starts its work: the guild's tables ensured.\<close>

lemma raa_entered_recorded:
  assumes "keeps_db effect" "db_ok (w_db w)" "\<not> e_db_down env"
  shows "case_recorded (w_db w)
           (w_db (snd (record_and_apply env gid t m a r du title effect hl cl
              (w\<lparr>w_db := create_tables g0 (w_db w)\<rparr>)))) gid a r du"
proof -
  have ok: "db_ok (w_db (w\<lparr>w_db := create_tables g0 (w_db w)\<rparr>))"
    using assms(2) by (simp add: db_ok_tables)
  have "case_recorded (create_tables g0 (w_db w))
           (w_db (snd (record_and_apply env gid t m a r du title effect hl cl
              (w\<lparr>w_db := create_tables g0 (w_db w)\<rparr>)))) gid a r du"
    using raa_recorded[OF assms(1) ok assms(3), of gid t m a r du title hl cl] by simp
  then show ?thesis
    using case_recorded_ensure[of False g0 "w_db w"] by simp
qed

lemma raa_entered_others:
  assumes "keeps_db effect" "g' \<noteq> gid"
  shows "stored_cases (w_db (snd (record_and_apply env gid t m a r du title effect hl cl
              (w\<lparr>w_db := create_tables g0 (w_db w)\<rparr>)))) g'
          = stored_cases (w_db w) g'"
  using raa_other_guilds[OF assms] by simp

lemma raa_entered_db_ok:
  assumes "keeps_db effect" "db_ok (w_db w)"
  shows "db_ok (w_db (snd (record_and_apply env gid t m a r du title effect hl cl
              (w\<lparr>w_db := create_tables g0 (w_db w)\<rparr>))))"
  by (rule raa_db_ok[OF assms(1)]) (simp add: assms(2) db_ok_tables)

lemma unban_checks_entered [simp]:
  "unban_checks ctx u env (w\<lparr>w_db := d\<rparr>) = unban_checks ctx u env w"
  by (simp add: unban_checks_def)

lemma valid_durationD:
  "valid_duration parse du \<Longrightarrow>
   \<exists>s. parse du = Some s \<and> 0 < s \<and> s \<le> max_timeout_seconds"
  by (auto simp: valid_duration_def max_timeout_seconds_def split: option.splits)

text \<open>
  A command that does not reach \<open>create_case\<close> leaves the state as it was, but for the
  ensured tables: one of its checks fails, or the database is down, or the edit of the
  prompt raises.
\<close>

lemma cmd_down:
  assumes "e_db_down env"
  shows "snd (run_mod_command parse ctx cmd env w) = w"
  using assms
  by (cases cmd)
     (simp_all add: kick_def ban_def unban_def untimeout_def timeout_def warn_def)

lemma cmd_rejected_up:
  assumes "\<not> passes_checks parse ctx cmd env w \<or> \<not> prompt_edited cmd env"
    and "\<not> e_db_down env"
  shows "snd (run_mod_command parse ctx cmd env w)
           = w\<lparr>w_db := create_tables (c_guild ctx) (w_db w)\<rparr>"
proof (cases cmd)
  case (Kick m r)
  then show ?thesis using assms
    by (cases "kick_checks ctx m")
       (auto simp: kick_def confirmed_then_not confirmed_then_edit_raises)
next
  case (Ban u gm r)
  then show ?thesis using assms
    by (cases "ban_checks ctx u gm")
       (auto simp: ban_def confirmed_then_not confirmed_then_edit_raises)
next
  case (Unban u r)
  then show ?thesis using assms
    by (cases "unban_checks ctx u env w")
       (auto simp: unban_def split: option.splits)
next
  case (Untimeout m r)
  then show ?thesis using assms
    by (cases "untimeout_checks ctx m env") (simp_all add: untimeout_def)
next
  case (Timeout m du r)
  then show ?thesis using assms
    by (cases "timeout_checks ctx m"; cases "parse du")
       (auto simp: timeout_def valid_duration_def max_timeout_seconds_def)
next
  case (Warn m r)
  then show ?thesis using assms
    by (cases "warn_checks ctx m r") (simp_all add: warn_def)
qed

lemma cmd_stopped:
  assumes "\<not> passes_checks parse ctx cmd env w \<or> e_db_down env \<or> \<not> prompt_edited cmd env"
  shows "snd (run_mod_command parse ctx cmd env w)
           = w\<lparr>w_db := snd (ensure_guild_tables_exist (e_db_down env) (c_guild ctx) (w_db w))\<rparr>"
proof (cases "e_db_down env")
  case True
  then show ?thesis by (simp add: cmd_down)
next
  case False
  then show ?thesis using assms cmd_rejected_up[of parse ctx cmd env w] by auto
qed

lemma cmd_passed:
  assumes "passes_checks parse ctx cmd env w" and "\<not> e_db_down env" and "prompt_edited cmd env"
  shows "\<exists>t title effect hl cl. keeps_db effect \<and>
     snd (run_mod_command parse ctx cmd env w)
       = snd (record_and_apply env (c_guild ctx) t (p_id (c_author ctx)) (passed_action cmd)
                (passed_reason cmd) (passed_duration parse cmd) title effect hl cl
                (w\<lparr>w_db := create_tables (c_guild ctx) (w_db w)\<rparr>))"
proof (cases cmd)
  case (Kick m r)
  obtain mid where "snd (confirmed_then ctx env
       (\<lambda>cleanup. record_and_apply env (c_guild ctx) (p_id m)
                    (p_id (c_author ctx)) ''kick'' r None ''kicked''
                    (Some (remove_member (c_guild ctx) (p_id m))) False cleanup)
       (w\<lparr>w_db := create_tables (c_guild ctx) (w_db w)\<rparr>))
     = snd (record_and_apply env (c_guild ctx) (p_id m)
                    (p_id (c_author ctx)) ''kick'' r None ''kicked''
                    (Some (remove_member (c_guild ctx) (p_id m))) False [PromptDeleted mid]
              (w\<lparr>w_db := create_tables (c_guild ctx) (w_db w)\<rparr>))"
    using confirmed_then_yes[of ctx env] assms Kick by fastforce
  then show ?thesis using assms Kick
    by (auto simp: kick_def intro!: exI keeps_db_simps(2))
next
  case (Ban u gm r)
  obtain mid where "snd (confirmed_then ctx env
       (\<lambda>cleanup. record_and_apply env (c_guild ctx) (p_id u)
                    (p_id (c_author ctx)) ''ban'' r None ''banned''
                    (Some (ban_user (c_guild ctx) (p_id u))) False cleanup)
       (w\<lparr>w_db := create_tables (c_guild ctx) (w_db w)\<rparr>))
     = snd (record_and_apply env (c_guild ctx) (p_id u)
                    (p_id (c_author ctx)) ''ban'' r None ''banned''
                    (Some (ban_user (c_guild ctx) (p_id u))) False [PromptDeleted mid]
              (w\<lparr>w_db := create_tables (c_guild ctx) (w_db w)\<rparr>))"
    using confirmed_then_yes[of ctx env] assms Ban by fastforce
  then show ?thesis using assms Ban
    by (auto simp: ban_def intro!: exI keeps_db_simps(3))
next
  case (Unban u r)
  then show ?thesis using assms
    by (auto simp: unban_def intro!: exI keeps_db_simps(4))
next
  case (Untimeout m r)
  then show ?thesis using assms
    by (auto simp: untimeout_def intro!: exI keeps_db_simps(5))
next
  case (Timeout m du r)
  obtain s where s: "parse du = Some s" "0 < s" "s \<le> max_timeout_seconds"
    using assms Timeout valid_durationD[of parse du] by auto
  then show ?thesis using assms Timeout
    by (auto simp: timeout_def intro!: exI keeps_db_simps(5))
next
  case (Warn m r)
  then show ?thesis using assms
    by (auto simp: warn_def intro!: exI keeps_db_simps(1))
qed

lemma cmd_recorded:
  assumes "db_ok (w_db w)" "\<not> e_db_down env" "passes_checks parse ctx cmd env w"
    "prompt_edited cmd env"
  shows "case_recorded (w_db w) (w_db (snd (run_mod_command parse ctx cmd env w))) (c_guild ctx)
           (passed_action cmd) (passed_reason cmd) (passed_duration parse cmd)"
proof -
  obtain t title effect hl cl where k: "keeps_db effect"
    and e: "snd (run_mod_command parse ctx cmd env w)
       = snd (record_and_apply env (c_guild ctx) t (p_id (c_author ctx)) (passed_action cmd)
                (passed_reason cmd) (passed_duration parse cmd) title effect hl cl
                (w\<lparr>w_db := create_tables (c_guild ctx) (w_db w)\<rparr>))"
    using cmd_passed[OF assms(3,2,4)] by blast
  show ?thesis unfolding e using k assms(1,2) by (rule raa_entered_recorded)
qed

lemma cmd_others:
  assumes "g' \<noteq> c_guild ctx"
  shows "stored_cases (w_db (snd (run_mod_command parse ctx cmd env w))) g' = stored_cases (w_db w) g'"
proof (cases "passes_checks parse ctx cmd env w \<and> \<not> e_db_down env \<and> prompt_edited cmd env")
  case True
  obtain t title effect hl cl where k: "keeps_db effect"
    and e: "snd (run_mod_command parse ctx cmd env w)
       = snd (record_and_apply env (c_guild ctx) t (p_id (c_author ctx)) (passed_action cmd)
                (passed_reason cmd) (passed_duration parse cmd) title effect hl cl
                (w\<lparr>w_db := create_tables (c_guild ctx) (w_db w)\<rparr>))"
    using cmd_passed[of parse ctx cmd env w] True by blast
  show ?thesis unfolding e using k assms by (rule raa_entered_others)
next
  case False
  then have "\<not> passes_checks parse ctx cmd env w \<or> e_db_down env \<or> \<not> prompt_edited cmd env"
    by blast
  then show ?thesis by (simp add: cmd_stopped)
qed

lemma cmd_db_ok:
  assumes "db_ok (w_db w)"
  shows "db_ok (w_db (snd (run_mod_command parse ctx cmd env w)))"
proof (cases "passes_checks parse ctx cmd env w \<and> \<not> e_db_down env \<and> prompt_edited cmd env")
  case True
  obtain t title effect hl cl where k: "keeps_db effect"
    and e: "snd (run_mod_command parse ctx cmd env w)
       = snd (record_and_apply env (c_guild ctx) t (p_id (c_author ctx)) (passed_action cmd)
                (passed_reason cmd) (passed_duration parse cmd) title effect hl cl
                (w\<lparr>w_db := create_tables (c_guild ctx) (w_db w)\<rparr>))"
    using cmd_passed[of parse ctx cmd env w] True by blast
  show ?thesis unfolding e using k assms by (rule raa_entered_db_ok)
next
  case False
  then have "\<not> passes_checks parse ctx cmd env w \<or> e_db_down env \<or> \<not> prompt_edited cmd env"
    by blast
  then show ?thesis using assms by (simp add: cmd_stopped db_ok_ensure)
qed

lemma ex_db_ok: "db_ok (w_db ex_world)"
  by (simp add: ex_world_def db_ok_def)

lemma ex_kick_passes:
  "passes_checks ex_parse ex_ctx (Kick ex_member (Some ''spam''))
     (ex_env [\<lparr>r_user = 10, r_message = 500, r_emoji = CheckMark\<rparr>]) ex_world"
  by (simp add: kick_checks_def hierarchy_check_def reaction_confirmed_def reaction_check_def
      ex_ctx_def ex_member_def ex_moderator_def ex_bot_def ex_env_def)

lemma ex_kick_rows:
  "stored_cases (w_db (snd (run_mod_command ex_parse ex_ctx (Kick ex_member (Some ''spam''))
       (ex_env [\<lparr>r_user = 10, r_message = 500, r_emoji = CheckMark\<rparr>]) ex_world))) 1
     = [\<lparr>case_id = 1, case_user = 20, case_moderator = 10, case_action = ''kick'',
         case_reason = Some ''spam'', case_duration = None\<rparr>]"
  by (simp add: kick_def kick_checks_def hierarchy_check_def confirmed_then_def edit_prompt_def
      prompt_confirmation_def reaction_check_def record_and_apply_def create_case_def
      create_tables_def send_mod_log_def remove_member_def stored_cases_def
      ex_ctx_def ex_member_def ex_moderator_def ex_bot_def ex_env_def ex_world_def Let_def)



lemma hierarchy_check_not_success: "hierarchy_check ctx m \<noteq> Some ActionSuccessful"
  by (auto simp: hierarchy_check_def split: option.splits)

lemma timeout_checks_not_success: "timeout_checks ctx m \<noteq> Some ActionSuccessful"
  using hierarchy_check_not_success[of ctx m] by (auto simp: timeout_checks_def)

lemma timeout_invalid_reply:
  assumes "\<not> valid_duration parse duration" and "\<not> e_db_down env"
  shows "fst (timeout parse ctx member duration reason env w) =
     [Feedback (case timeout_checks ctx member of
                  Some fb \<Rightarrow> fb
                | None \<Rightarrow> if parse duration = None then InvalidDurationFormat
                          else InvalidDuration)]"
  using assms
  by (cases "timeout_checks ctx member"; cases "parse duration")
     (auto simp: timeout_def valid_duration_def max_timeout_seconds_def)

lemma timeout_down:
  "e_db_down env \<Longrightarrow>
   timeout parse ctx member duration reason env w = ([Raised LoggerTypeError], w)"
  by (simp add: timeout_def)

text \<open>
  Claim C10. The timeout command accepts a duration exactly when
  \<open>pytimeparse.parse\<close> returns a number of seconds that is greater than 0 and at most
  28 days, 2419200 seconds. For any other duration, one that does not parse included,
  and with the database reachable, the command answers with one error reply and nothing
  else: when the checks on the member pass, the reply is the invalid-format reply for a
  duration that does not parse and the out-of-range reply otherwise. With the database
  unreachable the command ends at its first statement with the exception of the
  logger, before any reply. In either case the command leaves the state as it was once
  the guild's tables were ensured at its start: no case row is added in any guild and
  no timeout is applied.
\<close>

theorem timeout_duration_range:
  "(valid_duration parse duration \<longleftrightarrow>
      (\<exists>seconds. parse duration = Some seconds \<and> 0 < seconds \<and> seconds \<le> 28 * 24 * 60 * 60))
   \<and> (\<not> valid_duration parse duration \<longrightarrow>
        (\<not> e_db_down env \<longrightarrow>
           (\<exists>fb. fst (timeout parse ctx member duration reason env w) = [Feedback fb]
                 \<and> fb \<noteq> ActionSuccessful)
           \<and> (timeout_checks ctx member = None \<longrightarrow>
                fst (timeout parse ctx member duration reason env w)
                  = [Feedback (if parse duration = None then InvalidDurationFormat
                               else InvalidDuration)]))
        \<and> (e_db_down env \<longrightarrow>
             fst (timeout parse ctx member duration reason env w) = [Raised LoggerTypeError])
        \<and> snd (timeout parse ctx member duration reason env w)
             = w\<lparr>w_db := snd (ensure_guild_tables_exist (e_db_down env) (c_guild ctx) (w_db w))\<rparr>
        \<and> w_timeouts (snd (timeout parse ctx member duration reason env w)) = w_timeouts w
        \<and> (\<forall>g'. stored_cases (w_db (snd (timeout parse ctx member duration reason env w))) g'
                  = stored_cases (w_db w) g'))"
proof -
  have a: "valid_duration parse duration \<longleftrightarrow>
      (\<exists>seconds. parse duration = Some seconds \<and> 0 < seconds \<and> seconds \<le> 28 * 24 * 60 * 60)"
    by (auto simp: valid_duration_def split: option.splits)
  have b: "\<exists>fb. fst (timeout parse ctx member duration reason env w) = [Feedback fb]
              \<and> fb \<noteq> ActionSuccessful"
    if "\<not> valid_duration parse duration" "\<not> e_db_down env"
    using timeout_invalid_reply[OF that, of ctx member reason w]
      timeout_checks_not_success[of ctx member]
    by (cases "timeout_checks ctx member") auto
  have c: "fst (timeout parse ctx member duration reason env w)
               = [Feedback (if parse duration = None then InvalidDurationFormat
                            else InvalidDuration)]"
    if "\<not> valid_duration parse duration" "\<not> e_db_down env" "timeout_checks ctx member = None"
    using timeout_invalid_reply[OF that(1,2), of ctx member reason w] that(3) by simp
  have d: "snd (timeout parse ctx member duration reason env w)
             = w\<lparr>w_db := snd (ensure_guild_tables_exist (e_db_down env) (c_guild ctx) (w_db w))\<rparr>"
    if "\<not> valid_duration parse duration"
    using cmd_stopped[of parse ctx "Timeout member duration reason" env w] that by simp
  have e: "fst (timeout parse ctx member duration reason env w) = [Raised LoggerTypeError]"
    if "e_db_down env"
    using that by (simp add: timeout_down)
  show ?thesis
    using a b c d e by (simp add: d)
qed

theorem timeout_duration_range_witness:
  "\<not> valid_duration ex_parse ''30d''
   \<and> timeout ex_parse ex_ctx ex_member ''30d'' None (ex_env []) ex_world
       = ([Feedback InvalidDuration],
          ex_world\<lparr>w_db := create_tables 1 (w_db ex_world)\<rparr>)
   \<and> fst (timeout ex_parse ex_ctx ex_member ''soon'' None (ex_env []) ex_world)
       = [Feedback InvalidDurationFormat]
   \<and> timeout ex_parse ex_ctx ex_member ''30d'' None ((ex_env [])\<lparr>e_db_down := True\<rparr>) ex_world
       = ([Raised LoggerTypeError], ex_world)
   \<and> w_timeouts (snd (timeout ex_parse ex_ctx ex_member ''10m'' None (ex_env []) ex_world)) (1, 20)
       = Some 1600"
proof -
  have v1: "\<not> valid_duration ex_parse ''30d''"
    by (simp add: valid_duration_def ex_parse_def)
  have v2: "\<not> valid_duration ex_parse ''soon''"
    by (simp add: valid_duration_def ex_parse_def)
  have ck: "timeout_checks ex_ctx ex_member = None"
    by (simp add: timeout_checks_def hierarchy_check_def ex_ctx_def ex_member_def
        ex_moderator_def ex_bot_def)
  have p1: "ex_parse ''30d'' \<noteq> None" "ex_parse ''soon'' = None"
    by (simp_all add: ex_parse_def)
  have e: "e_db_down (ex_env []) = False" "c_guild ex_ctx = 1"
    by (simp_all add: ex_env_def ex_ctx_def)
  from timeout_duration_range[of ex_parse "''30d''" "ex_env []" ex_ctx ex_member None ex_world]
    v1 ck p1
  have a: "fst (timeout ex_parse ex_ctx ex_member ''30d'' None (ex_env []) ex_world)
             = [Feedback InvalidDuration]"
    and b: "snd (timeout ex_parse ex_ctx ex_member ''30d'' None (ex_env []) ex_world)
             = ex_world\<lparr>w_db := create_tables 1 (w_db ex_world)\<rparr>"
    by (simp_all add: e)
  from timeout_duration_range[of ex_parse "''soon''" "ex_env []" ex_ctx ex_member None ex_world]
    v2 ck p1
  have c: "fst (timeout ex_parse ex_ctx ex_member ''soon'' None (ex_env []) ex_world)
             = [Feedback InvalidDurationFormat]"
    by (simp add: e)
  from timeout_duration_range[of ex_parse "''30d''" "(ex_env [])\<lparr>e_db_down := True\<rparr>"
      ex_ctx ex_member None ex_world] v1
  have f: "fst (timeout ex_parse ex_ctx ex_member ''30d'' None
                  ((ex_env [])\<lparr>e_db_down := True\<rparr>) ex_world) = [Raised LoggerTypeError]"
    and g: "snd (timeout ex_parse ex_ctx ex_member ''30d'' None
                  ((ex_env [])\<lparr>e_db_down := True\<rparr>) ex_world) = ex_world"
    by simp_all
  have pm: "ex_parse ''10m'' = Some 600" by (simp add: ex_parse_def)
  have t: "timeout ex_parse ex_ctx ex_member ''10m'' None (ex_env []) ex_world
      = record_and_apply (ex_env []) 1 20 10 ''timeout'' None (Some (format_duration 600))
          ''timed out'' (Some (set_timeout 1 20 (Some 1600))) False []
          (ex_world\<lparr>w_db := create_tables 1 (w_db ex_world)\<rparr>)"
    unfolding timeout_def ck pm
    by (simp add: max_timeout_seconds_def datetime_end_def ex_env_def ex_ctx_def ex_member_def
        ex_moderator_def)
  have d: "w_timeouts (snd (timeout ex_parse ex_ctx ex_member ''10m'' None (ex_env []) ex_world)) (1, 20)
       = Some 1600"
    unfolding t
    by (simp add: record_and_apply_def create_case_def create_tables_def
        send_mod_log_def set_timeout_def ex_env_def ex_world_def Let_def)
  show ?thesis using v1 a b c d f g by (simp add: prod_eq_iff)
qed


section \<open>Properties of the confirmation prompts\<close>

lemma process_restart:
  "process_after (restart_command pctx rnd msgs proc) proc =
     (if pc_author pctx = pc_owner pctx \<and> code_confirmed pctx rnd msgs then Replaced else proc)"
  by (simp add: restart_command_def process_after_def code_confirmed_def Let_def
      split: option.splits)

lemma process_shutdown:
  "process_after (shutdown_command pctx rnd msgs proc) proc =
     (if pc_author pctx = pc_owner pctx \<and> code_confirmed pctx rnd msgs then Closed else proc)"
  by (simp add: shutdown_command_def process_after_def code_confirmed_def Let_def
      split: option.splits)

text \<open>
  Claim C1, as stated, fails in its last part: a kick that the moderator cancels with the
  cross mark in a guild whose tables do not exist yet leaves the database changed,
  because every moderation command runs \<open>_ensure_guild_tables_exist\<close> before its checks
  and its confirmation prompt, and that creates the guild's empty cases table.
\<close>

theorem confirmation_gate_counterexample:
  "\<not> reaction_confirmed ex_ctx (ex_env [\<lparr>r_user = 10, r_message = 500, r_emoji = CrossMark\<rparr>])
   \<and> cases_tables (w_db ex_world) 1 = None
   \<and> cases_tables (w_db (snd (kick ex_ctx ex_member None
         (ex_env [\<lparr>r_user = 10, r_message = 500, r_emoji = CrossMark\<rparr>]) ex_world))) 1
       = Some \<lparr>table_rows = [], table_seq = 0\<rparr>"
proof -
  have n: "\<not> reaction_confirmed ex_ctx
      (ex_env [\<lparr>r_user = 10, r_message = 500, r_emoji = CrossMark\<rparr>])"
    by (simp add: reaction_confirmed_def reaction_check_def ex_env_def ex_ctx_def
        ex_moderator_def)
  then have "\<not> passes_checks ex_parse ex_ctx (Kick ex_member None)
      (ex_env [\<lparr>r_user = 10, r_message = 500, r_emoji = CrossMark\<rparr>]) ex_world"
    by simp
  then have "snd (kick ex_ctx ex_member None
         (ex_env [\<lparr>r_user = 10, r_message = 500, r_emoji = CrossMark\<rparr>]) ex_world)
      = ex_world\<lparr>w_db := create_tables 1 (w_db ex_world)\<rparr>"
    using cmd_stopped[of ex_parse ex_ctx "Kick ex_member None"
        "ex_env [\<lparr>r_user = 10, r_message = 500, r_emoji = CrossMark\<rparr>]" ex_world]
    by (simp add: ex_env_def ex_ctx_def)
  then show ?thesis
    using n by (simp add: create_tables_def ex_world_def)
qed

text \<open>
  Claim C1, amended. When the invoking moderator does not answer the prompt of kick or
  ban with the check mark on the prompt message within the window (another user's
  reaction, a cross mark, or no reaction), the command changes nothing except that the
  guild's tables are ensured: no member is removed, no ban is added, and the case rows
  of every guild are as before. When the invoker of restart or shutdown does not send
  the exact code in the same channel within the window, the process stays as it was.
  When the owner sends the exact code, restart replaces the process and shutdown closes
  it.
\<close>

theorem confirmation_gate:
  "(\<not> reaction_confirmed ctx env \<longrightarrow>
      snd (kick ctx member reason env w)
        = w\<lparr>w_db := snd (ensure_guild_tables_exist (e_db_down env) (c_guild ctx) (w_db w))\<rparr>
      \<and> snd (ban ctx user guild_member reason env w)
        = w\<lparr>w_db := snd (ensure_guild_tables_exist (e_db_down env) (c_guild ctx) (w_db w))\<rparr>
      \<and> (\<forall>g'. stored_cases (w_db (snd (kick ctx member reason env w))) g'
                 = stored_cases (w_db w) g'
               \<and> stored_cases (w_db (snd (ban ctx user guild_member reason env w))) g'
                 = stored_cases (w_db w) g')
      \<and> w_members (snd (kick ctx member reason env w)) = w_members w
      \<and> w_members (snd (ban ctx user guild_member reason env w)) = w_members w
      \<and> w_bans (snd (ban ctx user guild_member reason env w)) = w_bans w)
   \<and> (\<not> code_confirmed pctx rnd msgs \<longrightarrow>
        process_after (restart_command pctx rnd msgs proc) proc = proc
      \<and> process_after (shutdown_command pctx rnd msgs proc) proc = proc)
   \<and> (code_confirmed pctx rnd msgs \<and> pc_author pctx = pc_owner pctx \<longrightarrow>
        process_after (restart_command pctx rnd msgs proc) proc = Replaced
      \<and> process_after (shutdown_command pctx rnd msgs proc) proc = Closed)"
proof -
  have k: "snd (kick ctx member reason env w)
        = w\<lparr>w_db := snd (ensure_guild_tables_exist (e_db_down env) (c_guild ctx) (w_db w))\<rparr>"
    if "\<not> reaction_confirmed ctx env"
    using cmd_stopped[of parse ctx "Kick member reason" env w] that by simp
  have b: "snd (ban ctx user guild_member reason env w)
        = w\<lparr>w_db := snd (ensure_guild_tables_exist (e_db_down env) (c_guild ctx) (w_db w))\<rparr>"
    if "\<not> reaction_confirmed ctx env"
    using cmd_stopped[of parse ctx "Ban user guild_member reason" env w] that by simp
  show ?thesis
    using k b by (simp add: process_restart process_shutdown)
qed

theorem confirmation_gate_witness:
  "snd (kick ex_ctx ex_member None (ex_env []) ex_world)
     = ex_world\<lparr>w_db := create_tables 1 (w_db ex_world)\<rparr>
   \<and> w_members (snd (kick ex_ctx ex_member None
        (ex_env [\<lparr>r_user = 20, r_message = 500, r_emoji = CheckMark\<rparr>,
                 \<lparr>r_user = 10, r_message = 500, r_emoji = CrossMark\<rparr>,
                 \<lparr>r_user = 10, r_message = 500, r_emoji = CheckMark\<rparr>]) ex_world))
     = {(1, 10), (1, 20), (1, 99)}
   \<and> w_members (snd (kick ex_ctx ex_member None
        (ex_env [\<lparr>r_user = 10, r_message = 500, r_emoji = CheckMark\<rparr>]) ex_world))
     = {(1, 10), (1, 99)}
   \<and> process_after (restart_command ex_power_ctx 314159
        [\<lparr>m_author = 11, m_channel = 7, m_content = ''314158''\<rparr>,
         \<lparr>m_author = 11, m_channel = 7, m_content = ''314159''\<rparr>] Running) Running = Running
   \<and> process_after (shutdown_command ex_power_ctx 314159
        [\<lparr>m_author = 12, m_channel = 7, m_content = ''no''\<rparr>,
         \<lparr>m_author = 11, m_channel = 7, m_content = ''314159''\<rparr>] Running) Running = Closed"
proof -
  have n1: "\<not> reaction_confirmed ex_ctx (ex_env [])"
    by (simp add: reaction_confirmed_def ex_env_def)
  have n2: "\<not> reaction_confirmed ex_ctx
      (ex_env [\<lparr>r_user = 20, r_message = 500, r_emoji = CheckMark\<rparr>,
                 \<lparr>r_user = 10, r_message = 500, r_emoji = CrossMark\<rparr>,
                 \<lparr>r_user = 10, r_message = 500, r_emoji = CheckMark\<rparr>])"
    by (simp add: reaction_confirmed_def reaction_check_def ex_env_def ex_ctx_def
        ex_moderator_def)
  have code: "str_nat 314159 = ''314159''"
    by (simp add: str_nat.simps digit_char_def)
  have n3: "\<not> code_confirmed ex_power_ctx 314159
        [\<lparr>m_author = 11, m_channel = 7, m_content = ''314158''\<rparr>,
         \<lparr>m_author = 11, m_channel = 7, m_content = ''314159''\<rparr>]"
    by (simp add: code_confirmed_def message_check_def ex_power_ctx_def code)
  have y3: "code_confirmed ex_power_ctx 314159
        [\<lparr>m_author = 12, m_channel = 7, m_content = ''no''\<rparr>,
         \<lparr>m_author = 11, m_channel = 7, m_content = ''314159''\<rparr>]
      \<and> pc_author ex_power_ctx = pc_owner ex_power_ctx"
    by (simp add: code_confirmed_def message_check_def ex_power_ctx_def code)
  have e: "\<And>rs. e_db_down (ex_env rs) = False" "c_guild ex_ctx = 1"
    by (simp_all add: ex_env_def ex_ctx_def)
  have a: "snd (kick ex_ctx ex_member None (ex_env []) ex_world)
     = ex_world\<lparr>w_db := create_tables 1 (w_db ex_world)\<rparr>"
    using confirmation_gate[where ctx = ex_ctx and env = "ex_env []" and member = ex_member
        and reason = None and w = ex_world] n1
    by (simp add: e)
  have b: "w_members (snd (kick ex_ctx ex_member None
        (ex_env [\<lparr>r_user = 20, r_message = 500, r_emoji = CheckMark\<rparr>,
                 \<lparr>r_user = 10, r_message = 500, r_emoji = CrossMark\<rparr>,
                 \<lparr>r_user = 10, r_message = 500, r_emoji = CheckMark\<rparr>]) ex_world))
     = {(1, 10), (1, 20), (1, 99)}"
    using confirmation_gate[where ctx = ex_ctx
        and env = "ex_env [\<lparr>r_user = 20, r_message = 500, r_emoji = CheckMark\<rparr>,
                 \<lparr>r_user = 10, r_message = 500, r_emoji = CrossMark\<rparr>,
                 \<lparr>r_user = 10, r_message = 500, r_emoji = CheckMark\<rparr>]"
        and member = ex_member and reason = None and w = ex_world] n2
    by (simp add: ex_world_def)
  have c: "w_members (snd (kick ex_ctx ex_member None
        (ex_env [\<lparr>r_user = 10, r_message = 500, r_emoji = CheckMark\<rparr>]) ex_world))
     = {(1, 10), (1, 99)}"
    by (simp add: kick_def kick_checks_def hierarchy_check_def confirmed_then_def edit_prompt_def
      prompt_confirmation_def reaction_check_def record_and_apply_def create_case_def
      create_tables_def send_mod_log_def remove_member_def
      ex_ctx_def ex_member_def ex_moderator_def ex_bot_def ex_env_def ex_world_def Let_def)
       auto
  have d: "process_after (restart_command ex_power_ctx 314159
        [\<lparr>m_author = 11, m_channel = 7, m_content = ''314158''\<rparr>,
         \<lparr>m_author = 11, m_channel = 7, m_content = ''314159''\<rparr>] Running) Running = Running"
    using confirmation_gate[where pctx = ex_power_ctx and rnd = 314159
        and msgs = "[\<lparr>m_author = 11, m_channel = 7, m_content = ''314158''\<rparr>,
         \<lparr>m_author = 11, m_channel = 7, m_content = ''314159''\<rparr>]" and proc = Running] n3
    by blast
  have f: "process_after (shutdown_command ex_power_ctx 314159
        [\<lparr>m_author = 12, m_channel = 7, m_content = ''no''\<rparr>,
         \<lparr>m_author = 11, m_channel = 7, m_content = ''314159''\<rparr>] Running) Running = Closed"
    using confirmation_gate[where pctx = ex_power_ctx and rnd = 314159
        and msgs = "[\<lparr>m_author = 12, m_channel = 7, m_content = ''no''\<rparr>,
         \<lparr>m_author = 11, m_channel = 7, m_content = ''314159''\<rparr>]" and proc = Running] y3
    by blast
  show ?thesis using a b c d f by simp
qed



section \<open>Properties of the music queue\<close>

lemma state_of_Some:
  "mb_guild_states b gid = Some s \<Longrightarrow> state_of gid b = (s, b)"
  by (simp add: state_of_def)

lemma state_of_snd_states:
  "mb_guild_states (snd (state_of gid b)) gid = Some (fst (state_of gid b))"
  by (simp add: state_of_def split: option.splits)

lemma state_of_snd_other [simp]:
  "mb_voice_clients (snd (state_of gid b)) = mb_voice_clients b"
  "mb_tasks (snd (state_of gid b)) = mb_tasks b"
  "mb_sent (snd (state_of gid b)) = mb_sent b"
  by (simp_all add: state_of_def split: option.splits)

lemma state_of_idem: "state_of gid (snd (state_of gid b)) = state_of gid b"
  by (simp add: state_of_def split: option.splits)

lemma play_next_state_of: "play_next env gid (snd (state_of gid b)) = play_next env gid b"
  by (simp add: play_next_def state_of_idem)

lemma play_next_calls_state_of:
  "0 < n \<Longrightarrow> play_next_calls n env gid (snd (state_of gid b)) = play_next_calls n env gid b"
  by (cases n) (simp_all add: play_next_state_of)

lemma queue_of_Some: "mb_guild_states b gid = Some s \<Longrightarrow> queue_of gid b = ms_queue s"
  by (simp add: queue_of_def state_of_Some)

lemma play_next_pop:
  assumes "mb_voice_clients b gid = Some (Some p)"
    and "mb_guild_states b gid = Some s"
    and "ms_queue s = t # rest"
  shows "play_next env gid b =
           play_track env gid t
             (set_state gid (s\<lparr>ms_queue := rest, ms_current_track := Some t\<rparr>) b)"
  using assms by (simp add: play_next_def state_of_Some)

lemma play_next_empty:
  assumes "mb_voice_clients b gid = Some (Some p)"
    and "mb_guild_states b gid = Some s"
    and "ms_queue s = []"
    and "\<not> ms_autoplay s"
  shows "play_next env gid b =
           (None, schedule_disconnect gid (s\<lparr>ms_current_track := None\<rparr>)
                    (set_state gid (s\<lparr>ms_current_track := None\<rparr>) b))"
  using assms by (simp add: play_next_def state_of_Some Let_def)

lemma play_next_idle:
  assumes "mb_voice_clients b gid = Some None"
  shows "play_next env gid b = (None, snd (state_of gid b))"
  using assms by (simp add: play_next_def split_beta)

lemma play_next_keeps_empty:
  assumes "mb_guild_states b gid = Some s" and "ms_queue s = []"
  shows "queue_of gid (snd (play_next env gid b)) = []"
  using assms
  by (auto simp: play_next_def state_of_Some Let_def queue_of_def state_of_def set_state_def
      player_play_def play_track_def schedule_disconnect_def create_task_def
      split: option.splits sum.splits list.splits)

lemma calls_unfold_last:
  "play_next_calls (Suc n) env gid b = snd (play_next env gid (play_next_calls n env gid b))"
  by (induction n arbitrary: b) simp_all

lemma calls_pop:
  assumes "mb_voice_clients b gid = Some (Some p)"
    and "mb_guild_states b gid = Some s"
    and "k \<le> length (ms_queue s)"
  shows "connected gid (play_next_calls k env gid b)
       \<and> mb_guild_states (play_next_calls k env gid b) gid
           = Some (s\<lparr>ms_queue := drop k (ms_queue s),
                     ms_current_track :=
                       (if k = 0 then ms_current_track s else Some (ms_queue s ! (k - 1)))\<rparr>)
       \<and> (0 < k \<and> \<not> me_play_raises env \<longrightarrow>
            now_playing gid (play_next_calls k env gid b) = Some (ms_queue s ! (k - 1)))
       \<and> mb_tasks (play_next_calls k env gid b) = mb_tasks b
       \<and> mb_sent (play_next_calls k env gid b) = mb_sent b"
  using assms
proof (induction k arbitrary: b s p)
  case 0
  then show ?case by (simp add: connected_def)
next
  case (Suc k)
  then obtain t rest where q: "ms_queue s = t # rest"
    by (cases "ms_queue s") auto
  let ?s' = "s\<lparr>ms_queue := rest, ms_current_track := Some t\<rparr>"
  let ?b' = "snd (play_track env gid t (set_state gid ?s' b))"
  have pn: "snd (play_next env gid b) = ?b'"
    using play_next_pop[OF Suc.prems(1,2) q] by simp
  obtain p' where vc: "mb_voice_clients ?b' gid = Some (Some p')"
    using Suc.prems(1)
    by (cases "me_play_raises env") (simp_all add: play_track_def player_play_def set_state_def)
  have np: "\<not> me_play_raises env \<Longrightarrow> now_playing gid ?b' = Some t"
    by (simp add: play_track_def player_play_def now_playing_def)
  have st: "mb_guild_states ?b' gid = Some ?s'"
    by (cases "me_play_raises env") (simp_all add: play_track_def player_play_def set_state_def)
  have le: "k \<le> length (ms_queue ?s')"
    using Suc.prems(3) q by simp
  have o: "mb_tasks ?b' = mb_tasks b" "mb_sent ?b' = mb_sent b"
    by (cases "me_play_raises env"; simp add: play_track_def player_play_def set_state_def)+
  note ih = Suc.IH[OF vc st le]
  show ?case
  proof (cases k)
    case 0
    then show ?thesis
      using q pn vc st np o by (simp add: connected_def)
  next
    case (Suc j)
    then show ?thesis
      using ih q pn o by simp
  qed
qed

lemma calls_all:
  assumes "mb_voice_clients b gid = Some (Some p)"
    and "mb_guild_states b gid = Some s"
    and "\<not> ms_autoplay s"
  shows "mb_guild_states (play_next_calls (Suc (length (ms_queue s))) env gid b) gid
           = Some (s\<lparr>ms_queue := [], ms_current_track := None,
                     ms_disconnect_task := Some (length (mb_tasks b))\<rparr>)
       \<and> mb_tasks (play_next_calls (Suc (length (ms_queue s))) env gid b)
           = mb_tasks b @ [\<lparr>task_guild = gid, task_sleep = 30, task_cancelled = False\<rparr>]
       \<and> connected gid (play_next_calls (Suc (length (ms_queue s))) env gid b)
       \<and> mb_sent (play_next_calls (Suc (length (ms_queue s))) env gid b) = mb_sent b"
proof -
  let ?n = "length (ms_queue s)"
  let ?b = "play_next_calls ?n env gid b"
  from calls_pop[OF assms(1,2), of ?n env]
  have c: "connected gid ?b"
    and st: "mb_guild_states ?b gid
      = Some (s\<lparr>ms_queue := [],
                ms_current_track := (if ?n = 0 then ms_current_track s
                                     else Some (ms_queue s ! (?n - 1)))\<rparr>)"
    and o: "mb_tasks ?b = mb_tasks b" "mb_sent ?b = mb_sent b"
    by simp_all
  from c obtain p' where vc: "mb_voice_clients ?b gid = Some (Some p')"
    by (auto simp: connected_def split: option.splits)
  let ?s = "s\<lparr>ms_queue := [],
                ms_current_track := (if ?n = 0 then ms_current_track s
                                     else Some (ms_queue s ! (?n - 1)))\<rparr>"
  have "play_next env gid ?b =
           (None, schedule_disconnect gid (?s\<lparr>ms_current_track := None\<rparr>)
                    (set_state gid (?s\<lparr>ms_current_track := None\<rparr>) ?b))"
    by (rule play_next_empty[OF vc st]) (simp_all add: assms(3))
  then show ?thesis
    unfolding calls_unfold_last
    using vc o
    by (simp add: schedule_disconnect_def create_task_def set_state_def connected_def
        disconnect_after_timeout_def)
qed

lemma wake_disconnects:
  assumes "connected gid b" and "\<not> me_disconnect_raises env" and "\<not> me_send_raises env"
  shows "fst (snd (disconnect_after_timeout gid) env b) = None
       \<and> mb_voice_clients (snd (snd (disconnect_after_timeout gid) env b)) gid = Some None
       \<and> mb_guild_states (snd (snd (disconnect_after_timeout gid) env b)) gid = None"
  using assms
  by (auto simp: disconnect_after_timeout_def voice_disconnect_def delete_state_def Let_def
      connected_def split: option.splits)


text \<open>
  Claim C6, as stated, fails for a guild without voice client: \<open>play_next\<close> returns at
  its guard \<open>if not player\<close>, so that no call removes or plays a track, and after three
  calls the queue of two tracks is as it was and no disconnect task exists.
\<close>

theorem play_next_without_player_counterexample:
  "queue_of 1 ex_idle_bot = [ex_track_a, ex_track_b]
   \<and> play_next ex_music_env 1 ex_idle_bot = (None, ex_idle_bot)
   \<and> queue_of 1 (snd (play_next ex_music_env 1 ex_idle_bot)) = [ex_track_a, ex_track_b]
   \<and> now_playing 1 (snd (play_next ex_music_env 1 ex_idle_bot)) = None
   \<and> queue_of 1 (play_next_calls 3 ex_music_env 1 ex_idle_bot) = [ex_track_a, ex_track_b]
   \<and> mb_tasks (play_next_calls 3 ex_music_env 1 ex_idle_bot) = []"
proof -
  have p: "play_next ex_music_env 1 ex_idle_bot = (None, ex_idle_bot)"
    by (simp add: play_next_def state_of_def ex_idle_bot_def ex_music_bot_def)
  have three: "play_next_calls 3 ex_music_env 1 ex_idle_bot = ex_idle_bot"
    using p by (simp add: numeral_3_eq_3)
  have q: "queue_of 1 ex_idle_bot = [ex_track_a, ex_track_b]"
    by (simp add: queue_of_def state_of_def ex_idle_bot_def ex_music_bot_def
        GuildMusicState_init_def)
  have n: "now_playing 1 ex_idle_bot = None"
    by (simp add: now_playing_def ex_idle_bot_def)
  have t: "mb_tasks ex_idle_bot = []"
    by (simp add: ex_idle_bot_def ex_music_bot_def)
  show ?thesis
    unfolding three p using q n t by simp
qed

text \<open>
  Claim C6, amended. Let the guild have a connected voice client and \<open>N\<close> tracks in its
  queue. Then for every \<open>k < N\<close>, after \<open>k\<close> calls of \<open>play_next\<close> the queue holds the
  tracks from position \<open>k\<close> on, and the next call removes exactly the head of the queue
  and makes it the current track; unless \<open>player.play\<close> raises, that call returns
  without exception and the player has been told to play the track. After \<open>N + 1\<close>
  calls the queue is empty. If moreover the autoplay flag is off, the last call has
  created exactly one task, not cancelled, that sleeps 30 seconds, and has stored its
  handle in the state, the voice client still being connected; and when that task
  wakes up in any state in which the guild has a voice client, and neither the
  disconnection nor the message to the bound channel raises, it disconnects the voice
  client and deletes the music state of the guild. For a guild without voice client
  \<open>play_next\<close> returns at once: the queue and the tasks stay as they are and nothing is
  played.
\<close>

theorem queue_drained:
  "(connected gid b \<longrightarrow>
      (\<forall>k < length (queue_of gid b).
            queue_of gid (play_next_calls k env gid b) = drop k (queue_of gid b)
          \<and> queue_of gid (play_next_calls (Suc k) env gid b) = drop (Suc k) (queue_of gid b)
          \<and> ms_current_track (fst (state_of gid (play_next_calls (Suc k) env gid b)))
              = Some (queue_of gid b ! k)
          \<and> (\<not> me_play_raises env \<longrightarrow>
                fst (play_next env gid (play_next_calls k env gid b)) = None
              \<and> now_playing gid (play_next_calls (Suc k) env gid b) = Some (queue_of gid b ! k)))
       \<and> queue_of gid (play_next_calls (Suc (length (queue_of gid b))) env gid b) = []
       \<and> (\<not> autoplay_of gid b \<longrightarrow>
            mb_tasks (play_next_calls (Suc (length (queue_of gid b))) env gid b)
              = mb_tasks b @ [\<lparr>task_guild = gid, task_sleep = 30, task_cancelled = False\<rparr>]
          \<and> ms_disconnect_task
               (fst (state_of gid (play_next_calls (Suc (length (queue_of gid b))) env gid b)))
              = Some (length (mb_tasks b))
          \<and> connected gid (play_next_calls (Suc (length (queue_of gid b))) env gid b)
          \<and> (\<forall>env' b'. connected gid b' \<and> \<not> me_disconnect_raises env' \<and> \<not> me_send_raises env'
                \<longrightarrow>
                fst (wake_task \<lparr>task_guild = gid, task_sleep = 30, task_cancelled = False\<rparr>
                       env' b') = None
              \<and> \<not> connected gid
                    (snd (wake_task \<lparr>task_guild = gid, task_sleep = 30, task_cancelled = False\<rparr>
                            env' b'))
              \<and> mb_guild_states
                    (snd (wake_task \<lparr>task_guild = gid, task_sleep = 30, task_cancelled = False\<rparr>
                            env' b'))
                    gid = None)))
   \<and> (mb_voice_clients b gid = Some None \<longrightarrow>
        play_next env gid b = (None, snd (state_of gid b))
      \<and> queue_of gid (snd (play_next env gid b)) = queue_of gid b
      \<and> mb_tasks (snd (play_next env gid b)) = mb_tasks b
      \<and> now_playing gid (snd (play_next env gid b)) = None)"
proof -
  have idle: "play_next env gid b = (None, snd (state_of gid b))
      \<and> queue_of gid (snd (play_next env gid b)) = queue_of gid b
      \<and> mb_tasks (snd (play_next env gid b)) = mb_tasks b
      \<and> now_playing gid (snd (play_next env gid b)) = None"
    if "mb_voice_clients b gid = Some None"
    using play_next_idle[OF that, of env] that
    by (simp add: queue_of_def state_of_idem now_playing_def)
  have part4: "fst (wake_task \<lparr>task_guild = gid, task_sleep = 30, task_cancelled = False\<rparr>
                       env' b') = None
              \<and> \<not> connected gid
                    (snd (wake_task \<lparr>task_guild = gid, task_sleep = 30, task_cancelled = False\<rparr>
                            env' b'))
              \<and> mb_guild_states
                    (snd (wake_task \<lparr>task_guild = gid, task_sleep = 30, task_cancelled = False\<rparr>
                            env' b'))
                    gid = None"
    if "connected gid b'" "\<not> me_disconnect_raises env'" "\<not> me_send_raises env'" for env' b'
    using wake_disconnects[OF that] by (simp add: wake_task_def connected_def)
  have main: "(\<forall>k < length (queue_of gid b).
            queue_of gid (play_next_calls k env gid b) = drop k (queue_of gid b)
          \<and> queue_of gid (play_next_calls (Suc k) env gid b) = drop (Suc k) (queue_of gid b)
          \<and> ms_current_track (fst (state_of gid (play_next_calls (Suc k) env gid b)))
              = Some (queue_of gid b ! k)
          \<and> (\<not> me_play_raises env \<longrightarrow>
                fst (play_next env gid (play_next_calls k env gid b)) = None
              \<and> now_playing gid (play_next_calls (Suc k) env gid b) = Some (queue_of gid b ! k)))
       \<and> queue_of gid (play_next_calls (Suc (length (queue_of gid b))) env gid b) = []
       \<and> (\<not> autoplay_of gid b \<longrightarrow>
            mb_tasks (play_next_calls (Suc (length (queue_of gid b))) env gid b)
              = mb_tasks b @ [\<lparr>task_guild = gid, task_sleep = 30, task_cancelled = False\<rparr>]
          \<and> ms_disconnect_task
               (fst (state_of gid (play_next_calls (Suc (length (queue_of gid b))) env gid b)))
              = Some (length (mb_tasks b))
          \<and> connected gid (play_next_calls (Suc (length (queue_of gid b))) env gid b))"
    if conn: "connected gid b"
  proof -
    define s where "s = fst (state_of gid b)"
    define b1 where "b1 = snd (state_of gid b)"
    from conn obtain p where vc0: "mb_voice_clients b gid = Some (Some p)"
      by (auto simp: connected_def split: option.splits)
    have vc: "mb_voice_clients b1 gid = Some (Some p)"
      using vc0 by (simp add: b1_def)
    have st: "mb_guild_states b1 gid = Some s"
      by (simp add: b1_def s_def state_of_snd_states)
    have q: "queue_of gid b = ms_queue s"
      by (simp add: queue_of_def s_def)
    have o: "mb_tasks b1 = mb_tasks b"
      by (simp add: b1_def)
    have pos: "play_next_calls (Suc n) env gid b = play_next_calls (Suc n) env gid b1" for n
      using play_next_calls_state_of[of "Suc n" env gid b] by (simp add: b1_def)
    have pn: "play_next env gid (play_next_calls k env gid b)
                = play_next env gid (play_next_calls k env gid b1)" for k
    proof (cases k)
      case 0
      then show ?thesis by (simp add: b1_def play_next_state_of)
    next
      case (Suc j)
      then show ?thesis using pos by simp
    qed
    have qk: "queue_of gid (play_next_calls k env gid b) = drop k (ms_queue s)"
      if "k \<le> length (ms_queue s)" for k
    proof (cases k)
      case 0
      then show ?thesis using q by simp
    next
      case (Suc j)
      then show ?thesis
        using calls_pop[OF vc st that, of env] pos by (simp add: queue_of_Some)
    qed
    have part1: "queue_of gid (play_next_calls k env gid b) = drop k (queue_of gid b)
          \<and> queue_of gid (play_next_calls (Suc k) env gid b) = drop (Suc k) (queue_of gid b)
          \<and> ms_current_track (fst (state_of gid (play_next_calls (Suc k) env gid b)))
              = Some (queue_of gid b ! k)
          \<and> (\<not> me_play_raises env \<longrightarrow>
                fst (play_next env gid (play_next_calls k env gid b)) = None
              \<and> now_playing gid (play_next_calls (Suc k) env gid b) = Some (queue_of gid b ! k))"
      if k: "k < length (queue_of gid b)" for k
    proof -
      have le: "k \<le> length (ms_queue s)" "Suc k \<le> length (ms_queue s)"
        using k q by simp_all
      from calls_pop[OF vc st le(1), of env]
      obtain p' where vck: "mb_voice_clients (play_next_calls k env gid b1) gid = Some (Some p')"
        and stk: "mb_guild_states (play_next_calls k env gid b1) gid
            = Some (s\<lparr>ms_queue := drop k (ms_queue s),
                      ms_current_track :=
                        (if k = 0 then ms_current_track s else Some (ms_queue s ! (k - 1)))\<rparr>)"
        by (auto simp: connected_def split: option.splits)
      have ne: "drop k (ms_queue s) = (ms_queue s ! k) # drop (Suc k) (ms_queue s)"
        using le by (simp add: Cons_nth_drop_Suc)
      have a: "fst (play_next env gid (play_next_calls k env gid b)) = None"
        if "\<not> me_play_raises env"
        unfolding pn
        using play_next_pop[OF vck stk, of "ms_queue s ! k" "drop (Suc k) (ms_queue s)" env] ne that
        by (simp add: play_track_def)
      from calls_pop[OF vc st le(2), of env]
      have sts: "mb_guild_states (play_next_calls (Suc k) env gid b1) gid
            = Some (s\<lparr>ms_queue := drop (Suc k) (ms_queue s),
                      ms_current_track := Some (ms_queue s ! k)\<rparr>)"
        and np: "\<not> me_play_raises env \<Longrightarrow>
                 now_playing gid (play_next_calls (Suc k) env gid b1) = Some (ms_queue s ! k)"
        by simp_all
      show ?thesis
        using qk[OF le(1)] qk[OF le(2)] a np sts q
        by (simp add: pos state_of_Some del: play_next_calls.simps)
    qed
    let ?n = "length (ms_queue s)"
    have stn: "mb_guild_states (play_next_calls ?n env gid b1) gid
            = Some (s\<lparr>ms_queue := [],
                      ms_current_track :=
                        (if ?n = 0 then ms_current_track s else Some (ms_queue s ! (?n - 1)))\<rparr>)"
      using calls_pop[OF vc st, of ?n env] by simp
    have part2: "queue_of gid (play_next_calls (Suc (length (queue_of gid b))) env gid b) = []"
      unfolding q pos
      unfolding calls_unfold_last
      by (rule play_next_keeps_empty[OF stn]) simp
    have part3: "mb_tasks (play_next_calls (Suc (length (queue_of gid b))) env gid b)
                = mb_tasks b @ [\<lparr>task_guild = gid, task_sleep = 30, task_cancelled = False\<rparr>]
            \<and> ms_disconnect_task
                 (fst (state_of gid (play_next_calls (Suc (length (queue_of gid b))) env gid b)))
                = Some (length (mb_tasks b))
            \<and> connected gid (play_next_calls (Suc (length (queue_of gid b))) env gid b)"
      if "\<not> autoplay_of gid b"
    proof -
      have "\<not> ms_autoplay s"
        using that by (simp add: autoplay_of_def s_def)
      from calls_all[OF vc st this, of env] show ?thesis
        unfolding q pos by (simp add: state_of_Some o del: play_next_calls.simps)
    qed
    show ?thesis
      using part1 part2 part3 by blast
  qed
  show ?thesis
    using idle main part4 by blast
qed

theorem queue_drained_witness:
  "queue_of 1 ex_music_bot = [ex_track_a, ex_track_b]
   \<and> now_playing 1 (play_next_calls 1 ex_music_env 1 ex_music_bot) = Some ex_track_a
   \<and> queue_of 1 (play_next_calls 1 ex_music_env 1 ex_music_bot) = [ex_track_b]
   \<and> now_playing 1 (play_next_calls 2 ex_music_env 1 ex_music_bot) = Some ex_track_b
   \<and> queue_of 1 (play_next_calls 2 ex_music_env 1 ex_music_bot) = []
   \<and> queue_of 1 (play_next_calls 3 ex_music_env 1 ex_music_bot) = []
   \<and> mb_tasks (play_next_calls 3 ex_music_env 1 ex_music_bot)
       = [\<lparr>task_guild = 1, task_sleep = 30, task_cancelled = False\<rparr>]
   \<and> connected 1 (play_next_calls 3 ex_music_env 1 ex_music_bot)
   \<and> \<not> connected 1 (snd (wake_task \<lparr>task_guild = 1, task_sleep = 30, task_cancelled = False\<rparr>
          ex_music_env (play_next_calls 3 ex_music_env 1 ex_music_bot)))
   \<and> mb_guild_states (snd (wake_task \<lparr>task_guild = 1, task_sleep = 30, task_cancelled = False\<rparr>
          ex_music_env (play_next_calls 3 ex_music_env 1 ex_music_bot))) 1 = None
   \<and> mb_sent (snd (wake_task \<lparr>task_guild = 1, task_sleep = 30, task_cancelled = False\<rparr>
          ex_music_env (play_next_calls 3 ex_music_env 1 ex_music_bot)))
       = [(7, DisconnectedInactivity)]
   \<and> play_next ex_music_env 1 ex_idle_bot = (None, ex_idle_bot)"
proof -
  have c: "connected 1 ex_music_bot"
    by (simp add: connected_def ex_music_bot_def)
  have q: "queue_of 1 ex_music_bot = [ex_track_a, ex_track_b]"
    by (simp add: queue_of_def state_of_def ex_music_bot_def GuildMusicState_init_def)
  have a: "\<not> autoplay_of 1 ex_music_bot"
    by (simp add: autoplay_of_def state_of_def ex_music_bot_def GuildMusicState_init_def)
  have t: "mb_tasks ex_music_bot = []"
    by (simp add: ex_music_bot_def)
  have r: "\<not> me_play_raises ex_music_env" "\<not> me_disconnect_raises ex_music_env"
    "\<not> me_send_raises ex_music_env"
    by (simp_all add: ex_music_env_def)
  note th = queue_drained[of 1 ex_music_bot ex_music_env, THEN conjunct1, rule_format, OF c,
      unfolded q]
  note th0 = th[THEN conjunct1, rule_format, of 0]
  note th1 = th[THEN conjunct1, rule_format, of 1]
  from th0 r have k0: "now_playing 1 (play_next_calls 1 ex_music_env 1 ex_music_bot) = Some ex_track_a
      \<and> queue_of 1 (play_next_calls 1 ex_music_env 1 ex_music_bot) = [ex_track_b]"
    by (simp del: play_next_calls.simps)
  from th1 r have k1: "now_playing 1 (play_next_calls 2 ex_music_env 1 ex_music_bot) = Some ex_track_b
      \<and> queue_of 1 (play_next_calls 2 ex_music_env 1 ex_music_bot) = []"
    by (simp add: numeral_2_eq_2 del: play_next_calls.simps)
  from th a t have k2: "queue_of 1 (play_next_calls 3 ex_music_env 1 ex_music_bot) = []
      \<and> mb_tasks (play_next_calls 3 ex_music_env 1 ex_music_bot)
          = [\<lparr>task_guild = 1, task_sleep = 30, task_cancelled = False\<rparr>]
      \<and> connected 1 (play_next_calls 3 ex_music_env 1 ex_music_bot)"
    by (simp add: numeral_3_eq_3 del: play_next_calls.simps)
  from th a k2 r have k3: "\<not> connected 1 (snd (wake_task \<lparr>task_guild = 1, task_sleep = 30, task_cancelled = False\<rparr>
          ex_music_env (play_next_calls 3 ex_music_env 1 ex_music_bot)))
      \<and> mb_guild_states (snd (wake_task \<lparr>task_guild = 1, task_sleep = 30, task_cancelled = False\<rparr>
          ex_music_env (play_next_calls 3 ex_music_env 1 ex_music_bot))) 1 = None"
    by (simp del: play_next_calls.simps)
  have i: "mb_voice_clients ex_idle_bot 1 = Some None"
    by (simp add: ex_idle_bot_def)
  have so: "snd (state_of 1 ex_idle_bot) = ex_idle_bot"
    by (simp add: state_of_def ex_idle_bot_def ex_music_bot_def)
  from queue_drained[of 1 ex_idle_bot ex_music_env, THEN conjunct2, rule_format, OF i]
  have k4: "play_next ex_music_env 1 ex_idle_bot = (None, ex_idle_bot)"
    using so by simp
  have three: "play_next_calls 3 ex_music_env 1 ex_music_bot
      = snd (play_next ex_music_env 1 (snd (play_next ex_music_env 1
           (snd (play_next ex_music_env 1 ex_music_bot)))))"
    by (simp add: numeral_3_eq_3)
  have s: "mb_sent (snd (wake_task \<lparr>task_guild = 1, task_sleep = 30, task_cancelled = False\<rparr>
          ex_music_env (play_next_calls 3 ex_music_env 1 ex_music_bot)))
       = [(7, DisconnectedInactivity)]"
    unfolding three
    by (simp add: play_next_def play_track_def state_of_def set_state_def player_play_def
        schedule_disconnect_def create_task_def disconnect_after_timeout_def wake_task_def
        voice_disconnect_def delete_state_def ex_music_bot_def ex_music_env_def
        GuildMusicState_init_def Let_def)
  show ?thesis
    using q k0 k1 k2 k3 k4 s by (simp del: play_next_calls.simps)
qed


end
